theory Spec2Isabelle
  imports Complex_Main
begin

section \<open>Shared vocabulary\<close>

text \<open>
  Python exceptions that the modelled code can raise or let through.  A function that can
  raise returns \<open>exn + 'a\<close>, with \<open>Inl\<close> carrying the exception.
\<close>

datatype exn =
    IOError
  | ValueError
  | IndexError
  | AttributeError
  | EOFError
  | KeyError
  | NameError
  | ZeroDivisionError
  | LinAlgError
  | OtherError

text \<open>
  An attribute of a Python object: never assigned (reading it raises AttributeError),
  assigned \<open>None\<close>, or assigned a value.
\<close>

datatype 'a attribute = Unset | PyNone | Val 'a

type_synonym vec = "real list"
type_synonym mat = "real list list"

text \<open>
  What \<open>utils.print_with_stamp\<close> and \<open>print\<close> write, one constructor per message of the
  modelled methods (the formatted arguments are kept, the time stamp and the learner name
  are not).
\<close>

datatype event =
    Changed_run_output
  | Loading_learner_state
  | Saving_learner_state
  | Warning_iteration_does_not_exist
  | Loading_from_iteration int
  | Initialising_new_learner
  | Compiling_cost_function
  | No_cost_function_provided
  | Starting_data_collection_run
  | Running_for real
  | Done_stopping_robot real
  | Training_policy_parameters int
  | Initial_value_estimate real
  | Using_optimizer string
  | Optimization_failed string
  | Blank_line
  | Done_training real
  | Compiling_optimizer
  | Current_value real int
  | Unknown_minimization_method string

section \<open>The experience dataset\<close>

text \<open>
  One immediate cost as \<open>apply_controller\<close> stores it: the literal \<open>0\<close> of the branch
  without a cost evaluator, or the (mean, variance) pair that the compiled cost function
  returns.
\<close>

datatype cost_sample = Scalar_cost real | Cost_moments real real

text \<open>
  \<open>ExperienceDataset\<close>: the time-aligned arrays hold one list per episode;
  \<open>policy_history\<close> is \<open>None\<close> when the object has no such attribute
  (\<open>hasattr(self.experience, 'policy_history')\<close> is false).
\<close>

record 'p experience_dataset =
  time_stamps :: "real list list"
  states :: "vec list list"
  actions :: "vec list list"
  immediate_cost :: "cost_sample list list"
  episode_labels :: "int list"
  curr_episode :: int
  policy_history :: "'p list option"

section \<open>The episodic learner\<close>

text \<open>
  The fields of \<open>EpisodicLearner\<close> that the modelled methods read or write.
  \<open>policy_params\<close> is what \<open>self.policy.get_params\<close> returns and
  \<open>self.policy.set_params\<close> overwrites.  An attribute that some path never assigns is
  an option: \<open>best_p\<close> (assigned in \<open>train_policy\<close>) and \<open>train_fn\<close> (the compiled
  stochastic update, with its optimizer state \<open>'o\<close>); \<open>evaluate_cost\<close>, which
  \<open>apply_controller\<close> compares with \<open>None\<close>, is an attribute in full.  \<open>out\<close> collects what is printed.
\<close>

record ('p, 'o) learner =
  policy_params :: 'p
  experience :: "'p experience_dataset"
  cost :: "(vec \<Rightarrow> mat \<Rightarrow> real \<times> real) option"
  evaluate_cost :: "(vec \<Rightarrow> mat \<Rightarrow> real \<times> real) attribute"
  n_episodes :: int
  angle_idims :: "nat list"
  H :: real
  discount :: real
  max_evals :: nat
  conv_thr :: real
  min_method :: string
  async_plant :: bool
  learning_iteration :: int
  n_evals :: int
  best_p :: "(real \<times> 'p) option"
  train_fn :: "'o option"
  state_changed :: bool
  out :: "event list"

definition print_with_stamp :: "event \<Rightarrow> ('p, 'o) learner \<Rightarrow> ('p, 'o) learner" where
  "print_with_stamp e s = s\<lparr>out := out s @ [e]\<rparr>"

definition DETERMINISTIC_MIN_METHODS :: "string list" where
  "DETERMINISTIC_MIN_METHODS = [''L-BFGS-B'', ''TNC'', ''BFGS'', ''SLSQP'', ''CG'']"

definition STOCHASTIC_MIN_METHODS :: "string list" where
  "STOCHASTIC_MIN_METHODS =
     [''SGD'', ''MOMENTUM'', ''NESTEROV'', ''NESTEROV_MOMENTUM'', ''ADAGRAD'', ''RMSPROP'',
      ''ADADELTA'', ''ADAM'']"

text \<open>\<open>str.upper\<close> of Python 2 on a byte string: the ASCII lower-case letters move up.\<close>

definition upper_char :: "char \<Rightarrow> char" where
  "upper_char c =
     (let n = (of_char c :: nat) in if 97 \<le> n \<and> n \<le> 122 then char_of (n - 32) else c)"

definition upper :: "string \<Rightarrow> string" where
  "upper s = map upper_char s"

subsection \<open>What \<open>train_policy\<close> calls outside the class\<close>

text \<open>
  The collaborators of \<open>train_policy\<close>, none of them defined in the class:
  \<^item> \<open>value\<close>: \<open>self.value()\<close> of the subclass, as a function of the installed policy
    parameters (nothing else that it reads changes during training);
  \<^item> \<open>wrap_params\<close>, \<open>unwrap_params\<close>, \<open>shapes\<close>: \<open>utils.wrap_params\<close>,
    \<open>utils.unwrap_params\<close> and \<open>[p.shape for p in p0]\<close>;
  \<^item> \<open>minimize\<close>: \<open>scipy.optimize.minimize\<close> run on the memoized loss with the given
    method from the given start: the points at which it ran \<open>self.loss\<close> to the end, in
    order, and then either the exception it raised or \<open>opt_res.x\<close>;
  \<^item> \<open>compile_train_fn\<close>: the update rule of the named stochastic method compiled into a
    Theano function; \<open>run_train_fn\<close>: one call of it, which returns the value at the
    current parameters and updates the parameters and the optimizer state.
\<close>

record ('p, 'x, 'sh, 'o) train_env =
  "value" :: "'p \<Rightarrow> real"
  wrap_params :: "'p \<Rightarrow> 'x"
  unwrap_params :: "'x \<Rightarrow> 'sh \<Rightarrow> 'p"
  shapes :: "'p \<Rightarrow> 'sh"
  minimize :: "string \<Rightarrow> 'x \<Rightarrow> real \<Rightarrow> nat \<Rightarrow> 'x list \<times> (exn + 'x)"
  compile_train_fn :: "string \<Rightarrow> 'p \<Rightarrow> 'o"
  run_train_fn :: "'o \<Rightarrow> 'p \<Rightarrow> real \<times> 'p \<times> 'o"

text \<open>
  \<open>loss\<close>: installs the unwrapped parameters, evaluates the value, keeps the best pair
  seen so far and counts the evaluation.  The pair (value, gradient) it returns goes to the
  optimizer only, so the model keeps the effect on the learner.  Reading \<open>self.best_p\<close>
  before \<open>train_policy\<close> has assigned it is an AttributeError.
\<close>

definition loss ::
  "('p, 'x, 'sh, 'o) train_env \<Rightarrow> 'sh \<Rightarrow> 'x \<Rightarrow> ('p, 'o) learner \<Rightarrow> exn + ('p, 'o) learner" where
  "loss env parameter_shapes policy_parameters s =
     (let p = unwrap_params env policy_parameters parameter_shapes;
          s1 = s\<lparr>policy_params := p\<rparr>;
          v = value env p
      in case best_p s1 of
           None \<Rightarrow> Inl AttributeError
         | Some b \<Rightarrow>
             (let s2 = (if v < fst b then s1\<lparr>best_p := Some (v, p)\<rparr> else s1);
                  s3 = s2\<lparr>n_evals := n_evals s2 + 1\<rparr>
              in Inr (print_with_stamp (Current_value v (n_evals s3)) s3)))"

fun run_losses ::
  "('p, 'x, 'sh, 'o) train_env \<Rightarrow> 'sh \<Rightarrow> 'x list \<Rightarrow> ('p, 'o) learner \<Rightarrow> exn + ('p, 'o) learner" where
  "run_losses env sh [] s = Inr s"
| "run_losses env sh (x # xs) s =
     (case loss env sh x s of Inl e \<Rightarrow> Inl e | Inr s' \<Rightarrow> run_losses env sh xs s')"

text \<open>
  The list of methods to try: the configured one, then every entry of
  \<open>DETERMINISTIC_MIN_METHODS\<close> not yet in the list, in the order of that constant.
\<close>

definition min_methods_of :: "string \<Rightarrow> string list" where
  "min_methods_of m =
     foldl (\<lambda>acc d. if d \<notin> set acc then acc @ [d] else acc) [m] DETERMINISTIC_MIN_METHODS"

text \<open>
  The loop over \<open>min_methods\<close>.  A ValueError is caught: the best pair replaces
  \<open>p0\<close>, its parameters are installed and the next method runs.  Any other exception
  leaves the method.  When the list is used up the loop just ends.
\<close>

fun try_methods ::
  "('p, 'x, 'sh, 'o) train_env \<Rightarrow> 'sh \<Rightarrow> string list \<Rightarrow> 'p \<Rightarrow> ('p, 'o) learner
     \<Rightarrow> exn + ('p, 'o) learner" where
  "try_methods env sh [] p0 s = Inr s"
| "try_methods env sh (m # ms) p0 s =
     (let s1 = print_with_stamp (Using_optimizer m) s;
          (queries, res) = minimize env m (wrap_params env p0) (conv_thr s1) (max_evals s1)
      in case run_losses env sh queries s1 of
           Inl e \<Rightarrow> Inl e
         | Inr s2 \<Rightarrow>
             (case res of
                Inr x \<Rightarrow> Inr (s2\<lparr>policy_params := unwrap_params env x sh\<rparr>)
              | Inl e \<Rightarrow>
                  if e = ValueError then
                    (let s3 = print_with_stamp (Optimization_failed m) s2
                     in case best_p s3 of
                          None \<Rightarrow> Inl AttributeError
                        | Some (v0, p0') \<Rightarrow>
                            try_methods env sh ms p0' (s3\<lparr>policy_params := p0'\<rparr>))
                  else Inl e))"

text \<open>The training loop of the stochastic family: \<open>max_evals\<close> calls of \<open>train_fn\<close>.\<close>

fun train_loop ::
  "('p, 'x, 'sh, 'o) train_env \<Rightarrow> nat \<Rightarrow> ('p, 'o) learner \<Rightarrow> exn + ('p, 'o) learner" where
  "train_loop env 0 s = Inr s"
| "train_loop env (Suc k) s =
     (case train_fn s of
        None \<Rightarrow> Inl AttributeError
      | Some f \<Rightarrow>
          (let (v, p, f') = run_train_fn env f (policy_params s);
               s1 = s\<lparr>policy_params := p, train_fn := Some f'\<rparr>
           in case best_p s1 of
                None \<Rightarrow> Inl AttributeError
              | Some b \<Rightarrow>
                  (let s2 = (if v < fst b then s1\<lparr>best_p := Some (v, p)\<rparr> else s1);
                       s3 = s2\<lparr>n_evals := n_evals s2 + 1\<rparr>
                   in train_loop env k (print_with_stamp (Current_value v (n_evals s3)) s3))))"

definition train_policy ::
  "('p, 'x, 'sh, 'o) train_env \<Rightarrow> real option \<Rightarrow> ('p, 'o) learner \<Rightarrow> exn + ('p, 'o) learner" where
  "train_policy env H_arg s =
     (let s = (case H_arg of None \<Rightarrow> s | Some h \<Rightarrow> s\<lparr>H := h\<rparr>);
          s = s\<lparr>learning_iteration := learning_iteration s + 1\<rparr>;
          s = s\<lparr>n_evals := 0\<rparr>;
          s = print_with_stamp (Training_policy_parameters (learning_iteration s)) s;
          v0 = value env (policy_params s);
          s = print_with_stamp (Initial_value_estimate v0) s;
          p0 = policy_params s;
          s = s\<lparr>best_p := Some (v0, p0)\<rparr>;
          min_method = upper (min_method s)
      in if min_method \<in> set DETERMINISTIC_MIN_METHODS then
           (let parameter_shapes = shapes env p0;
                min_methods = min_methods_of min_method
            in case try_methods env parameter_shapes min_methods p0 s of
                 Inl e \<Rightarrow> Inl e
               | Inr s \<Rightarrow>
                   (let s = print_with_stamp Blank_line s;
                        s = print_with_stamp (Done_training (value env (policy_params s))) s
                    in Inr (s\<lparr>state_changed := True\<rparr>)))
         else if min_method \<in> set STOCHASTIC_MIN_METHODS then
           (let s = print_with_stamp (Using_optimizer min_method) s;
                s = (case train_fn s of
                       Some f \<Rightarrow> s
                     | None \<Rightarrow>
                         (let s = print_with_stamp Compiling_optimizer s
                          in s\<lparr>train_fn := Some (compile_train_fn env min_method (policy_params s))\<rparr>))
            in case train_loop env (max_evals s) s of
                 Inl e \<Rightarrow> Inl e
               | Inr s \<Rightarrow> Inr (s\<lparr>state_changed := True\<rparr>))
         else
           (let s = print_with_stamp (Unknown_minimization_method (Spec2Isabelle.min_method s)) s
            in Inl ValueError))"

text \<open>The methods that a run announced with "Using ... optimizer", in order.\<close>

fun used_optimizers :: "event list \<Rightarrow> string list" where
  "used_optimizers [] = []"
| "used_optimizers (Using_optimizer m # es) = m # used_optimizers es"
| "used_optimizers (e # es) = used_optimizers es"

text \<open>
  The notions of the fallback loop.  \<open>best_after\<close>: the best-known pair after the loss
  was evaluated at the points \<open>qs\<close>, a strictly smaller value replacing the pair, as
  \<open>loss\<close> does.  \<open>restart\<close>: the parameters from which attempt \<open>i\<close> on the list
  \<open>ms\<close> starts and the best-known pair it starts with, when every attempt before it
  failed: attempt 0 starts from the initial parameters, and every later attempt from the
  parameters of the best-known pair left by the attempt before it.  \<open>attempt\<close>: what
  the optimizer answers in attempt \<open>i\<close>.
\<close>

definition best_after ::
  "('p, 'x, 'sh, 'o) train_env \<Rightarrow> 'sh \<Rightarrow> 'x list \<Rightarrow> real \<times> 'p \<Rightarrow> real \<times> 'p" where
  "best_after env sh qs b =
     foldl (\<lambda>b x. let p = unwrap_params env x sh; v = value env p
                   in if v < fst b then (v, p) else b) b qs"

fun restart ::
  "('p, 'x, 'sh, 'o) train_env \<Rightarrow> 'sh \<Rightarrow> real \<Rightarrow> nat \<Rightarrow> string list \<Rightarrow> 'p \<times> real \<times> 'p \<Rightarrow> nat
     \<Rightarrow> 'p \<times> real \<times> 'p" where
  "restart env sh tol n ms pb 0 = pb"
| "restart env sh tol n ms pb (Suc i) =
     (let (p, b) = restart env sh tol n ms pb i;
          b' = best_after env sh (fst (minimize env (ms ! i) (wrap_params env p) tol n)) b
      in (snd b', b'))"

definition attempt ::
  "('p, 'x, 'sh, 'o) train_env \<Rightarrow> 'sh \<Rightarrow> real \<Rightarrow> nat \<Rightarrow> string list \<Rightarrow> 'p \<times> real \<times> 'p \<Rightarrow> nat
     \<Rightarrow> exn + 'x" where
  "attempt env sh tol n ms pb i =
     snd (minimize env (ms ! i) (wrap_params env (fst (restart env sh tol n ms pb i))) tol n)"

subsection \<open>Concrete learners and optimizers\<close>

text \<open>
  A learner with one integer as its policy parameters, and optimizers for it.  Every
  method of \<open>env_base\<close> evaluates the loss at the start point plus one and returns the
  start point plus two.  In \<open>env_all_fail\<close> every method raises ValueError instead of
  returning; in \<open>env_cg_fails_once\<close> the method \<open>CG\<close> raises ValueError when started
  from 0 and nowhere else; in \<open>env_cg_divides\<close> the method \<open>CG\<close> raises
  ZeroDivisionError.  The value of a parameter is its distance from 5.
\<close>

definition empty_dataset :: "int experience_dataset" where
  "empty_dataset =
     \<lparr>time_stamps = [], states = [], actions = [], immediate_cost = [], episode_labels = [],
      curr_episode = -1, policy_history = Some []\<rparr>"

definition learner0 :: "(int, unit) learner" where
  "learner0 =
     \<lparr>policy_params = 0, experience = empty_dataset, cost = None, evaluate_cost = Unset,
      n_episodes = 0, angle_idims = [], H = 10, discount = 1, max_evals = 2,
      conv_thr = 0, min_method = ''cg'', async_plant = False, learning_iteration = 0,
      n_evals = 0, best_p = None, train_fn = None, state_changed = False, out = []\<rparr>"

definition env_base :: "(int, int, unit, unit) train_env" where
  "env_base =
     \<lparr>value = (\<lambda>p. \<bar>real_of_int p - 5\<bar>), wrap_params = (\<lambda>p. p),
      unwrap_params = (\<lambda>x sh. x), shapes = (\<lambda>p. ()),
      minimize = (\<lambda>m x0 tol n. ([x0 + 1], Inr (x0 + 2))),
      compile_train_fn = (\<lambda>m p. ()), run_train_fn = (\<lambda>f p. (\<bar>real_of_int p - 5\<bar>, p + 1, ()))\<rparr>"

definition env_all_fail :: "(int, int, unit, unit) train_env" where
  "env_all_fail = env_base\<lparr>minimize := (\<lambda>m x0 tol n. ([x0 + 1], Inl ValueError))\<rparr>"

definition env_cg_fails_once :: "(int, int, unit, unit) train_env" where
  "env_cg_fails_once =
     env_base\<lparr>minimize :=
       (\<lambda>m x0 tol n. if m = ''CG'' \<and> x0 = 0 then ([x0 + 1], Inl ValueError)
                      else ([x0 + 1], Inr (x0 + 2)))\<rparr>"

definition env_cg_divides :: "(int, int, unit, unit) train_env" where
  "env_cg_divides =
     env_base\<lparr>minimize :=
       (\<lambda>m x0 tol n. if m = ''CG'' then ([x0 + 1], Inl ZeroDivisionError)
                      else ([x0 + 1], Inr (x0 + 2)))\<rparr>"

section \<open>Construction, loading and saving\<close>

subsection \<open>Python lists\<close>

text \<open>
  \<open>xs[i]\<close>: an index from 0 up to the length reads from the front, one from minus the
  length up to -1 reads from the back, and any other raises IndexError.
\<close>

definition py_index :: "'a list \<Rightarrow> int \<Rightarrow> exn + 'a" where
  "py_index xs i =
     (if 0 \<le> i \<and> i < int (length xs) then Inr (xs ! nat i)
      else if i < 0 \<and> - int (length xs) \<le> i then Inr (xs ! nat (int (length xs) + i))
      else Inl IndexError)"

text \<open>\<open>xs[:k]\<close>: a negative bound counts from the end, and no bound raises.\<close>

definition py_slice_to :: "'a list \<Rightarrow> int \<Rightarrow> 'a list" where
  "py_slice_to xs k = (if 0 \<le> k then take (nat k) xs else take (nat (int (length xs) + k)) xs)"

subsection \<open>The files of a learner\<close>

text \<open>
  \<open>get_state\<close> and \<open>set_state\<close>: the eight values of the learner-state archive, in
  the order of the list.
\<close>

record snapshot =
  snap_n_episodes :: int
  snap_angle_idims :: "nat list"
  snap_async_plant :: bool
  snap_cost :: "(vec \<Rightarrow> mat \<Rightarrow> real \<times> real) option"
  snap_H :: real
  snap_discount :: real
  snap_learning_iteration :: int
  snap_n_evals :: int

definition get_state :: "('p, 'o) learner \<Rightarrow> snapshot" where
  "get_state s =
     \<lparr>snap_n_episodes = n_episodes s, snap_angle_idims = angle_idims s,
      snap_async_plant = async_plant s, snap_cost = cost s, snap_H = H s,
      snap_discount = discount s, snap_learning_iteration = learning_iteration s,
      snap_n_evals = n_evals s\<rparr>"

definition set_state :: "snapshot \<Rightarrow> ('p, 'o) learner \<Rightarrow> ('p, 'o) learner" where
  "set_state state s =
     s\<lparr>n_episodes := snap_n_episodes state, angle_idims := snap_angle_idims state,
       async_plant := snap_async_plant state, cost := snap_cost state, H := snap_H state,
       discount := snap_discount state, learning_iteration := snap_learning_iteration state,
       n_evals := snap_n_evals state\<rparr>"

text \<open>
  The three archives of a named learner; \<open>None\<close> is a file that does not exist.
  \<open>policy.load\<close> and \<open>experience.load\<close> belong to other classes: here each installs
  the content of its file and raises IOError when the file is missing, as \<open>open\<close> does
  for the learner-state archive.
\<close>

record 'p files =
  policy_file :: "'p option"
  experience_file :: "'p experience_dataset option"
  state_file :: "snapshot option"

text \<open>
  \<open>load\<close>.  What was installed before an IOError stays installed, so the learner comes
  back together with the exception, if any.
\<close>

definition load :: "'p files \<Rightarrow> ('p, 'o) learner \<Rightarrow> exn option \<times> ('p, 'o) learner" where
  "load disk s =
     (case policy_file disk of
        None \<Rightarrow> (Some IOError, s)
      | Some p \<Rightarrow>
          (let s1 = s\<lparr>policy_params := p\<rparr>
           in case experience_file disk of
                None \<Rightarrow> (Some IOError, s1)
              | Some d \<Rightarrow>
                  (let s2 = s1\<lparr>experience := d\<rparr>
                   in case state_file disk of
                        None \<Rightarrow> (Some IOError, s2)
                      | Some state \<Rightarrow>
                          (let s3 = print_with_stamp Loading_learner_state s2;
                               s4 = set_state state s3
                           in (None, s4\<lparr>state_changed := False\<rparr>)))))"

text \<open>
  \<open>save\<close>: the policy is written, the current parameters are appended to
  \<open>policy_history\<close> when the dataset has one, the dataset is written, and the learner
  state is written only when \<open>state_changed\<close> is set.
\<close>

definition save :: "'p files \<Rightarrow> ('p, 'o) learner \<Rightarrow> 'p files \<times> ('p, 'o) learner" where
  "save disk s =
     (let disk1 = disk\<lparr>policy_file := Some (policy_params s)\<rparr>;
          s1 = (case policy_history (experience s) of
                  None \<Rightarrow> s
                | Some ph \<Rightarrow>
                    s\<lparr>experience := (experience s)\<lparr>policy_history := Some (ph @ [policy_params s])\<rparr>\<rparr>);
          disk2 = disk1\<lparr>experience_file := Some (experience s1)\<rparr>
      in if state_changed s1 then
           (let s2 = print_with_stamp Saving_learner_state s1;
                disk3 = disk2\<lparr>state_file := Some (get_state s2)\<rparr>
            in (disk3, s2\<lparr>state_changed := False\<rparr>))
         else (disk2, s1))"

definition init_cost :: "('p, 'o) learner \<Rightarrow> ('p, 'o) learner" where
  "init_cost s =
     (case cost s of
        Some c \<Rightarrow> (print_with_stamp Compiling_cost_function s)\<lparr>evaluate_cost := Val c\<rparr>
      | None \<Rightarrow> print_with_stamp No_cost_function_provided s)"

subsection \<open>The constructor\<close>

text \<open>
  The arguments of \<open>__init__\<close> that the learner state depends on.  The entries of
  \<open>params\<close> that the constructor looks up with a default are options; \<open>angle_dims\<close>
  is read without a default first, so a missing entry is a KeyError.  \<open>initial_policy\<close>
  is the parameters of the policy object just built, \<open>fresh_dataset\<close> the
  \<open>ExperienceDataset\<close> built when no dataset is passed, \<open>experience_arg\<close> the dataset
  passed as \<open>experience\<close>, and \<open>cost_func\<close> the cost function with its parameters
  bound.
\<close>

record 'p init_args =
  task_name :: "string option"
  params_angle_dims :: "nat list option"
  params_H :: "real option"
  params_discount :: "real option"
  params_max_evals :: "nat option"
  params_conv_thr :: "real option"
  params_min_method :: "string option"
  initial_policy :: 'p
  cost_func :: "(vec \<Rightarrow> mat \<Rightarrow> real \<times> real) option"
  fresh_dataset :: "'p experience_dataset"
  experience_arg :: "'p experience_dataset option"
  arg_async_plant :: bool
  learn_from_iteration :: int

text \<open>The two \<open>while\<close> loops that look for the episodes labelled with the iteration.\<close>

function find_label :: "int list \<Rightarrow> int \<Rightarrow> nat \<Rightarrow> exn + nat" where
  "find_label labels k entry_num =
     (if length labels \<le> entry_num then Inl IndexError
      else if labels ! entry_num \<noteq> k then find_label labels k (entry_num + 1)
      else Inr entry_num)"
  by pat_completeness auto
termination
  by (relation "measure (\<lambda>(labels, k, entry_num). length labels - entry_num)") auto

function skip_label :: "int list \<Rightarrow> int \<Rightarrow> nat \<Rightarrow> exn + nat" where
  "skip_label labels k entry_num =
     (if length labels \<le> entry_num then Inl IndexError
      else if labels ! entry_num = k then skip_label labels k (entry_num + 1)
      else Inr entry_num)"
  by pat_completeness auto
termination
  by (relation "measure (\<lambda>(labels, k, entry_num). length labels - entry_num)") auto

declare find_label.simps [simp del] skip_label.simps [simp del]

text \<open>
  The branch that reverts to iteration \<open>k\<close>.  The loops read
  \<open>experience.episode_labels\<close>, through the constructor's argument and not through
  \<open>self.experience\<close>: with no dataset passed the argument is \<open>None\<close> and the read raises
  AttributeError; with one passed it is the object that \<open>self.experience\<close> names.
\<close>

definition revert_to_iteration ::
  "'p experience_dataset option \<Rightarrow> int \<Rightarrow> 'p list \<Rightarrow> ('p, 'o) learner \<Rightarrow> exn + ('p, 'o) learner" where
  "revert_to_iteration arg k ph s =
     (let s = print_with_stamp (Loading_from_iteration k) s
      in case arg of
           None \<Rightarrow> Inl AttributeError
         | Some _ \<Rightarrow>
             (case find_label (episode_labels (experience s)) k 0 of
                Inl e \<Rightarrow> Inl e
              | Inr i \<Rightarrow>
                  (case skip_label (episode_labels (experience s)) k i of
                     Inl e \<Rightarrow> Inl e
                   | Inr entry_num \<Rightarrow>
                       (let d = experience s;
                            d = d\<lparr>time_stamps := take entry_num (time_stamps d)\<rparr>;
                            d = d\<lparr>states := take entry_num (states d)\<rparr>;
                            d = d\<lparr>actions := take entry_num (actions d)\<rparr>;
                            d = d\<lparr>immediate_cost := take entry_num (immediate_cost d)\<rparr>;
                            d = d\<lparr>curr_episode := int entry_num - 1\<rparr>;
                            s = s\<lparr>experience := d\<rparr>
                        in if k \<noteq> 0 then
                             (case py_index ph (k - 1) of
                                Inl e \<Rightarrow> Inl e
                              | Inr p \<Rightarrow>
                                  Inr (s\<lparr>policy_params := p,
                                         experience := d\<lparr>policy_history := Some (py_slice_to ph k)\<rparr>,
                                         learning_iteration := k + 1\<rparr>))
                           else Inr (s\<lparr>learning_iteration := k + 1\<rparr>)))))"

text \<open>
  What follows a successful \<open>load\<close> inside the \<open>try\<close>.  \<open>raw_input\<close> takes one line
  from the operator's input and raises EOFError when there is none.
\<close>

definition after_load ::
  "'p init_args \<Rightarrow> string list \<Rightarrow> ('p, 'o) learner \<Rightarrow> exn + ('p, 'o) learner \<times> string list" where
  "after_load args stdin s =
     (if learn_from_iteration args \<noteq> -1 then
        (case policy_history (experience s) of
           None \<Rightarrow> Inr (s, stdin)
         | Some ph \<Rightarrow>
             if learn_from_iteration args + 1 \<ge> int (length ph) then
               (let s = print_with_stamp Warning_iteration_does_not_exist s
                in case stdin of
                     [] \<Rightarrow> Inl EOFError
                   | line # rest \<Rightarrow> Inr (s, rest))
             else
               (case revert_to_iteration (experience_arg args) (learn_from_iteration args) ph s of
                  Inl e \<Rightarrow> Inl e
                | Inr s \<Rightarrow> Inr (s, stdin)))
      else Inr (s, stdin))"

text \<open>The learner as the constructor has set it up before it tries to load.\<close>

definition initial_learner :: "'p init_args \<Rightarrow> nat list \<Rightarrow> ('p, 'o) learner" where
  "initial_learner args angle_dims =
     \<lparr>policy_params = initial_policy args,
      experience = (case experience_arg args of None \<Rightarrow> fresh_dataset args | Some d \<Rightarrow> d),
      cost = cost_func args,
      evaluate_cost = Unset,
      n_episodes = 0,
      angle_idims = angle_dims,
      H = (case params_H args of Some h \<Rightarrow> h | None \<Rightarrow> 10),
      discount = (case params_discount args of Some g \<Rightarrow> g | None \<Rightarrow> 1),
      max_evals = (case params_max_evals args of Some n \<Rightarrow> n | None \<Rightarrow> 120),
      conv_thr = (case params_conv_thr args of Some c \<Rightarrow> c | None \<Rightarrow> 1 / 10 ^ 12),
      min_method = (case params_min_method args of Some m \<Rightarrow> m | None \<Rightarrow> ''ADAM''),
      async_plant = arg_async_plant args,
      learning_iteration = 0,
      n_evals = 0,
      best_p = None,
      train_fn = None,
      state_changed = False,
      out = (case task_name args of None \<Rightarrow> [] | Some _ \<Rightarrow> [Changed_run_output])\<rparr>"

definition init ::
  "'p init_args \<Rightarrow> 'p files \<Rightarrow> string list \<Rightarrow> exn + ('p, 'o) learner \<times> string list" where
  "init args disk stdin =
     (case params_angle_dims args of
        None \<Rightarrow> Inl KeyError
      | Some angle_dims \<Rightarrow>
          (case load disk (initial_learner args angle_dims) of
             (Some e, s1) \<Rightarrow>
               if e = IOError then
                 (let s2 = print_with_stamp Initialising_new_learner s1;
                      s3 = init_cost s2
                  in Inr (s3\<lparr>state_changed := False\<rparr>, stdin))
               else Inl e
           | (None, s1) \<Rightarrow>
               (case after_load args stdin s1 of
                  Inl e \<Rightarrow> Inl e
                | Inr (s2, stdin') \<Rightarrow> Inr (s2\<lparr>state_changed := False\<rparr>, stdin'))))"

subsection \<open>A concrete checkpoint\<close>

text \<open>
  A checkpoint after three training iterations: four episodes of one sample each, labelled
  0, 1, 1, 2, and three entries of policy history; and constructor arguments that pass a
  dataset and ask to resume from a given iteration.
\<close>

definition dataset1 :: "int experience_dataset" where
  "dataset1 =
     \<lparr>time_stamps = [[0], [1], [2], [3]],
      states = [[[0]], [[1]], [[2]], [[3]]],
      actions = [[[0]], [[0]], [[0]], [[0]]],
      immediate_cost = [[Scalar_cost 0], [Scalar_cost 0], [Scalar_cost 0], [Scalar_cost 0]],
      episode_labels = [0, 1, 1, 2],
      curr_episode = 3,
      policy_history = Some [10, 20, 30]\<rparr>"

definition snapshot1 :: snapshot where
  "snapshot1 =
     \<lparr>snap_n_episodes = 4, snap_angle_idims = [], snap_async_plant = False, snap_cost = None,
      snap_H = 10, snap_discount = 1, snap_learning_iteration = 3, snap_n_evals = 0\<rparr>"

definition files1 :: "int files" where
  "files1 = \<lparr>policy_file = Some 30, experience_file = Some dataset1, state_file = Some snapshot1\<rparr>"

definition args_resume :: "int \<Rightarrow> int init_args" where
  "args_resume k =
     \<lparr>task_name = None, params_angle_dims = Some [], params_H = None, params_discount = None,
      params_max_evals = None, params_conv_thr = None, params_min_method = None,
      initial_policy = 0, cost_func = None, fresh_dataset = empty_dataset,
      experience_arg = Some empty_dataset, arg_async_plant = False,
      learn_from_iteration = k\<rparr>"

section \<open>Double precision\<close>

text \<open>
  The numbers of NumPy (and of Theano with \<open>floatX = float64\<close>) are IEEE doubles.  A
  double is modelled by its value, a real number, and an operation on doubles is the
  exact operation followed by rounding to the nearest number with 53 significant bits,
  a tie going to the even one.  \<open>scale_to\<close> brings a number into the range
  \<open>2\<^sup>5\<^sup>2 \<le> |y| < 2\<^sup>5\<^sup>3\<close> by halving or doubling and counts the exponent; its first
  argument bounds the number of steps and covers the exponents of the doubles.
  Infinities, NaN and the gradual underflow of the smallest doubles are not modelled.
  Rounding is applied where a result below depends on it: to the quotient \<open>H/dt\<close> that fixes
  the number of steps of a rollout, and to the sums that form the next state
  distribution in \<open>propagate_state\<close>.
\<close>

fun scale_to :: "nat \<Rightarrow> real \<Rightarrow> int \<Rightarrow> real \<times> int" where
  "scale_to 0 y e = (y, e)"
| "scale_to (Suc n) y e =
     (if 2 ^ 53 \<le> \<bar>y\<bar> then scale_to n (y / 2) (e + 1)
      else if \<bar>y\<bar> < 2 ^ 52 then scale_to n (y * 2) (e - 1)
      else (y, e))"

definition round_half_even :: "real \<Rightarrow> int" where
  "round_half_even y =
     (let f = \<lfloor>y\<rfloor>; d = y - of_int f
      in if d < 1 / 2 then f else if 1 / 2 < d then f + 1 else if even f then f else f + 1)"

definition pow2 :: "int \<Rightarrow> real" where
  "pow2 e = (if 0 \<le> e then 2 ^ nat e else 1 / 2 ^ nat (- e))"

definition round_double :: "real \<Rightarrow> real" where
  "round_double x =
     (if x = 0 then 0
      else (let (y, e) = scale_to 2200 x 0 in of_int (round_half_even y) * pow2 e))"

text \<open>The sum and the quotient of two doubles.\<close>

definition double_add :: "real \<Rightarrow> real \<Rightarrow> real" where
  "double_add x y = round_double (x + y)"

definition double_div :: "real \<Rightarrow> real \<Rightarrow> real" where
  "double_div x y = round_double (x / y)"

section \<open>The rollout loop\<close>

subsection \<open>Arrays\<close>

text \<open>
  The NumPy operations of \<open>apply_controller\<close> on one-dimensional arrays (lists) and
  two-dimensional arrays (lists of rows).  Operands whose shapes do not fit raise
  ValueError.  Numbers are reals: rounding is not modelled.
\<close>

definition zeros :: "nat \<Rightarrow> vec" where
  "zeros n = replicate n 0"

definition zeros_like :: "vec \<Rightarrow> vec" where
  "zeros_like u = zeros (length u)"

definition zeros2 :: "nat \<Rightarrow> nat \<Rightarrow> mat" where
  "zeros2 n m = replicate n (zeros m)"

definition is_matrix :: "nat \<Rightarrow> nat \<Rightarrow> mat \<Rightarrow> bool" where
  "is_matrix n m A \<longleftrightarrow> length A = n \<and> list_all (\<lambda>row. length row = m) A"

definition np_add :: "vec \<Rightarrow> vec \<Rightarrow> exn + vec" where
  "np_add x y =
     (if length x = length y then Inr (map2 (+) x y)
      else if length y = 1 then Inr (map (\<lambda>a. a + hd y) x)
      else if length x = 1 then Inr (map (\<lambda>b. hd x + b) y)
      else Inl ValueError)"

text \<open>\<open>v.dot(A)\<close>: entry \<open>j\<close> is the sum over \<open>i\<close> of \<open>v[i] * A[i][j]\<close>.\<close>

definition np_dot_vm :: "vec \<Rightarrow> mat \<Rightarrow> exn + vec" where
  "np_dot_vm v A =
     (let m = (case A of [] \<Rightarrow> 0 | row # _ \<Rightarrow> length row)
      in if is_matrix (length v) m A
         then Inr (map (\<lambda>j. (\<Sum>i\<leftarrow>[0..<length v]. v ! i * A ! i ! j)) [0..<m])
         else Inl ValueError)"

subsection \<open>The dataset's methods\<close>

text \<open>
  Modelled from the spec: the methods \<open>new_episode\<close>, \<open>add_sample\<close> and \<open>append\<close>
  of \<open>ExperienceDataset\<close>, whose class is not among the sources.  \<open>new_episode\<close>
  "opens a new episode tagged with ... the originating iteration"; \<open>add_sample\<close> and
  \<open>append\<close> "append one timestep to the current episode", which is the last one
  opened, and there is none to append to before the first \<open>new_episode\<close>.
\<close>

definition new_episode :: "bool \<Rightarrow> int \<Rightarrow> 'p experience_dataset \<Rightarrow> 'p experience_dataset" where
  "new_episode random iteration d =
     d\<lparr>time_stamps := time_stamps d @ [[]], states := states d @ [[]],
       actions := actions d @ [[]], immediate_cost := immediate_cost d @ [[]],
       episode_labels := episode_labels d @ [iteration],
       curr_episode := curr_episode d + 1\<rparr>"

definition snoc_last :: "'a \<Rightarrow> 'a list list \<Rightarrow> 'a list list" where
  "snoc_last a xss = butlast xss @ [last xss @ [a]]"

definition add_sample ::
  "real \<Rightarrow> vec \<Rightarrow> vec \<Rightarrow> cost_sample \<Rightarrow> 'p experience_dataset \<Rightarrow> exn + 'p experience_dataset" where
  "add_sample t x u c d =
     (if time_stamps d = [] \<or> states d = [] \<or> actions d = [] \<or> immediate_cost d = []
      then Inl IndexError
      else Inr (d\<lparr>time_stamps := snoc_last t (time_stamps d),
                  states := snoc_last x (states d),
                  actions := snoc_last u (actions d),
                  immediate_cost := snoc_last c (immediate_cost d)\<rparr>))"

definition append_sample ::
  "real \<Rightarrow> vec \<Rightarrow> vec \<Rightarrow> cost_sample \<Rightarrow> 'p experience_dataset \<Rightarrow> exn + 'p experience_dataset" where
  "append_sample = add_sample"

subsection \<open>The plant, the policy and the random source\<close>

text \<open>
  What \<open>apply_controller\<close> calls outside the class.  The plant is an object with a state
  \<open>'pl\<close>: \<open>get_state\<close> returns the state vector and the time stamp (and may move the
  plant on, when it runs on its own clock), \<open>apply_control\<close>, \<open>step\<close>, \<open>start\<close> and
  \<open>stop\<close> change it, \<open>done\<close>, \<open>noise\<close> and \<open>dt\<close> are read from it.
  \<open>np_cholesky\<close> is \<open>np.linalg.cholesky\<close> on a matrix, \<open>randn\<close> is
  \<open>np.random.randn\<close> drawing from a random source \<open>'rng\<close>, \<open>gTrig_np\<close> is the function
  of \<open>utils\<close>, \<open>policy_evaluate\<close> is \<open>self.policy.evaluate(x)[0].flatten()\<close> and
  \<open>rand_policy_evaluate\<close> the same for \<open>RandPolicy(self.policy.maxU)\<close>.  The
  visualization and the pacing of the loop (\<open>time.time\<close>, \<open>time.sleep\<close>) act on
  nothing that is modelled.
\<close>

record ('pl, 'p, 'rng) rollout_env =
  plant_get_state :: "'pl \<Rightarrow> (vec \<times> real) \<times> 'pl"
  plant_apply_control :: "vec \<Rightarrow> 'pl \<Rightarrow> 'pl"
  plant_step :: "'pl \<Rightarrow> 'pl"
  plant_start :: "'pl \<Rightarrow> 'pl"
  plant_stop :: "'pl \<Rightarrow> 'pl"
  plant_done :: "'pl \<Rightarrow> bool"
  plant_noise :: "'pl \<Rightarrow> mat option"
  plant_dt :: "'pl \<Rightarrow> real"
  np_cholesky :: "mat \<Rightarrow> exn + mat"
  randn :: "nat \<Rightarrow> 'rng \<Rightarrow> vec \<times> 'rng"
  gTrig_np :: "vec \<Rightarrow> nat list \<Rightarrow> vec"
  policy_evaluate :: "'p \<Rightarrow> vec \<Rightarrow> vec"
  rand_policy_evaluate :: "vec \<Rightarrow> 'rng \<Rightarrow> vec \<times> 'rng"

text \<open>The local variables of \<open>apply_controller\<close> and the objects it changes.\<close>

record ('p, 'o, 'pl, 'rng) rollout_state =
  x_t :: vec
  Sx_t :: mat
  t_now :: real
  u_t :: "vec option"
  the_learner :: "('p, 'o) learner"
  the_plant :: 'pl
  the_rng :: 'rng

text \<open>
  \<open>x_t = x_t + np.random.randn(x_t.shape[0]).dot(L_noise)\<close>, done when
  \<open>self.plant.noise is not None\<close>.
\<close>

definition randomize_state ::
  "('pl, 'p, 'rng) rollout_env \<Rightarrow> mat \<Rightarrow> ('p, 'o, 'pl, 'rng) rollout_state
     \<Rightarrow> exn + ('p, 'o, 'pl, 'rng) rollout_state" where
  "randomize_state env L_noise st =
     (case plant_noise env (the_plant st) of
        None \<Rightarrow> Inr st
      | Some _ \<Rightarrow>
          (let (z, g) = randn env (length (x_t st)) (the_rng st)
           in case np_dot_vm z L_noise of
                Inl e \<Rightarrow> Inl e
              | Inr w \<Rightarrow>
                  (case np_add (x_t st) w of
                     Inl e \<Rightarrow> Inl e
                   | Inr x \<Rightarrow> Inr (st\<lparr>x_t := x, the_rng := g\<rparr>))))"

text \<open>
  Storing one sample: through the cost evaluator and \<open>add_sample\<close>, or with cost 0
  through \<open>append\<close> when \<open>self.evaluate_cost\<close> is \<open>None\<close>.  Reading the attribute
  when nothing has assigned it raises AttributeError.
\<close>

definition record_sample ::
  "vec \<Rightarrow> ('p, 'o, 'pl, 'rng) rollout_state \<Rightarrow> exn + ('p, 'o, 'pl, 'rng) rollout_state" where
  "record_sample u st =
     (let s = the_learner st
      in case evaluate_cost s of
           Unset \<Rightarrow> Inl AttributeError
         | Val f \<Rightarrow>
             (let (m, v) = f (x_t st) (Sx_t st)
              in case add_sample (t_now st) (x_t st) u (Cost_moments m v) (experience s) of
                   Inl e \<Rightarrow> Inl e
                 | Inr d \<Rightarrow> Inr (st\<lparr>the_learner := s\<lparr>experience := d\<rparr>\<rparr>))
         | PyNone \<Rightarrow>
             (case append_sample (t_now st) (x_t st) u (Scalar_cost 0) (experience s) of
                Inl e \<Rightarrow> Inl e
              | Inr d \<Rightarrow> Inr (st\<lparr>the_learner := s\<lparr>experience := d\<rparr>\<rparr>)))"

text \<open>One pass through the body of the \<open>for\<close> loop; the flag says whether it ended in \<open>break\<close>.\<close>

definition rollout_step ::
  "('pl, 'p, 'rng) rollout_env \<Rightarrow> bool \<Rightarrow> mat \<Rightarrow> ('p, 'o, 'pl, 'rng) rollout_state
     \<Rightarrow> exn + ('p, 'o, 'pl, 'rng) rollout_state \<times> bool" where
  "rollout_step env random_controls L_noise st =
     (let s = the_learner st;
          xa_t = gTrig_np env (x_t st) (angle_idims s);
          (u, g) = (if random_controls then rand_policy_evaluate env xa_t (the_rng st)
                    else (policy_evaluate env (policy_params s) xa_t, the_rng st));
          st = st\<lparr>u_t := Some u, the_rng := g\<rparr>;
          st = st\<lparr>the_plant := plant_apply_control env u (the_plant st)\<rparr>
      in case record_sample u st of
           Inl e \<Rightarrow> Inl e
         | Inr st \<Rightarrow>
             (let st = (if \<not> async_plant s then st\<lparr>the_plant := plant_step env (the_plant st)\<rparr>
                        else st);
                  ((x, t), pl) = plant_get_state env (the_plant st);
                  st = st\<lparr>x_t := x, t_now := t, the_plant := pl\<rparr>
              in case randomize_state env L_noise st of
                   Inl e \<Rightarrow> Inl e
                 | Inr st \<Rightarrow> Inr (st, plant_done env (the_plant st))))"

fun rollout_loop ::
  "('pl, 'p, 'rng) rollout_env \<Rightarrow> bool \<Rightarrow> mat \<Rightarrow> nat \<Rightarrow> ('p, 'o, 'pl, 'rng) rollout_state
     \<Rightarrow> exn + ('p, 'o, 'pl, 'rng) rollout_state" where
  "rollout_loop env random_controls L_noise 0 st = Inr st"
| "rollout_loop env random_controls L_noise (Suc n) st =
     (case rollout_step env random_controls L_noise st of
        Inl e \<Rightarrow> Inl e
      | Inr (st', stop) \<Rightarrow>
          if stop then Inr st' else rollout_loop env random_controls L_noise n st')"

text \<open>The sum that the final message prints: the costs of the last episode but its last sample.\<close>

definition cost_total :: "cost_sample \<Rightarrow> real" where
  "cost_total c = (case c of Scalar_cost a \<Rightarrow> a | Cost_moments m v \<Rightarrow> m + v)"

definition run_value :: "cost_sample list list \<Rightarrow> exn + real" where
  "run_value costs =
     (if costs = [] then Inl IndexError
      else Inr (\<Sum>c\<leftarrow>butlast (last costs). cost_total c))"

text \<open>
  \<open>apply_controller\<close>.  The Cholesky factor of \<open>self.plant.noise\<close> is taken before
  the test for \<open>None\<close>, and \<open>np.linalg.cholesky(None)\<close> raises LinAlgError.  After a
  loop of no steps \<open>u_t\<close> is not bound and \<open>np.zeros_like(u_t)\<close> raises NameError.
  The number of steps is the ceiling of the quotient \<open>H/dt\<close> as doubles.
\<close>

definition apply_controller ::
  "('pl, 'p, 'rng) rollout_env \<Rightarrow> real option \<Rightarrow> bool \<Rightarrow> ('p, 'o) learner \<times> 'pl \<times> 'rng
     \<Rightarrow> exn + ('p, 'o) learner \<times> 'pl \<times> 'rng" where
  "apply_controller env H_arg random_controls w =
     (let (s, pl, g) = w;
          s = print_with_stamp Starting_data_collection_run s;
          H = (case H_arg of None \<Rightarrow> H s | Some h \<Rightarrow> h);
          s = print_with_stamp (Running_for H) s;
          s = s\<lparr>experience := new_episode random_controls (learning_iteration s) (experience s)\<rparr>;
          pl = (if async_plant s then plant_start env pl else pl);
          ((x, t0), pl) = plant_get_state env pl
      in case (case plant_noise env pl of None \<Rightarrow> Inl LinAlgError | Some N \<Rightarrow> np_cholesky env N) of
           Inl e \<Rightarrow> Inl e
         | Inr L_noise \<Rightarrow>
             (let st = \<lparr>x_t = x, Sx_t = zeros2 (length x) (length x), t_now = t0, u_t = None,
                        the_learner = s, the_plant = pl, the_rng = g\<rparr>
              in case randomize_state env L_noise st of
                   Inl e \<Rightarrow> Inl e
                 | Inr st \<Rightarrow>
                     if plant_dt env (the_plant st) = 0 then Inl ZeroDivisionError
                     else
                       (let H_steps = \<lceil>double_div H (plant_dt env (the_plant st))\<rceil>
                        in case rollout_loop env random_controls L_noise (nat H_steps) st of
                             Inl e \<Rightarrow> Inl e
                           | Inr st \<Rightarrow>
                               (case u_t st of
                                  None \<Rightarrow> Inl NameError
                                | Some u \<Rightarrow>
                                    (case record_sample (zeros_like u) (st\<lparr>u_t := Some (zeros_like u)\<rparr>) of
                                       Inl e \<Rightarrow> Inl e
                                     | Inr st \<Rightarrow>
                                         (case run_value (immediate_cost (experience (the_learner st))) of
                                            Inl e \<Rightarrow> Inl e
                                          | Inr v \<Rightarrow>
                                              (let s = print_with_stamp (Done_stopping_robot v) (the_learner st);
                                                   pl = plant_stop env (the_plant st);
                                                   s = s\<lparr>n_episodes := n_episodes s + 1\<rparr>
                                               in Inr (s, pl, the_rng st))))))))"

text \<open>
  For the proofs about the loop: what stays true while an episode is recorded (the state
  vector has \<open>n\<close> entries, the cost evaluator attribute is assigned, an episode is
  open), and the lengths of the four arrays of the current episode.
\<close>

definition episode_open :: "'p experience_dataset \<Rightarrow> bool" where
  "episode_open d \<longleftrightarrow>
     time_stamps d \<noteq> [] \<and> states d \<noteq> [] \<and> actions d \<noteq> [] \<and> immediate_cost d \<noteq> []"

definition episode_sizes :: "'p experience_dataset \<Rightarrow> nat \<times> nat \<times> nat \<times> nat" where
  "episode_sizes d =
     (length (last (time_stamps d)), length (last (states d)), length (last (actions d)),
      length (last (immediate_cost d)))"

definition earlier_episodes ::
  "'p experience_dataset \<Rightarrow> real list list \<times> vec list list \<times> vec list list \<times> cost_sample list list" where
  "earlier_episodes d =
     (butlast (time_stamps d), butlast (states d), butlast (actions d), butlast (immediate_cost d))"

definition recording :: "nat \<Rightarrow> ('p, 'o, 'pl, 'rng) rollout_state \<Rightarrow> bool" where
  "recording n st \<longleftrightarrow>
     length (x_t st) = n \<and> evaluate_cost (the_learner st) \<noteq> Unset
     \<and> episode_open (experience (the_learner st))"

text \<open>
  \<open>grown k d d'\<close>: \<open>d'\<close> is \<open>d\<close> with \<open>k\<close> more samples in the current episode and
  nothing else changed.  \<open>steady_plant\<close>: a plant that never reports completion, with
  state vectors of \<open>n\<close> entries and a noise covariance \<open>N\<close> whose Cholesky factor \<open>L\<close>
  is an \<open>n\<close> by \<open>n\<close> matrix.
\<close>

definition grown :: "nat \<Rightarrow> 'p experience_dataset \<Rightarrow> 'p experience_dataset \<Rightarrow> bool" where
  "grown k d d' \<longleftrightarrow>
     episode_open d'
     \<and> episode_sizes d' = (case episode_sizes d of (a, b, c, e) \<Rightarrow> (a + k, b + k, c + k, e + k))
     \<and> earlier_episodes d' = earlier_episodes d
     \<and> episode_labels d' = episode_labels d
     \<and> policy_history d' = policy_history d"

definition steady_plant :: "('pl, 'p, 'rng) rollout_env \<Rightarrow> nat \<Rightarrow> mat \<Rightarrow> mat \<Rightarrow> bool" where
  "steady_plant env n N L \<longleftrightarrow>
     (\<forall>pl. plant_noise env pl = Some N) \<and> np_cholesky env N = Inr L \<and> is_matrix n n L
     \<and> (\<forall>pl. length (fst (fst (plant_get_state env pl))) = n)
     \<and> (\<forall>g. length (fst (randn env n g)) = n)
     \<and> (\<forall>pl. \<not> plant_done env pl)"

subsection \<open>A concrete plant\<close>

text \<open>
  A plant with a one-entry state that counts its steps, \<open>dt = 0.1\<close> (the double), a unit noise
  covariance (whose Cholesky factor is itself) and no completion signal; a random source
  that always draws zeros; and a policy that answers with its parameter.  \<open>env_no_noise\<close>
  is the same plant with \<open>noise = None\<close>.
\<close>

definition env_plant :: "(nat, int, unit) rollout_env" where
  "env_plant =
     \<lparr>plant_get_state = (\<lambda>pl. (([real pl], real pl / 10), pl)),
      plant_apply_control = (\<lambda>u pl. pl),
      plant_step = Suc,
      plant_start = (\<lambda>pl. pl),
      plant_stop = (\<lambda>pl. pl),
      plant_done = (\<lambda>pl. False),
      plant_noise = (\<lambda>pl. Some [[1]]),
      plant_dt = (\<lambda>pl. round_double (1 / 10)),
      np_cholesky = (\<lambda>N. if N = [[1]] then Inr [[1]] else Inl LinAlgError),
      randn = (\<lambda>k g. (replicate k 0, g)),
      gTrig_np = (\<lambda>x idims. x),
      policy_evaluate = (\<lambda>p x. [real_of_int p]),
      rand_policy_evaluate = (\<lambda>x g. ([0], g))\<rparr>"

definition env_no_noise :: "(nat, int, unit) rollout_env" where
  "env_no_noise = env_plant\<lparr>plant_noise := (\<lambda>pl. None)\<rparr>"

definition learner_with_cost :: "(int, unit) learner" where
  "learner_with_cost = learner0\<lparr>cost := Some (\<lambda>m S. (0, 0)), evaluate_cost := Val (\<lambda>m S. (0, 0))\<rparr>"

text \<open>No checkpoint on disk, and constructor arguments without a cost function.\<close>

definition no_files :: "int files" where
  "no_files = \<lparr>policy_file = None, experience_file = None, state_file = None\<rparr>"

definition args_no_cost :: "int init_args" where
  "args_no_cost = (args_resume (-1))\<lparr>experience_arg := None\<rparr>"

section \<open>PDDP: propagation and the backward pass\<close>

subsection \<open>Tensors\<close>

text \<open>
  The Theano expressions of \<open>pddp.py\<close> are read as the values they compute: vectors are
  lists of reals, matrices are lists of rows, and an operation takes the shape of its
  result from its operands as Theano does at run time.  Where Theano would reject the
  shapes at run time these functions still return a value; the theorems below state
  the shapes they need.  Sums and products are exact, except for the sums that form
  the next state distribution in \<open>propagate_state\<close>, which go through the addition
  of the tensors' number type.
\<close>

definition nrows :: "mat \<Rightarrow> nat" where
  "nrows A = length A"

definition ncols :: "mat \<Rightarrow> nat" where
  "ncols A = (case A of [] \<Rightarrow> 0 | row # _ \<Rightarrow> length row)"

definition vec_of :: "nat \<Rightarrow> (nat \<Rightarrow> real) \<Rightarrow> vec" where
  "vec_of n f = map f [0..<n]"

definition mat_of :: "nat \<Rightarrow> nat \<Rightarrow> (nat \<Rightarrow> nat \<Rightarrow> real) \<Rightarrow> mat" where
  "mat_of n m f = map (\<lambda>i. map (\<lambda>j. f i j) [0..<m]) [0..<n]"

text \<open>\<open>A.T\<close>, \<open>A + B\<close>, \<open>x + y\<close> and the four cases of \<open>dot\<close>.\<close>

definition transp :: "mat \<Rightarrow> mat" where
  "transp A = mat_of (ncols A) (nrows A) (\<lambda>i j. A ! j ! i)"

definition madd :: "mat \<Rightarrow> mat \<Rightarrow> mat" where
  "madd A B = mat_of (nrows A) (ncols A) (\<lambda>i j. A ! i ! j + B ! i ! j)"

definition vadd :: "vec \<Rightarrow> vec \<Rightarrow> vec" where
  "vadd x y = vec_of (length x) (\<lambda>i. x ! i + y ! i)"

definition dot_vv :: "vec \<Rightarrow> vec \<Rightarrow> real" where
  "dot_vv x y = (\<Sum>i\<leftarrow>[0..<length x]. x ! i * y ! i)"

definition dot_vm :: "vec \<Rightarrow> mat \<Rightarrow> vec" where
  "dot_vm v A = vec_of (ncols A) (\<lambda>j. \<Sum>i\<leftarrow>[0..<length v]. v ! i * A ! i ! j)"

definition dot_mv :: "mat \<Rightarrow> vec \<Rightarrow> vec" where
  "dot_mv A v = vec_of (nrows A) (\<lambda>i. \<Sum>j\<leftarrow>[0..<length v]. A ! i ! j * v ! j)"

definition dot_mm :: "mat \<Rightarrow> mat \<Rightarrow> mat" where
  "dot_mm A B = mat_of (nrows A) (ncols B) (\<lambda>i j. \<Sum>k\<leftarrow>[0..<ncols A]. A ! i ! k * B ! k ! j)"

text \<open>
  Broadcasting: a scalar added to a vector goes to every entry, a vector added to a
  matrix goes to every row.
\<close>

definition vadd_scalar :: "vec \<Rightarrow> real \<Rightarrow> vec" where
  "vadd_scalar x c = map (\<lambda>a. a + c) x"

definition madd_row :: "mat \<Rightarrow> vec \<Rightarrow> mat" where
  "madd_row A w = mat_of (nrows A) (ncols A) (\<lambda>i j. A ! i ! j + w ! j)"

definition vneg :: "vec \<Rightarrow> vec" where
  "vneg x = map uminus x"

definition eye :: "nat \<Rightarrow> mat" where
  "eye n = mat_of n n (\<lambda>i j. if i = j then 1 else 0)"

definition mscale :: "real \<Rightarrow> mat \<Rightarrow> mat" where
  "mscale c A = map (map (\<lambda>a. c * a)) A"

definition diag_of :: "vec \<Rightarrow> mat" where
  "diag_of v = mat_of (length v) (length v) (\<lambda>i j. if i = j then v ! i else 0)"

text \<open>\<open>concatenate(..., axis=1)\<close>, row selection \<open>A[idx]\<close> and \<open>set_subtensor(A[idx, :], B)\<close>.\<close>

definition hstack :: "mat \<Rightarrow> mat \<Rightarrow> mat" where
  "hstack A B = map2 (@) A B"

definition select_rows :: "mat \<Rightarrow> nat list \<Rightarrow> mat" where
  "select_rows A idx = map (\<lambda>i. A ! i) idx"

definition set_rows :: "mat \<Rightarrow> nat list \<Rightarrow> mat \<Rightarrow> mat" where
  "set_rows A idx B = fold (\<lambda>k M. M[idx ! k := B ! k]) [0..<length idx] A"

definition symmetric :: "mat \<Rightarrow> bool" where
  "symmetric A \<longleftrightarrow> transp A = A"

subsection \<open>The Cholesky factor\<close>

text \<open>
  \<open>tt.slinalg.cholesky\<close> with its defaults: the lower-triangular factor \<open>L\<close> with
  \<open>L L\<^sup>T = A\<close>, computed row by row from the lower triangle of \<open>A\<close>; a pivot that is not
  positive makes it raise ("matrix is not positive definite").
\<close>

definition chol_entry :: "mat \<Rightarrow> vec \<Rightarrow> vec \<Rightarrow> nat \<Rightarrow> real" where
  "chol_entry L a row j = (a ! j - (\<Sum>k\<leftarrow>[0..<j]. row ! k * L ! j ! k)) / L ! j ! j"

definition cholesky_row :: "mat \<Rightarrow> vec \<Rightarrow> nat \<Rightarrow> nat \<Rightarrow> exn + vec" where
  "cholesky_row L a i n =
     (let row = fold (\<lambda>j row. row @ [chol_entry L a row j]) [0..<i] [];
          d = a ! i - (\<Sum>k\<leftarrow>[0..<i]. row ! k * row ! k)
      in if d \<le> 0 then Inl LinAlgError
         else Inr (row @ [sqrt d] @ replicate (n - i - 1) 0))"

fun cholesky_rows :: "mat \<Rightarrow> nat list \<Rightarrow> mat \<Rightarrow> exn + mat" where
  "cholesky_rows A [] L = Inr L"
| "cholesky_rows A (i # rest) L =
     (case cholesky_row L (A ! i) i (length A) of
        Inl e \<Rightarrow> Inl e
      | Inr row \<Rightarrow> cholesky_rows A rest (L @ [row]))"

definition cholesky :: "mat \<Rightarrow> exn + mat" where
  "cholesky A = cholesky_rows A [0..<length A] []"

subsection \<open>\<open>propagate_state\<close>\<close>

text \<open>
  What \<open>propagate_state\<close> reads from the learner and calls outside the class:
  \<open>state_dim\<close> is \<open>self.mx0.get_value().size\<close>; \<open>gTrig2\<close> is the function of
  \<open>utils\<close>, whose third result may be \<open>None\<close>; \<open>u_nominal\<close> and \<open>policy_evaluate_sym\<close>
  are the policy's nominal action at a time and its evaluation on a state distribution;
  \<open>logsn\<close> and \<open>predict_symbolic\<close> belong to the dynamics model;
  \<open>reports_input_output_cov\<close> says whether the dynamics model is an \<open>SSGP\<close> or a
  \<open>BNN\<close>; \<open>solve_mat\<close> is \<open>solve\<close> of \<open>theano.tensor.slinalg\<close> with a matrix on the
  right; \<open>cost_fn\<close> is \<open>self.cost\<close> and \<open>cost_R\<close> the entry \<open>R\<close> of its parameters,
  if any; \<open>float_add\<close> is the addition of two numbers of the tensors' type
  (\<open>double_add\<close> for \<open>floatX = float64\<close>).  The index set has at most \<open>state_dim\<close>
  entries.  The update dictionaries that the method collects are not modelled.
\<close>

record pddp_env =
  state_dim :: nat
  pddp_angle_idims :: "nat list"
  gTrig2 :: "vec \<Rightarrow> mat \<Rightarrow> nat list \<Rightarrow> nat \<Rightarrow> vec \<times> mat \<times> mat option"
  u_nominal :: "int \<Rightarrow> vec"
  policy_evaluate_sym :: "vec \<Rightarrow> mat \<Rightarrow> int \<Rightarrow> vec \<times> mat \<times> mat"
  logsn :: vec
  predict_symbolic :: "vec \<Rightarrow> mat \<Rightarrow> vec \<times> mat \<times> mat"
  reports_input_output_cov :: bool
  solve_mat :: "mat \<Rightarrow> mat \<Rightarrow> mat"
  cost_fn :: "vec \<Rightarrow> mat \<Rightarrow> real \<times> real"
  cost_R :: "mat option"
  float_add :: "real \<Rightarrow> real \<Rightarrow> real"

text \<open>The control distribution: the nominal action with zero covariance, or the policy.\<close>

definition control_distribution ::
  "pddp_env \<Rightarrow> vec \<Rightarrow> mat \<Rightarrow> int \<Rightarrow> bool \<Rightarrow> vec \<times> mat \<times> mat" where
  "control_distribution env mx Sx t open_loop =
     (if open_loop then
        (let mu = u_nominal env t
         in (mu, zeros2 (length mu) (length mu), zeros2 (state_dim env) (length mu)))
      else
        (let sn2 = map (\<lambda>l. exp (2 * l)) (logsn env);
             Sx' = madd Sx (diag_of (map (\<lambda>s. 0.5 * s) sn2));
             (mxa', Sxa', Ca') = gTrig2 env mx Sx' (pddp_angle_idims env) (state_dim env)
         in policy_evaluate_sym env mxa' Sxa' t))"

text \<open>
  The predicted change of the state: what the dynamics model reports for the joint
  state-action distribution, with the cross-covariance brought back to the coordinates
  of the state.  The results are \<open>mu\<close>, \<open>Su\<close>, \<open>m_deltax\<close>, \<open>S_deltax\<close> and
  \<open>Sx_deltax\<close>.
\<close>

definition state_delta ::
  "pddp_env \<Rightarrow> vec \<Rightarrow> mat \<Rightarrow> int \<Rightarrow> bool \<Rightarrow> vec \<times> mat \<times> vec \<times> mat \<times> mat" where
  "state_delta env mx Sx t open_loop =
     (let D = state_dim env;
          idims = pddp_angle_idims env;
          (mxa, Sxa, Ca) = gTrig2 env mx Sx idims D;
          (mu, Su, Cu) = control_distribution env mx Sx t open_loop;
          mxu = mxa @ mu;
          q = dot_mm Sxa Cu;
          Sxu_up = hstack Sxa q;
          Sxu_lo = hstack (transp q) Su;
          Sxu = Sxu_up @ Sxu_lo;
          (m_deltax, S_deltax, C_deltax) = predict_symbolic env mxu Sxu;
          Sxu_deltax = (if reports_input_output_cov env then C_deltax else dot_mm Sxu C_deltax);
          Sx_deltax =
            (case Ca of
               Some Ca \<Rightarrow>
                 (let Da = D + length idims;
                      Dna = D - length idims;
                      non_angle_dims = filter (\<lambda>i. i \<notin> set idims) [0..<D];
                      Sxa_deltax = take Da Sxu_deltax;
                      sxna_deltax = take Dna Sxa_deltax;
                      sxsc_deltax = drop Dna Sxa_deltax;
                      Sx_sc = select_rows (dot_mm Sx Ca) idims;
                      Sa = map (drop Dna) (drop Dna Sxa);
                      sxa_deltax = dot_mm Sx_sc (solve_mat env Sa sxsc_deltax);
                      Z = zeros2 D D;
                      Z = set_rows Z non_angle_dims sxna_deltax
                  in set_rows Z idims sxa_deltax)
             | None \<Rightarrow> take D Sxu_deltax)
      in (mu, Su, m_deltax, S_deltax, Sx_deltax))"

text \<open>
  The sum of two tensors of one shape, entry by entry; Theano raises ValueError when the
  shapes differ.
\<close>

definition elemwise_add_vec :: "(real \<Rightarrow> real \<Rightarrow> real) \<Rightarrow> vec \<Rightarrow> vec \<Rightarrow> exn + vec" where
  "elemwise_add_vec add x y =
     (if length x = length y then Inr (map2 add x y) else Inl ValueError)"

definition elemwise_add_mat :: "(real \<Rightarrow> real \<Rightarrow> real) \<Rightarrow> mat \<Rightarrow> mat \<Rightarrow> exn + mat" where
  "elemwise_add_mat add A B =
     (if map length A = map length B then Inr (map2 (map2 add) A B) else Inl ValueError)"

text \<open>
  \<open>propagate_state\<close>.  The action term of the cost uses \<open>T.constant\<close> when the cost has
  an \<open>R\<close>, and the module binds no name \<open>T\<close> (Theano's tensor module is imported as
  \<open>tt\<close>): with an \<open>R\<close> the method raises NameError while it builds its expressions.
  Without one the weight is a zero matrix.  The next mean is \<open>mx + m_deltax\<close> and the
  next covariance \<open>Sx + S_deltax + Sx_deltax + Sx_deltax.T\<close>, added from left to
  right.
\<close>

definition propagate_state ::
  "pddp_env \<Rightarrow> vec \<Rightarrow> mat \<Rightarrow> int \<Rightarrow> bool \<Rightarrow> exn + real \<times> real \<times> vec \<times> mat \<times> vec \<times> mat" where
  "propagate_state env mx Sx t open_loop =
     (let (mu, Su, m_deltax, S_deltax, Sx_deltax) = state_delta env mx Sx t open_loop;
          (mcost, Scost) = cost_fn env mx Sx
      in case cost_R env of
           Some R \<Rightarrow> Inl NameError
         | None \<Rightarrow>
             (case elemwise_add_vec (float_add env) mx m_deltax of
                Inl e \<Rightarrow> Inl e
              | Inr mx_next \<Rightarrow>
                  (case elemwise_add_mat (float_add env) Sx S_deltax of
                     Inl e \<Rightarrow> Inl e
                   | Inr S1 \<Rightarrow>
                       (case elemwise_add_mat (float_add env) S1 Sx_deltax of
                          Inl e \<Rightarrow> Inl e
                        | Inr S2 \<Rightarrow>
                            (case elemwise_add_mat (float_add env) S2 (transp Sx_deltax) of
                               Inl e \<Rightarrow> Inl e
                             | Inr Sx_next \<Rightarrow>
                                 (let R = zeros2 (length mu) (length mu);
                                      mcost = float_add env mcost (dot_vv (dot_vm mu R) mu)
                                  in Inr (mcost, Scost, mx_next, Sx_next, mu, Su)))))))"

subsection \<open>\<open>backward_pass\<close>\<close>

text \<open>
  The derivatives that \<open>backward_pass\<close> takes of one forward step at \<open>z_prev\<close>: the
  Jacobians \<open>Fu\<close>, \<open>Fx\<close> of the next state (rows indexed by the entries of \<open>z_next\<close>) and
  the gradient and second derivatives of the cost.  Differentiation is Theano's; the
  model takes its results as given by \<open>linearize\<close>.  \<open>solve_vec\<close> is \<open>solve\<close> of
  \<open>theano.tensor.slinalg\<close> with a vector on the right.
\<close>

record linearization =
  Fu :: mat
  Fx :: mat
  lu :: vec
  lx :: vec
  luu :: mat
  lux :: mat
  lxx :: mat

record backward_env =
  linearize :: "int \<Rightarrow> vec \<Rightarrow> linearization"
  solve_vec :: "mat \<Rightarrow> vec \<Rightarrow> exn + vec"

text \<open>
  \<open>theano.tensor.Lop(f, wrt, v)\<close>: the Jacobian of \<open>f\<close> with respect to \<open>wrt\<close>,
  multiplied from the left by \<open>v\<close>.
\<close>

definition Lop :: "mat \<Rightarrow> vec \<Rightarrow> vec" where
  "Lop J v = dot_vm v J"

text \<open>
  The five products that depend on the Jacobians, in the two modes.  With \<open>self.lop\<close>
  set, lines 135 to 137 take the two vector products through \<open>Lop\<close> and the Cholesky
  factor of \<open>Vxx\<close>, which raises when \<open>Vxx\<close> is not positive definite.  The two lines
  after them form no value: line 138 is not well-formed Python (a positional argument
  after a keyword argument, and an unmatched parenthesis), and line 139 hands \<open>Lop\<close> the
  matrix \<open>cholVxx\<close> where the vector \<open>z_next\<close> takes a vector, which Theano rejects.  So
  the branch raises there when it gets that far, and the products of lines 140 to 142
  are never formed; \<open>OtherError\<close> stands for that exception.
\<close>

definition jacobian_products ::
  "bool \<Rightarrow> linearization \<Rightarrow> vec \<Rightarrow> mat \<Rightarrow> exn + vec \<times> vec \<times> mat \<times> mat \<times> mat" where
  "jacobian_products lop d Vx Vxx =
     (if lop then
        (let VxdotFx = Lop (Fx d) Vx;
             VxdotFu = Lop (Fu d) Vx
         in case cholesky Vxx of
              Inl e \<Rightarrow> Inl e
            | Inr cholVxx \<Rightarrow> Inl OtherError)
      else
        (let VxdotFx = dot_vm Vx (Fx d);
             VxdotFu = dot_vm Vx (Fu d);
             FxVxxFx = dot_mm (dot_mm (transp (Fx d)) Vxx) (Fx d);
             FuVxxFx = dot_mm (dot_mm (transp (Fu d)) Vxx) (Fx d);
             FuVxxFu = dot_mm (dot_mm (transp (Fu d)) Vxx) (Fu d)
         in Inr (VxdotFx, VxdotFu, FxVxxFx, FuVxxFx, FuVxxFu)))"

text \<open>The action-value derivatives \<open>Qx\<close>, \<open>Qu\<close>, \<open>Qxx\<close>, \<open>Qux\<close>, \<open>Quu\<close>.\<close>

definition action_value ::
  "linearization \<Rightarrow> vec \<times> vec \<times> mat \<times> mat \<times> mat \<Rightarrow> vec \<times> vec \<times> mat \<times> mat \<times> mat" where
  "action_value d products =
     (let (VxdotFx, VxdotFu, FxVxxFx, FuVxxFx, FuVxxFu) = products;
          Qx = vadd (lx d) VxdotFx;
          Qu = vadd (lu d) VxdotFu;
          Qxx = madd (lxx d) FxVxxFx;
          Qux = madd (lux d) FuVxxFx;
          Quu = madd (madd (luu d) FuVxxFu) (mscale 0.01 (eye (nrows (luu d))))
      in (Qx, Qu, Qxx, Qux, Quu))"

definition backward_pass ::
  "backward_env \<Rightarrow> bool \<Rightarrow> int \<Rightarrow> vec \<Rightarrow> vec \<Rightarrow> vec \<Rightarrow> mat
     \<Rightarrow> exn + vec \<times> vec \<times> mat \<times> vec \<times> vec" where
  "backward_pass env lop t z_prev V Vx Vxx =
     (let d = linearize env (t - 1) z_prev
      in case jacobian_products lop d Vx Vxx of
           Inl e \<Rightarrow> Inl e
         | Inr products \<Rightarrow>
             (let (VxdotFx, VxdotFu, FxVxxFx, FuVxxFx, FuVxxFu) = products;
                  (Qx, Qu, Qxx, Qux, Quu) = action_value d products
              in case solve_vec env Quu Qu of
                   Inl e \<Rightarrow> Inl e
                 | Inr x \<Rightarrow>
                     (case solve_vec env Quu Qu of
                        Inl e \<Rightarrow> Inl e
                      | Inr y \<Rightarrow>
                          (let I = vneg x;
                               L = vneg y;
                               V = vadd_scalar V (dot_vv Qu I);
                               Vx = vadd_scalar Qx (dot_vv Qu L);
                               Vxx = madd_row Qxx (dot_mv (transp Qux) L)
                           in Inr (V, Vx, Vxx, VxdotFx, VxdotFu)))))"

text \<open>
  The backward scans of \<open>forward_backwards\<close>: \<open>backward_pass\<close> over the time steps
  \<open>H - 1, \<dots>, 0\<close> with the states \<open>z_nom[:H]\<close> of the trajectory (the nominal initial
  state followed by the states of the forward scan), started from the last cost and zero
  first and second derivatives, once with \<open>self.lop\<close> set and once without.  Each
  returns the outputs of all steps, in the order of the scan.
\<close>

fun backward_scan ::
  "backward_env \<Rightarrow> bool \<Rightarrow> (int \<times> vec) list \<Rightarrow> vec \<times> vec \<times> mat
     \<Rightarrow> exn + (vec \<times> vec \<times> mat \<times> vec \<times> vec) list" where
  "backward_scan env lop [] carry = Inr []"
| "backward_scan env lop ((t, z_prev) # steps) (V, Vx, Vxx) =
     (case backward_pass env lop t z_prev V Vx Vxx of
        Inl e \<Rightarrow> Inl e
      | Inr (V', Vx', Vxx', a, b) \<Rightarrow>
          (case backward_scan env lop steps (V', Vx', Vxx') of
             Inl e \<Rightarrow> Inl e
           | Inr outs \<Rightarrow> Inr ((V', Vx', Vxx', a, b) # outs)))"

definition backward_scans ::
  "backward_env \<Rightarrow> vec list \<Rightarrow> real
     \<Rightarrow> (exn + (vec \<times> vec \<times> mat \<times> vec \<times> vec) list) \<times> (exn + (vec \<times> vec \<times> mat \<times> vec \<times> vec) list)" where
  "backward_scans env z_nom last_cost =
     (let Hn = length z_nom;
          Z = (case z_nom of [] \<Rightarrow> 0 | z # _ \<Rightarrow> length z);
          steps = rev (zip (map int [0..<Hn]) z_nom);
          start = ([last_cost], zeros Z, zeros2 Z Z)
      in (backward_scan env True steps start, backward_scan env False steps start))"

subsection \<open>The backward recursion as the specification writes it\<close>

text \<open>
  The formulas of the specification, entry by entry, for a state encoding of \<open>Z\<close> entries
  and \<open>U\<close> controls: \<open>Qx = lx + Vx\<cdot>Fx\<close>, \<open>Qu = lu + Vx\<cdot>Fu\<close>,
  \<open>Qxx = lxx + Fx\<^sup>T\<cdot>Vxx\<cdot>Fx\<close>, \<open>Qux = lux + Fu\<^sup>T\<cdot>Vxx\<cdot>Fx\<close>,
  \<open>Quu = luu + Fu\<^sup>T\<cdot>Vxx\<cdot>Fu + 0.01\<cdot>I\<close>; then \<open>V += Qu\<cdot>I\<close>, \<open>Vx = Qx + Qu\<cdot>L\<close>,
  \<open>Vxx = Qxx + Qux\<^sup>T\<cdot>L\<close> with the vector \<open>L\<close>, where the scalar \<open>Qu\<cdot>L\<close> goes to every
  entry of \<open>Qx\<close> and the vector \<open>Qux\<^sup>T\<cdot>L\<close> to every row of \<open>Qxx\<close>.
\<close>

definition spec_left :: "nat \<Rightarrow> nat \<Rightarrow> vec \<Rightarrow> mat \<Rightarrow> vec" where
  "spec_left Z m v J = vec_of m (\<lambda>i. \<Sum>k\<leftarrow>[0..<Z]. v ! k * J ! k ! i)"

definition spec_sandwich :: "nat \<Rightarrow> nat \<Rightarrow> nat \<Rightarrow> mat \<Rightarrow> mat \<Rightarrow> mat \<Rightarrow> mat" where
  "spec_sandwich Z n m A M B =
     mat_of n m (\<lambda>i j. \<Sum>k\<leftarrow>[0..<Z]. \<Sum>l\<leftarrow>[0..<Z]. A ! k ! i * M ! k ! l * B ! l ! j)"

definition spec_Qx :: "nat \<Rightarrow> linearization \<Rightarrow> vec \<Rightarrow> vec" where
  "spec_Qx Z d Vx = vec_of Z (\<lambda>i. lx d ! i + spec_left Z Z Vx (Fx d) ! i)"

definition spec_Qu :: "nat \<Rightarrow> nat \<Rightarrow> linearization \<Rightarrow> vec \<Rightarrow> vec" where
  "spec_Qu Z U d Vx = vec_of U (\<lambda>i. lu d ! i + spec_left Z U Vx (Fu d) ! i)"

definition spec_Qxx :: "nat \<Rightarrow> linearization \<Rightarrow> mat \<Rightarrow> mat" where
  "spec_Qxx Z d Vxx =
     mat_of Z Z (\<lambda>i j. lxx d ! i ! j + spec_sandwich Z Z Z (Fx d) Vxx (Fx d) ! i ! j)"

definition spec_Qux :: "nat \<Rightarrow> nat \<Rightarrow> linearization \<Rightarrow> mat \<Rightarrow> mat" where
  "spec_Qux Z U d Vxx =
     mat_of U Z (\<lambda>i j. lux d ! i ! j + spec_sandwich Z U Z (Fu d) Vxx (Fx d) ! i ! j)"

definition spec_Quu :: "nat \<Rightarrow> nat \<Rightarrow> linearization \<Rightarrow> mat \<Rightarrow> mat" where
  "spec_Quu Z U d Vxx =
     mat_of U U (\<lambda>i j. luu d ! i ! j + spec_sandwich Z U U (Fu d) Vxx (Fu d) ! i ! j
                          + (if i = j then 1 / 100 else 0))"

definition spec_V :: "nat \<Rightarrow> vec \<Rightarrow> vec \<Rightarrow> vec \<Rightarrow> vec" where
  "spec_V U V Qu I = map (\<lambda>v. v + (\<Sum>k\<leftarrow>[0..<U]. Qu ! k * I ! k)) V"

definition spec_Vx :: "nat \<Rightarrow> nat \<Rightarrow> vec \<Rightarrow> vec \<Rightarrow> vec \<Rightarrow> vec" where
  "spec_Vx Z U Qx Qu L = vec_of Z (\<lambda>i. Qx ! i + (\<Sum>k\<leftarrow>[0..<U]. Qu ! k * L ! k))"

definition spec_Vxx :: "nat \<Rightarrow> nat \<Rightarrow> mat \<Rightarrow> mat \<Rightarrow> vec \<Rightarrow> mat" where
  "spec_Vxx Z U Qxx Qux L =
     mat_of Z Z (\<lambda>i j. Qxx ! i ! j + (\<Sum>k\<leftarrow>[0..<U]. Qux ! k ! j * L ! k))"

text \<open>The shapes of the derivatives of one step, for \<open>Z\<close> state entries and \<open>U\<close> controls.\<close>

definition well_shaped :: "nat \<Rightarrow> nat \<Rightarrow> linearization \<Rightarrow> bool" where
  "well_shaped Z U d \<longleftrightarrow>
     0 < Z \<and> 0 < U \<and> is_matrix Z U (Fu d) \<and> is_matrix Z Z (Fx d)
     \<and> length (lu d) = U \<and> length (lx d) = Z
     \<and> is_matrix U U (luu d) \<and> is_matrix U Z (lux d) \<and> is_matrix Z Z (lxx d)"

subsection \<open>Concrete propagation and backward steps\<close>

text \<open>
  A two-dimensional state without angles and one control: a dynamics model that reports
  the input-output covariance directly, with fixed answers, and a cost without \<open>R\<close>.
  In \<open>env_propagate\<close> the numbers are added exactly; in \<open>env_propagate_double\<close> they
  are doubles, and the dynamics model reports the identity as the covariance of the
  change and the cross-covariance \<open>[[0, 0.1], [0.4, 0]]\<close>.
\<close>

definition env_propagate :: pddp_env where
  "env_propagate =
     \<lparr>state_dim = 2, pddp_angle_idims = [],
      gTrig2 = (\<lambda>mx Sx idims D. (mx, Sx, None)),
      u_nominal = (\<lambda>t. [0]),
      policy_evaluate_sym = (\<lambda>m S t. ([0], [[0]], [[0], [0]])),
      logsn = [0, 0],
      predict_symbolic = (\<lambda>mxu Sxu. ([1, 1], [[1, 0], [0, 1]], [[1, 2], [3, 4], [0, 0]])),
      reports_input_output_cov = True,
      solve_mat = (\<lambda>A B. B),
      cost_fn = (\<lambda>m S. (0, 0)),
      cost_R = None,
      float_add = (+)\<rparr>"

definition env_propagate_double :: pddp_env where
  "env_propagate_double =
     env_propagate
       \<lparr>predict_symbolic :=
          (\<lambda>mxu Sxu. ([1, 1], [[1, 0], [0, 1]],
                       [[0, round_double (1 / 10)], [round_double (4 / 10), 0], [0, 0]])),
        float_add := double_add\<rparr>"

text \<open>
  One backward step with two state entries and one control: the derivatives of the
  step, and a solver for systems of one equation.
\<close>

definition lin1 :: linearization where
  "lin1 = \<lparr>Fu = [[1], [0]], Fx = [[1, 0], [0, 1]], lu = [1], lx = [0, 0], luu = [[1]],
           lux = [[0, 0]], lxx = [[0, 0], [0, 0]]\<rparr>"

definition solve1 :: "mat \<Rightarrow> vec \<Rightarrow> exn + vec" where
  "solve1 A b =
     (case (A, b) of
        ([[a]], [c]) \<Rightarrow> if a = 0 then Inl LinAlgError else Inr [c / a]
      | _ \<Rightarrow> Inl ValueError)"

definition env_backward :: backward_env where
  "env_backward = \<lparr>linearize = (\<lambda>t z. lin1), solve_vec = solve1\<rparr>"

subsection \<open>The rollout scenario of the specification\<close>

text \<open>
  A two-dimensional linear plant (position and velocity, driven by one control) with
  \<open>dt = 0.1\<close> and no completion signal, and a linear policy.  The plant object holds the
  state vector, the control last applied and the number of steps taken.  Its noise is
  zero: as a zero covariance matrix in \<open>env_linear\<close>, as \<open>None\<close> in \<open>env_linear_None\<close>.
  \<open>np.linalg.cholesky\<close> is the factorization of the PDDP section, which raises
  LinAlgError on a matrix that is not positive definite as NumPy's does.
\<close>

definition plant0 :: "vec \<times> vec \<times> nat" where
  "plant0 = ([1, 0], [0], 0)"

definition env_linear :: "(vec \<times> vec \<times> nat, int, unit) rollout_env" where
  "env_linear =
     \<lparr>plant_get_state = (\<lambda>(x, u, k). ((x, real k / 10), (x, u, k))),
      plant_apply_control = (\<lambda>u' (x, u, k). (x, u', k)),
      plant_step = (\<lambda>(x, u, k). ([x ! 0 + x ! 1 / 10, x ! 1 + u ! 0 / 10], u, Suc k)),
      plant_start = (\<lambda>pl. pl),
      plant_stop = (\<lambda>pl. pl),
      plant_done = (\<lambda>pl. False),
      plant_noise = (\<lambda>pl. Some [[0, 0], [0, 0]]),
      plant_dt = (\<lambda>pl. round_double (1 / 10)),
      np_cholesky = cholesky,
      randn = (\<lambda>k g. (replicate k 0, g)),
      gTrig_np = (\<lambda>x idims. x),
      policy_evaluate = (\<lambda>p x. [real_of_int p * x ! 0]),
      rand_policy_evaluate = (\<lambda>x g. ([0], g))\<rparr>"

definition env_linear_None :: "(vec \<times> vec \<times> nat, int, unit) rollout_env" where
  "env_linear_None = env_linear\<lparr>plant_noise := (\<lambda>pl. None)\<rparr>"

section \<open>Evaluating doubles\<close>

lemma scale_to_numeral:
  "scale_to (numeral k) y e =
     (if 2 ^ 53 \<le> \<bar>y\<bar> then scale_to (pred_numeral k) (y / 2) (e + 1)
      else if \<bar>y\<bar> < 2 ^ 52 then scale_to (pred_numeral k) (y * 2) (e - 1)
      else (y, e))"
  by (simp add: numeral_eq_Suc)

lemmas double_eval =
  round_double_def scale_to_numeral round_half_even_def pow2_def Let_def double_add_def
  double_div_def

lemma double_tenth: "round_double (1 / 10) = 3602879701896397 / 36028797018963968"
  by (simp add: double_eval)

lemma double_tenth_pos: "round_double (1 / 10) \<noteq> 0"
  by (simp add: double_tenth)

lemma ten_steps: "nat \<lceil>double_div 1 (round_double (1 / 10))\<rceil> = 10"
  by (simp add: double_tenth) (simp add: double_eval)

lemma one_step: "nat \<lceil>double_div (1 / 10) (round_double (1 / 10))\<rceil> = 1"
  by (simp add: double_tenth) (simp add: double_eval)


section \<open>Properties of \<open>train_policy\<close>\<close>

lemma min_methods_of_eq:
  "m \<in> set DETERMINISTIC_MIN_METHODS \<Longrightarrow>
   min_methods_of m = m # filter (\<lambda>d. d \<noteq> m) DETERMINISTIC_MIN_METHODS"
  unfolding min_methods_of_def DETERMINISTIC_MIN_METHODS_def
  by (elim disjE | simp)+

lemma used_optimizers_append:
  "used_optimizers (xs @ ys) = used_optimizers xs @ used_optimizers ys"
  by (induction xs rule: used_optimizers.induct) simp_all

lemma best_after_Cons:
  "best_after env sh (x # qs) b =
     best_after env sh qs
       (if value env (unwrap_params env x sh) < fst b
        then (value env (unwrap_params env x sh), unwrap_params env x sh) else b)"
  by (simp add: best_after_def Let_def)

lemma loss_best:
  assumes "best_p s = Some b"
  shows "\<exists>s'. loss env sh x s = Inr s'
           \<and> best_p s' = Some (if value env (unwrap_params env x sh) < fst b
                                then (value env (unwrap_params env x sh), unwrap_params env x sh)
                                else b)
           \<and> used_optimizers (out s') = used_optimizers (out s)
           \<and> conv_thr s' = conv_thr s \<and> max_evals s' = max_evals s"
  using assms
  by (simp add: loss_def Let_def print_with_stamp_def used_optimizers_append)

lemma run_losses_best:
  assumes "best_p s = Some b"
  shows "\<exists>s'. run_losses env sh qs s = Inr s'
           \<and> best_p s' = Some (best_after env sh qs b)
           \<and> used_optimizers (out s') = used_optimizers (out s)
           \<and> conv_thr s' = conv_thr s \<and> max_evals s' = max_evals s"
  using assms
proof (induction qs arbitrary: s b)
  case Nil
  then show ?case by (simp add: best_after_def)
next
  case (Cons x qs)
  let ?b = "if value env (unwrap_params env x sh) < fst b
            then (value env (unwrap_params env x sh), unwrap_params env x sh) else b"
  from loss_best[OF Cons.prems, of env sh x] obtain s1 where
    s1: "loss env sh x s = Inr s1" "best_p s1 = Some ?b"
        "used_optimizers (out s1) = used_optimizers (out s)"
        "conv_thr s1 = conv_thr s" "max_evals s1 = max_evals s"
    by (elim exE conjE)
  from Cons.IH[OF s1(2)] obtain s2 where
    s2: "run_losses env sh qs s1 = Inr s2" "best_p s2 = Some (best_after env sh qs ?b)"
        "used_optimizers (out s2) = used_optimizers (out s1)"
        "conv_thr s2 = conv_thr s1" "max_evals s2 = max_evals s1"
    by (elim exE conjE)
  show ?case
    using s1 s2 by (intro exI[of _ s2]) (simp add: best_after_Cons)
qed

lemma restart_Cons:
  "restart env sh tol n (m # ms) (p, b) (Suc i) =
     restart env sh tol n ms
       (snd (best_after env sh (fst (minimize env m (wrap_params env p) tol n)) b),
        best_after env sh (fst (minimize env m (wrap_params env p) tol n)) b) i"
  by (induction i) (simp_all add: Let_def)

lemma attempt_Cons_0:
  "attempt env sh tol n (m # ms) (p, b) 0 = snd (minimize env m (wrap_params env p) tol n)"
  by (simp add: attempt_def)

lemma attempt_Cons_Suc:
  "attempt env sh tol n (m # ms) (p, b) (Suc i) =
     attempt env sh tol n ms
       (snd (best_after env sh (fst (minimize env m (wrap_params env p) tol n)) b),
        best_after env sh (fst (minimize env m (wrap_params env p) tol n)) b) i"
  unfolding attempt_def restart_Cons by simp

text \<open>One pass through the loop over the methods.\<close>

lemma try_methods_step:
  assumes b: "best_p s = Some b" and tol: "conv_thr s = tol" and n: "max_evals s = n"
  shows "\<exists>s2. best_p s2 = Some (best_after env sh (fst (minimize env m (wrap_params env p0) tol n)) b)
           \<and> used_optimizers (out s2) = used_optimizers (out s) @ [m]
           \<and> conv_thr s2 = tol \<and> max_evals s2 = n
           \<and> try_methods env sh (m # ms) p0 s =
               (case attempt env sh tol n (m # ms) (p0, b) 0 of
                  Inr x \<Rightarrow> Inr (s2\<lparr>policy_params := unwrap_params env x sh\<rparr>)
                | Inl e \<Rightarrow>
                    if e = ValueError then
                      try_methods env sh ms
                        (snd (best_after env sh (fst (minimize env m (wrap_params env p0) tol n)) b))
                        ((print_with_stamp (Optimization_failed m) s2)
                           \<lparr>policy_params :=
                              snd (best_after env sh (fst (minimize env m (wrap_params env p0) tol n)) b)\<rparr>)
                    else Inl e)"
proof -
  let ?s1 = "print_with_stamp (Using_optimizer m) s"
  obtain qs res where mm: "minimize env m (wrap_params env p0) tol n = (qs, res)"
    by (cases "minimize env m (wrap_params env p0) tol n")
  have b1: "best_p ?s1 = Some b" using b by (simp add: print_with_stamp_def)
  from run_losses_best[OF b1, of env sh qs] obtain s2 where
    s2: "run_losses env sh qs ?s1 = Inr s2" "best_p s2 = Some (best_after env sh qs b)"
        "used_optimizers (out s2) = used_optimizers (out ?s1)"
        "conv_thr s2 = conv_thr ?s1" "max_evals s2 = max_evals ?s1"
    by (elim exE conjE)
  have u: "used_optimizers (out s2) = used_optimizers (out s) @ [m]"
    using s2(3) by (simp add: print_with_stamp_def used_optimizers_append)
  have k: "conv_thr s2 = tol" "max_evals s2 = n"
    using s2(4,5) tol n by (simp_all add: print_with_stamp_def)
  have mm1: "minimize env m (wrap_params env p0) (conv_thr ?s1) (max_evals ?s1) = (qs, res)"
    using mm tol n by (simp add: print_with_stamp_def)
  have b3: "best_p (print_with_stamp (Optimization_failed m) s2) = Some (best_after env sh qs b)"
    using s2(2) by (simp add: print_with_stamp_def)
  have run: "try_methods env sh (m # ms) p0 s =
               (case res of
                  Inr x \<Rightarrow> Inr (s2\<lparr>policy_params := unwrap_params env x sh\<rparr>)
                | Inl e \<Rightarrow>
                    if e = ValueError then
                      try_methods env sh ms (snd (best_after env sh qs b))
                        ((print_with_stamp (Optimization_failed m) s2)
                           \<lparr>policy_params := snd (best_after env sh qs b)\<rparr>)
                    else Inl e)"
    using mm1 s2(1) b3
    by (cases "best_after env sh qs b") (simp add: Let_def split: sum.splits)
  have fs: "fst (minimize env m (wrap_params env p0) tol n) = qs"
    "attempt env sh tol n (m # ms) (p0, b) 0 = res"
    using mm by (simp_all add: attempt_Cons_0)
  show ?thesis
    unfolding fs by (intro exI[of _ s2] conjI s2(2) u k run)
qed

lemma try_methods_success:
  assumes "best_p s = Some b" and "conv_thr s = tol" and "max_evals s = n"
    and "k < length ms"
    and "\<forall>i<k. attempt env sh tol n ms (p0, b) i = Inl ValueError"
    and "attempt env sh tol n ms (p0, b) k = Inr x"
  shows "\<exists>s'. try_methods env sh ms p0 s = Inr s'
           \<and> used_optimizers (out s') = used_optimizers (out s) @ take (Suc k) ms
           \<and> policy_params s' = unwrap_params env x sh
           \<and> best_p s' = Some (snd (restart env sh tol n ms (p0, b) (Suc k)))"
  using assms
proof (induction ms arbitrary: k p0 b s)
  case Nil
  then show ?case by simp
next
  case (Cons m ms)
  let ?B = "best_after env sh (fst (minimize env m (wrap_params env p0) tol n)) b"
  from try_methods_step[OF Cons.prems(1,2,3), of env sh m p0 ms] obtain s2 where
    s2: "best_p s2 = Some ?B" "used_optimizers (out s2) = used_optimizers (out s) @ [m]"
        "conv_thr s2 = tol" "max_evals s2 = n"
    and run: "try_methods env sh (m # ms) p0 s =
               (case attempt env sh tol n (m # ms) (p0, b) 0 of
                  Inr x \<Rightarrow> Inr (s2\<lparr>policy_params := unwrap_params env x sh\<rparr>)
                | Inl e \<Rightarrow>
                    if e = ValueError then
                      try_methods env sh ms (snd ?B)
                        ((print_with_stamp (Optimization_failed m) s2)\<lparr>policy_params := snd ?B\<rparr>)
                    else Inl e)"
    by (elim exE conjE)
  show ?case
  proof (cases k)
    case 0
    have r0: "snd (restart env sh tol n (m # ms) (p0, b) (Suc 0)) = ?B"
      by (simp add: Let_def)
    have "try_methods env sh (m # ms) p0 s = Inr (s2\<lparr>policy_params := unwrap_params env x sh\<rparr>)"
      using run Cons.prems(6) 0 by simp
    then show ?thesis
      using s2(1,2) 0 r0
      by (intro exI[of _ "s2\<lparr>policy_params := unwrap_params env x sh\<rparr>"]) simp
  next
    case (Suc j)
    let ?s4 = "(print_with_stamp (Optimization_failed m) s2)\<lparr>policy_params := snd ?B\<rparr>"
    have f0: "attempt env sh tol n (m # ms) (p0, b) 0 = Inl ValueError"
      using Cons.prems(5) Suc by simp
    have step: "try_methods env sh (m # ms) p0 s = try_methods env sh ms (snd ?B) ?s4"
      using run f0 by simp
    have b4: "best_p ?s4 = Some ?B" "conv_thr ?s4 = tol" "max_evals ?s4 = n"
      using s2 by (simp_all add: print_with_stamp_def)
    have j: "j < length ms" using Cons.prems(4) Suc by simp
    have fl: "\<forall>i<j. attempt env sh tol n ms (snd ?B, ?B) i = Inl ValueError"
    proof (intro allI impI)
      fix i assume "i < j"
      then have "Suc i < k" using Suc by simp
      then have "attempt env sh tol n (m # ms) (p0, b) (Suc i) = Inl ValueError"
        using Cons.prems(5) by blast
      then show "attempt env sh tol n ms (snd ?B, ?B) i = Inl ValueError"
        by (simp add: attempt_Cons_Suc)
    qed
    have rt: "attempt env sh tol n ms (snd ?B, ?B) j = Inr x"
      using Cons.prems(6) Suc by (simp add: attempt_Cons_Suc)
    from Cons.IH[OF b4 j fl rt] obtain s' where
      s': "try_methods env sh ms (snd ?B) ?s4 = Inr s'"
          "used_optimizers (out s') = used_optimizers (out ?s4) @ take (Suc j) ms"
          "policy_params s' = unwrap_params env x sh"
          "best_p s' = Some (snd (restart env sh tol n ms (snd ?B, ?B) (Suc j)))"
      by (elim exE conjE)
    have u4: "used_optimizers (out ?s4) = used_optimizers (out s) @ [m]"
      using s2(2) by (simp add: print_with_stamp_def used_optimizers_append)
    have rs: "restart env sh tol n (m # ms) (p0, b) (Suc k)
                = restart env sh tol n ms (snd ?B, ?B) (Suc j)"
      unfolding Suc by (rule restart_Cons)
    show ?thesis
      using step s' u4 rs Suc by (intro exI[of _ s']) simp
  qed
qed

lemma try_methods_other_exception:
  assumes "best_p s = Some b" and "conv_thr s = tol" and "max_evals s = n"
    and "k < length ms"
    and "\<forall>i<k. attempt env sh tol n ms (p0, b) i = Inl ValueError"
    and "attempt env sh tol n ms (p0, b) k = Inl e" and "e \<noteq> ValueError"
  shows "try_methods env sh ms p0 s = Inl e"
  using assms
proof (induction ms arbitrary: k p0 b s)
  case Nil
  then show ?case by simp
next
  case (Cons m ms)
  let ?B = "best_after env sh (fst (minimize env m (wrap_params env p0) tol n)) b"
  from try_methods_step[OF Cons.prems(1,2,3), of env sh m p0 ms] obtain s2 where
    s2: "best_p s2 = Some ?B" "used_optimizers (out s2) = used_optimizers (out s) @ [m]"
        "conv_thr s2 = tol" "max_evals s2 = n"
    and run: "try_methods env sh (m # ms) p0 s =
               (case attempt env sh tol n (m # ms) (p0, b) 0 of
                  Inr x \<Rightarrow> Inr (s2\<lparr>policy_params := unwrap_params env x sh\<rparr>)
                | Inl e \<Rightarrow>
                    if e = ValueError then
                      try_methods env sh ms (snd ?B)
                        ((print_with_stamp (Optimization_failed m) s2)\<lparr>policy_params := snd ?B\<rparr>)
                    else Inl e)"
    by (elim exE conjE)
  show ?case
  proof (cases k)
    case 0
    then show ?thesis using run Cons.prems(6,7) by simp
  next
    case (Suc j)
    let ?s4 = "(print_with_stamp (Optimization_failed m) s2)\<lparr>policy_params := snd ?B\<rparr>"
    have f0: "attempt env sh tol n (m # ms) (p0, b) 0 = Inl ValueError"
      using Cons.prems(5) Suc by simp
    have step: "try_methods env sh (m # ms) p0 s = try_methods env sh ms (snd ?B) ?s4"
      using run f0 by simp
    have b4: "best_p ?s4 = Some ?B" "conv_thr ?s4 = tol" "max_evals ?s4 = n"
      using s2 by (simp_all add: print_with_stamp_def)
    have j: "j < length ms" using Cons.prems(4) Suc by simp
    have fl: "\<forall>i<j. attempt env sh tol n ms (snd ?B, ?B) i = Inl ValueError"
    proof (intro allI impI)
      fix i assume "i < j"
      then have "Suc i < k" using Suc by simp
      then have "attempt env sh tol n (m # ms) (p0, b) (Suc i) = Inl ValueError"
        using Cons.prems(5) by blast
      then show "attempt env sh tol n ms (snd ?B, ?B) i = Inl ValueError"
        by (simp add: attempt_Cons_Suc)
    qed
    have rt: "attempt env sh tol n ms (snd ?B, ?B) j = Inl e"
      using Cons.prems(6) Suc by (simp add: attempt_Cons_Suc)
    from Cons.IH[OF b4 j fl rt Cons.prems(7)] step show ?thesis by simp
  qed
qed

lemma try_methods_exhausted:
  assumes "best_p s = Some b" and "conv_thr s = tol" and "max_evals s = n"
    and "policy_params s = p0"
    and "\<forall>i<length ms. attempt env sh tol n ms (p0, b) i = Inl ValueError"
  shows "\<exists>s'. try_methods env sh ms p0 s = Inr s'
           \<and> used_optimizers (out s') = used_optimizers (out s) @ ms
           \<and> policy_params s' = fst (restart env sh tol n ms (p0, b) (length ms))
           \<and> best_p s' = Some (snd (restart env sh tol n ms (p0, b) (length ms)))"
  using assms
proof (induction ms arbitrary: p0 b s)
  case Nil
  then show ?case by simp
next
  case (Cons m ms)
  let ?B = "best_after env sh (fst (minimize env m (wrap_params env p0) tol n)) b"
  from try_methods_step[OF Cons.prems(1,2,3), of env sh m p0 ms] obtain s2 where
    s2: "best_p s2 = Some ?B" "used_optimizers (out s2) = used_optimizers (out s) @ [m]"
        "conv_thr s2 = tol" "max_evals s2 = n"
    and run: "try_methods env sh (m # ms) p0 s =
               (case attempt env sh tol n (m # ms) (p0, b) 0 of
                  Inr x \<Rightarrow> Inr (s2\<lparr>policy_params := unwrap_params env x sh\<rparr>)
                | Inl e \<Rightarrow>
                    if e = ValueError then
                      try_methods env sh ms (snd ?B)
                        ((print_with_stamp (Optimization_failed m) s2)\<lparr>policy_params := snd ?B\<rparr>)
                    else Inl e)"
    by (elim exE conjE)
  let ?s4 = "(print_with_stamp (Optimization_failed m) s2)\<lparr>policy_params := snd ?B\<rparr>"
  have f0: "attempt env sh tol n (m # ms) (p0, b) 0 = Inl ValueError"
    using Cons.prems(5) by simp
  have step: "try_methods env sh (m # ms) p0 s = try_methods env sh ms (snd ?B) ?s4"
    using run f0 by simp
  have b4: "best_p ?s4 = Some ?B" "conv_thr ?s4 = tol" "max_evals ?s4 = n"
    "policy_params ?s4 = snd ?B"
    using s2 by (simp_all add: print_with_stamp_def)
  have fl: "\<forall>i<length ms. attempt env sh tol n ms (snd ?B, ?B) i = Inl ValueError"
  proof (intro allI impI)
    fix i assume "i < length ms"
    then have "Suc i < length (m # ms)" by simp
    then have "attempt env sh tol n (m # ms) (p0, b) (Suc i) = Inl ValueError"
      using Cons.prems(5) by blast
    then show "attempt env sh tol n ms (snd ?B, ?B) i = Inl ValueError"
      by (simp add: attempt_Cons_Suc)
  qed
  from Cons.IH[OF b4 fl] obtain s' where
    s': "try_methods env sh ms (snd ?B) ?s4 = Inr s'"
        "used_optimizers (out s') = used_optimizers (out ?s4) @ ms"
        "policy_params s' = fst (restart env sh tol n ms (snd ?B, ?B) (length ms))"
        "best_p s' = Some (snd (restart env sh tol n ms (snd ?B, ?B) (length ms)))"
    by (elim exE conjE)
  have u4: "used_optimizers (out ?s4) = used_optimizers (out s) @ [m]"
    using s2(2) by (simp add: print_with_stamp_def used_optimizers_append)
  have rs: "restart env sh tol n (m # ms) (p0, b) (length (m # ms))
              = restart env sh tol n ms (snd ?B, ?B) (length ms)"
    using restart_Cons[of env sh tol n m ms p0 b "length ms"] by simp
  show ?case
    using step s' u4 rs by (intro exI[of _ s']) simp
qed

lemma upper_cg: "upper ''cg'' = ''CG''"
  by code_simp

lemma train_policy_deterministic:
  assumes det: "upper (min_method s) \<in> set DETERMINISTIC_MIN_METHODS"
  shows "train_policy env H_arg s =
     (let s0 = (case H_arg of None \<Rightarrow> s | Some h \<Rightarrow> s\<lparr>H := h\<rparr>);
          s1 = print_with_stamp (Initial_value_estimate (value env (policy_params s)))
                 (print_with_stamp (Training_policy_parameters (learning_iteration s + 1))
                    (s0\<lparr>learning_iteration := learning_iteration s + 1, n_evals := 0\<rparr>));
          s2 = s1\<lparr>best_p := Some (value env (policy_params s), policy_params s)\<rparr>
      in case try_methods env (shapes env (policy_params s))
                (min_methods_of (upper (min_method s))) (policy_params s) s2 of
           Inl e \<Rightarrow> Inl e
         | Inr s3 \<Rightarrow>
             Inr (print_with_stamp (Done_training (value env (policy_params s3)))
                    (print_with_stamp Blank_line s3)\<lparr>state_changed := True\<rparr>))"
  using det
  by (cases H_arg)
     (simp_all add: train_policy_def Let_def print_with_stamp_def split: sum.splits)

text \<open>
  C1, as the code has it.  With a deterministic method configured, the methods tried are
  the configured one followed by the rest of L-BFGS-B, TNC, BFGS, SLSQP, CG in that order.
  Attempt 0 starts from the current parameters; after an attempt that raised ValueError
  the best-known parameters are installed and the next attempt starts from them.  When
  the attempts before attempt \<open>k\<close> raise ValueError and attempt \<open>k\<close> returns \<open>x\<close>,
  \<open>train_policy\<close> returns normally, exactly those \<open>k + 1\<close> methods were announced,
  \<open>x\<close> is installed and the best-known pair is the one that attempt left.  When
  attempt \<open>k\<close> raises another exception, \<open>train_policy\<close> raises it and tries no further
  method.  When every attempt raises ValueError, no error is raised: \<open>train_policy\<close>
  returns normally after announcing every method, with the best-known parameters
  installed.
\<close>

theorem train_policy_fallback:
  assumes det: "upper (min_method s) \<in> set DETERMINISTIC_MIN_METHODS"
  shows "(let M = upper (min_method s);
              ms = min_methods_of M;
              p0 = policy_params s;
              sh = shapes env p0;
              start = (p0, (value env p0, p0));
              outcome = attempt env sh (conv_thr s) (max_evals s) ms start;
              before = restart env sh (conv_thr s) (max_evals s) ms start
          in ms = M # filter (\<lambda>d. d \<noteq> M) DETERMINISTIC_MIN_METHODS
           \<and> (\<forall>k<length ms. \<forall>x.
                 (\<forall>i<k. outcome i = Inl ValueError) \<and> outcome k = Inr x \<longrightarrow>
                 (\<exists>s'. train_policy env H_arg s = Inr s'
                      \<and> used_optimizers (out s') = used_optimizers (out s) @ take (Suc k) ms
                      \<and> policy_params s' = unwrap_params env x sh
                      \<and> best_p s' = Some (snd (before (Suc k)))
                      \<and> state_changed s'))
           \<and> (\<forall>k<length ms. \<forall>e.
                 (\<forall>i<k. outcome i = Inl ValueError) \<and> outcome k = Inl e \<and> e \<noteq> ValueError \<longrightarrow>
                 train_policy env H_arg s = Inl e)
           \<and> ((\<forall>i<length ms. outcome i = Inl ValueError) \<longrightarrow>
                 (\<exists>s'. train_policy env H_arg s = Inr s'
                      \<and> used_optimizers (out s') = used_optimizers (out s) @ ms
                      \<and> policy_params s' = fst (before (length ms))
                      \<and> best_p s' = Some (snd (before (length ms)))
                      \<and> state_changed s')))"
proof -
  let ?M = "upper (min_method s)"
  let ?ms = "min_methods_of ?M"
  let ?p0 = "policy_params s"
  let ?v0 = "value env ?p0"
  let ?sh = "shapes env ?p0"
  let ?tol = "conv_thr s" and ?n = "max_evals s"
  let ?outcome = "attempt env ?sh ?tol ?n ?ms (?p0, (?v0, ?p0))"
  let ?before = "restart env ?sh ?tol ?n ?ms (?p0, (?v0, ?p0))"
  let ?s0 = "(case H_arg of None \<Rightarrow> s | Some h \<Rightarrow> s\<lparr>H := h\<rparr>)"
  let ?s1 = "print_with_stamp (Initial_value_estimate ?v0)
               (print_with_stamp (Training_policy_parameters (learning_iteration s + 1))
                  (?s0\<lparr>learning_iteration := learning_iteration s + 1, n_evals := 0\<rparr>))"
  let ?s2 = "?s1\<lparr>best_p := Some (?v0, ?p0)\<rparr>"
  let ?done = "\<lambda>s3. print_with_stamp (Done_training (value env (policy_params s3)))
                       (print_with_stamp Blank_line s3)\<lparr>state_changed := True\<rparr>"
  have tp: "train_policy env H_arg s =
     (case try_methods env ?sh ?ms ?p0 ?s2 of Inl e \<Rightarrow> Inl e | Inr s3 \<Rightarrow> Inr (?done s3))"
    using train_policy_deterministic[OF det, of env H_arg] by (simp add: Let_def)
  have b2: "best_p ?s2 = Some (?v0, ?p0)" by simp
  have keep: "used_optimizers (out ?s2) = used_optimizers (out s)"
    "conv_thr ?s2 = ?tol" "max_evals ?s2 = ?n" "policy_params ?s2 = ?p0"
    by (cases H_arg; simp add: print_with_stamp_def used_optimizers_append)+
  have fin: "used_optimizers (out (?done s3)) = used_optimizers (out s3)"
    "policy_params (?done s3) = policy_params s3" "best_p (?done s3) = best_p s3"
    "state_changed (?done s3)" for s3
    by (simp_all add: print_with_stamp_def used_optimizers_append)
  have order: "?ms = ?M # filter (\<lambda>d. d \<noteq> ?M) DETERMINISTIC_MIN_METHODS"
    using det by (rule min_methods_of_eq)
  have success: "\<forall>k<length ?ms. \<forall>x.
        (\<forall>i<k. ?outcome i = Inl ValueError) \<and> ?outcome k = Inr x \<longrightarrow>
        (\<exists>s'. train_policy env H_arg s = Inr s'
        \<and> used_optimizers (out s') = used_optimizers (out s) @ take (Suc k) ?ms
        \<and> policy_params s' = unwrap_params env x ?sh
        \<and> best_p s' = Some (snd (?before (Suc k)))
        \<and> state_changed s')"
  proof (intro allI impI)
    fix k x
    assume k: "k < length ?ms"
      and h: "(\<forall>i<k. ?outcome i = Inl ValueError) \<and> ?outcome k = Inr x"
    from h have fl: "\<forall>i<k. ?outcome i = Inl ValueError" and rt: "?outcome k = Inr x"
      by (rule conjunct1, rule conjunct2)
    from try_methods_success[OF b2 keep(2,3) k fl rt] obtain s3 where
      r: "try_methods env ?sh ?ms ?p0 ?s2 = Inr s3"
         "used_optimizers (out s3) = used_optimizers (out ?s2) @ take (Suc k) ?ms"
         "policy_params s3 = unwrap_params env x ?sh"
         "best_p s3 = Some (snd (?before (Suc k)))"
      by (elim exE conjE)
    have "train_policy env H_arg s = Inr (?done s3)" using tp r(1) by simp
    then show "\<exists>s'. train_policy env H_arg s = Inr s'
        \<and> used_optimizers (out s') = used_optimizers (out s) @ take (Suc k) ?ms
        \<and> policy_params s' = unwrap_params env x ?sh
        \<and> best_p s' = Some (snd (?before (Suc k)))
        \<and> state_changed s'"
      using r(2,3,4) keep(1) fin[of s3] by (intro exI[of _ "?done s3"]) simp
  qed
  have other: "\<forall>k<length ?ms. \<forall>e.
        (\<forall>i<k. ?outcome i = Inl ValueError) \<and> ?outcome k = Inl e \<and> e \<noteq> ValueError \<longrightarrow>
        train_policy env H_arg s = Inl e"
  proof (intro allI impI)
    fix k e
    assume k: "k < length ?ms"
      and h: "(\<forall>i<k. ?outcome i = Inl ValueError) \<and> ?outcome k = Inl e \<and> e \<noteq> ValueError"
    from h have fl: "\<forall>i<k. ?outcome i = Inl ValueError" and rt: "?outcome k = Inl e"
      and ne: "e \<noteq> ValueError"
      by simp_all
    from try_methods_other_exception[OF b2 keep(2,3) k fl rt ne] tp
    show "train_policy env H_arg s = Inl e" by simp
  qed
  have exhausted: "(\<forall>i<length ?ms. ?outcome i = Inl ValueError) \<longrightarrow>
        (\<exists>s'. train_policy env H_arg s = Inr s'
        \<and> used_optimizers (out s') = used_optimizers (out s) @ ?ms
        \<and> policy_params s' = fst (?before (length ?ms))
        \<and> best_p s' = Some (snd (?before (length ?ms)))
        \<and> state_changed s')"
  proof (intro impI)
    assume fl: "\<forall>i<length ?ms. ?outcome i = Inl ValueError"
    from try_methods_exhausted[OF b2 keep(2,3,4) fl] obtain s3 where
      r: "try_methods env ?sh ?ms ?p0 ?s2 = Inr s3"
         "used_optimizers (out s3) = used_optimizers (out ?s2) @ ?ms"
         "policy_params s3 = fst (?before (length ?ms))"
         "best_p s3 = Some (snd (?before (length ?ms)))"
      by (elim exE conjE)
    have "train_policy env H_arg s = Inr (?done s3)" using tp r(1) by simp
    then show "\<exists>s'. train_policy env H_arg s = Inr s'
        \<and> used_optimizers (out s') = used_optimizers (out s) @ ?ms
        \<and> policy_params s' = fst (?before (length ?ms))
        \<and> best_p s' = Some (snd (?before (length ?ms)))
        \<and> state_changed s'"
      using r(2,3,4) keep(1) fin[of s3] by (intro exI[of _ "?done s3"]) simp
  qed
  show ?thesis
    unfolding Let_def
    by (intro conjI order success other exhausted)
qed

lemma min_methods_of_cg:
  "min_methods_of ''CG'' = [''CG'', ''L-BFGS-B'', ''TNC'', ''BFGS'', ''SLSQP'']"
  by (simp add: min_methods_of_def DETERMINISTIC_MIN_METHODS_def)

lemma learner0_det: "upper (min_method learner0) \<in> set DETERMINISTIC_MIN_METHODS"
  by (simp add: learner0_def upper_cg DETERMINISTIC_MIN_METHODS_def)

lemma restart_numeral:
  "restart env sh tol n ms pb (numeral k) =
     (let (p, b) = restart env sh tol n ms pb (pred_numeral k);
          b' = best_after env sh (fst (minimize env (ms ! pred_numeral k) (wrap_params env p) tol n)) b
      in (snd b', b'))"
  by (simp add: numeral_eq_Suc)

lemmas fallback_eval =
  attempt_def restart_numeral best_after_def Let_def min_methods_of_cg env_base_def

lemma learner0_start:
  "upper (min_method learner0) = ''CG''" "policy_params learner0 = 0"
  "conv_thr learner0 = 0" "max_evals learner0 = 2" "used_optimizers (out learner0) = []"
  by (simp_all add: learner0_def upper_cg)

lemma below_five:
  assumes "P 0" "P 1" "P 2" "P 3" "P 4"
  shows "\<forall>i<5. P (i::nat)"
proof (intro allI impI)
  fix i :: nat assume "i < 5"
  then have "i = 0 \<or> i = 1 \<or> i = 2 \<or> i = 3 \<or> i = 4" by arith
  then show "P i" using assms by (elim disjE) simp_all
qed

lemma cg_fails_once_attempts:
  "attempt env_cg_fails_once (shapes env_cg_fails_once 0) 0 2 (min_methods_of ''CG'')
     (0, (value env_cg_fails_once 0, 0)) 0 = Inl ValueError"
  "attempt env_cg_fails_once (shapes env_cg_fails_once 0) 0 2 (min_methods_of ''CG'')
     (0, (value env_cg_fails_once 0, 0)) 1 = Inr 3"
  "restart env_cg_fails_once (shapes env_cg_fails_once 0) 0 2 (min_methods_of ''CG'')
     (0, (value env_cg_fails_once 0, 0)) (Suc 1) = (2, (3, 2))"
  by (simp_all add: fallback_eval env_cg_fails_once_def)

lemma cg_divides_attempt:
  "attempt env_cg_divides (shapes env_cg_divides 0) 0 2 (min_methods_of ''CG'')
     (0, (value env_cg_divides 0, 0)) 0 = Inl ZeroDivisionError"
  by (simp add: fallback_eval env_cg_divides_def)

lemma all_fail_attempts:
  "attempt env_all_fail (shapes env_all_fail 0) 0 2 (min_methods_of ''CG'')
     (0, (value env_all_fail 0, 0)) 0 = Inl ValueError"
  "attempt env_all_fail (shapes env_all_fail 0) 0 2 (min_methods_of ''CG'')
     (0, (value env_all_fail 0, 0)) 1 = Inl ValueError"
  "attempt env_all_fail (shapes env_all_fail 0) 0 2 (min_methods_of ''CG'')
     (0, (value env_all_fail 0, 0)) 2 = Inl ValueError"
  "attempt env_all_fail (shapes env_all_fail 0) 0 2 (min_methods_of ''CG'')
     (0, (value env_all_fail 0, 0)) 3 = Inl ValueError"
  "attempt env_all_fail (shapes env_all_fail 0) 0 2 (min_methods_of ''CG'')
     (0, (value env_all_fail 0, 0)) 4 = Inl ValueError"
  "restart env_all_fail (shapes env_all_fail 0) 0 2 (min_methods_of ''CG'')
     (0, (value env_all_fail 0, 0)) 5 = (5, (0, 5))"
  by (simp_all add: fallback_eval env_all_fail_def)

theorem train_policy_fallback_witness:
  "upper (min_method learner0) \<in> set DETERMINISTIC_MIN_METHODS
   \<and> attempt env_cg_fails_once () 0 2 (min_methods_of ''CG'') (0, (5, 0)) 0 = Inl ValueError
   \<and> attempt env_cg_fails_once () 0 2 (min_methods_of ''CG'') (0, (5, 0)) 1 = Inr 3
   \<and> (\<exists>s'. train_policy env_cg_fails_once None learner0 = Inr s'
          \<and> used_optimizers (out s') = [''CG'', ''L-BFGS-B'']
          \<and> policy_params s' = 3 \<and> best_p s' = Some (3, 2) \<and> state_changed s')
   \<and> attempt env_cg_divides () 0 2 (min_methods_of ''CG'') (0, (5, 0)) 0 = Inl ZeroDivisionError
   \<and> train_policy env_cg_divides None learner0 = Inl ZeroDivisionError
   \<and> attempt env_all_fail () 0 2 (min_methods_of ''CG'') (0, (5, 0)) 0 = Inl ValueError
   \<and> attempt env_all_fail () 0 2 (min_methods_of ''CG'') (0, (5, 0)) 1 = Inl ValueError
   \<and> attempt env_all_fail () 0 2 (min_methods_of ''CG'') (0, (5, 0)) 2 = Inl ValueError
   \<and> attempt env_all_fail () 0 2 (min_methods_of ''CG'') (0, (5, 0)) 3 = Inl ValueError
   \<and> attempt env_all_fail () 0 2 (min_methods_of ''CG'') (0, (5, 0)) 4 = Inl ValueError
   \<and> (\<exists>s'. train_policy env_all_fail None learner0 = Inr s'
          \<and> used_optimizers (out s') = [''CG'', ''L-BFGS-B'', ''TNC'', ''BFGS'', ''SLSQP'']
          \<and> policy_params s' = 5 \<and> best_p s' = Some (0, 5) \<and> state_changed s')"
proof -
  have len: "length (min_methods_of ''CG'') = 5" "(0::nat) < 5" "(1::nat) < 5"
    by (simp_all add: min_methods_of_cg)
  have v: "value env_cg_fails_once 0 = 5" "value env_cg_divides 0 = 5" "value env_all_fail 0 = 5"
    by (simp_all add: env_cg_fails_once_def env_cg_divides_def env_all_fail_def env_base_def)
  note T1 = train_policy_fallback[OF learner0_det, of env_cg_fails_once None,
      unfolded Let_def learner0_start len(1)]
  have h1: "(\<forall>i<1. attempt env_cg_fails_once (shapes env_cg_fails_once 0) 0 2
                      (min_methods_of ''CG'') (0, (value env_cg_fails_once 0, 0)) i = Inl ValueError)
            \<and> attempt env_cg_fails_once (shapes env_cg_fails_once 0) 0 2
                      (min_methods_of ''CG'') (0, (value env_cg_fails_once 0, 0)) 1 = Inr 3"
    using cg_fails_once_attempts(1,2) by simp
  from T1[THEN conjunct2, THEN conjunct1, rule_format, OF len(3) h1]
  obtain s1 where
    s1: "train_policy env_cg_fails_once None learner0 = Inr s1"
        "used_optimizers (out s1) = [] @ take (Suc 1) (min_methods_of ''CG'')"
        "policy_params s1 = unwrap_params env_cg_fails_once 3 (shapes env_cg_fails_once 0)"
        "best_p s1 = Some (snd (restart env_cg_fails_once (shapes env_cg_fails_once 0) 0 2
                      (min_methods_of ''CG'') (0, (value env_cg_fails_once 0, 0)) (Suc 1)))"
        "state_changed s1"
    by (elim exE conjE)
  have a: "\<exists>s'. train_policy env_cg_fails_once None learner0 = Inr s'
          \<and> used_optimizers (out s') = [''CG'', ''L-BFGS-B'']
          \<and> policy_params s' = 3 \<and> best_p s' = Some (3, 2) \<and> state_changed s'"
    using s1 cg_fails_once_attempts(3)
    by (intro exI[of _ s1]) (simp add: min_methods_of_cg env_cg_fails_once_def env_base_def)
  note T2 = train_policy_fallback[OF learner0_det, of env_cg_divides None,
      unfolded Let_def learner0_start len(1)]
  have h2: "(\<forall>i<0. attempt env_cg_divides (shapes env_cg_divides 0) 0 2
                      (min_methods_of ''CG'') (0, (value env_cg_divides 0, 0)) i = Inl ValueError)
            \<and> attempt env_cg_divides (shapes env_cg_divides 0) 0 2
                      (min_methods_of ''CG'') (0, (value env_cg_divides 0, 0)) 0 = Inl ZeroDivisionError
            \<and> ZeroDivisionError \<noteq> ValueError"
    using cg_divides_attempt by simp
  from T2[THEN conjunct2, THEN conjunct2, THEN conjunct1, rule_format, OF len(2) h2]
  have b: "train_policy env_cg_divides None learner0 = Inl ZeroDivisionError" .
  note T3 = train_policy_fallback[OF learner0_det, of env_all_fail None,
      unfolded Let_def learner0_start len(1)]
  have h3: "\<forall>i<5. attempt env_all_fail (shapes env_all_fail 0) 0 2
                      (min_methods_of ''CG'') (0, (value env_all_fail 0, 0)) i = Inl ValueError"
    by (rule below_five) (rule all_fail_attempts)+
  from T3[THEN conjunct2, THEN conjunct2, THEN conjunct2, THEN mp, OF h3]
  obtain s3 where
    s3: "train_policy env_all_fail None learner0 = Inr s3"
        "used_optimizers (out s3) = [] @ min_methods_of ''CG''"
        "policy_params s3 = fst (restart env_all_fail (shapes env_all_fail 0) 0 2
                      (min_methods_of ''CG'') (0, (value env_all_fail 0, 0)) 5)"
        "best_p s3 = Some (snd (restart env_all_fail (shapes env_all_fail 0) 0 2
                      (min_methods_of ''CG'') (0, (value env_all_fail 0, 0)) 5))"
        "state_changed s3"
    by (elim exE conjE)
  have c: "\<exists>s'. train_policy env_all_fail None learner0 = Inr s'
          \<and> used_optimizers (out s') = [''CG'', ''L-BFGS-B'', ''TNC'', ''BFGS'', ''SLSQP'']
          \<and> policy_params s' = 5 \<and> best_p s' = Some (0, 5) \<and> state_changed s'"
    using s3 all_fail_attempts(6)
    by (intro exI[of _ s3]) (simp add: min_methods_of_cg)
  show ?thesis
    using cg_fails_once_attempts(1,2) cg_divides_attempt all_fail_attempts(1-5)
    by (intro conjI learner0_det a b c) (simp_all add: v)
qed

text \<open>
  Where C1 as written fails.  Every method of the list raises ValueError, each from the
  point where it was started, and \<open>train_policy\<close> still returns a learner, with the best
  parameters seen installed; nothing is raised.  And a method that fails with another
  exception than ValueError, here a division by zero in \<open>CG\<close>, is not followed by a
  retry: \<open>train_policy\<close> raises that exception although the other four methods would
  have returned.
\<close>

theorem train_policy_all_fail_returns:
  "attempt env_all_fail () 0 2 (min_methods_of ''CG'') (0, (5, 0)) 0 = Inl ValueError
   \<and> attempt env_all_fail () 0 2 (min_methods_of ''CG'') (0, (5, 0)) 1 = Inl ValueError
   \<and> attempt env_all_fail () 0 2 (min_methods_of ''CG'') (0, (5, 0)) 2 = Inl ValueError
   \<and> attempt env_all_fail () 0 2 (min_methods_of ''CG'') (0, (5, 0)) 3 = Inl ValueError
   \<and> attempt env_all_fail () 0 2 (min_methods_of ''CG'') (0, (5, 0)) 4 = Inl ValueError
   \<and> train_policy env_all_fail None learner0 =
       Inr (learner0\<lparr>policy_params := 5, learning_iteration := 1, n_evals := 5,
              best_p := Some (0, 5), state_changed := True,
              out := [Training_policy_parameters 1, Initial_value_estimate 5,
                      Using_optimizer ''CG'', Current_value 4 1, Optimization_failed ''CG'',
                      Using_optimizer ''L-BFGS-B'', Current_value 3 2,
                      Optimization_failed ''L-BFGS-B'',
                      Using_optimizer ''TNC'', Current_value 2 3,
                      Optimization_failed ''TNC'',
                      Using_optimizer ''BFGS'', Current_value 1 4,
                      Optimization_failed ''BFGS'',
                      Using_optimizer ''SLSQP'', Current_value 0 5,
                      Optimization_failed ''SLSQP'',
                      Blank_line, Done_training 0]\<rparr>)
   \<and> minimize env_cg_divides ''CG'' 0 0 2 = ([1], Inl ZeroDivisionError)
   \<and> minimize env_cg_divides ''L-BFGS-B'' 0 0 2 = ([1], Inr 2)
   \<and> train_policy env_cg_divides None learner0 = Inl ZeroDivisionError"
proof -
  have a: "train_policy env_all_fail None learner0 =
       Inr (learner0\<lparr>policy_params := 5, learning_iteration := 1, n_evals := 5,
              best_p := Some (0, 5), state_changed := True,
              out := [Training_policy_parameters 1, Initial_value_estimate 5,
                      Using_optimizer ''CG'', Current_value 4 1, Optimization_failed ''CG'',
                      Using_optimizer ''L-BFGS-B'', Current_value 3 2,
                      Optimization_failed ''L-BFGS-B'',
                      Using_optimizer ''TNC'', Current_value 2 3,
                      Optimization_failed ''TNC'',
                      Using_optimizer ''BFGS'', Current_value 1 4,
                      Optimization_failed ''BFGS'',
                      Using_optimizer ''SLSQP'', Current_value 0 5,
                      Optimization_failed ''SLSQP'',
                      Blank_line, Done_training 0]\<rparr>)"
    by (simp add: train_policy_def learner0_def env_all_fail_def env_base_def upper_cg
        DETERMINISTIC_MIN_METHODS_def min_methods_of_cg loss_def print_with_stamp_def Let_def)
  have b: "minimize env_cg_divides ''CG'' 0 0 2 = ([1], Inl ZeroDivisionError)"
    "minimize env_cg_divides ''L-BFGS-B'' 0 0 2 = ([1], Inr 2)"
    by (simp_all add: env_cg_divides_def env_base_def)
  have c: "train_policy env_cg_divides None learner0 = Inl ZeroDivisionError"
    by (simp add: train_policy_def learner0_def env_cg_divides_def env_base_def upper_cg
        DETERMINISTIC_MIN_METHODS_def min_methods_of_cg loss_def print_with_stamp_def Let_def)
  have v: "value env_all_fail 0 = 5"
    by (simp add: env_all_fail_def env_base_def)
  show ?thesis
    using all_fail_attempts(1-5)
    by (intro conjI a b c) (simp_all add: v)
qed

section \<open>Properties of the constructor\<close>

lemma find_label_at:
  assumes "j < length labels" "labels ! j = k" "i \<le> j" "\<forall>m. i \<le> m \<and> m < j \<longrightarrow> labels ! m \<noteq> k"
  shows "find_label labels k i = Inr j"
  using assms
proof (induction "j - i" arbitrary: i)
  case 0
  then have "i = j" by simp
  then show ?case using "0.prems" by (simp add: find_label.simps)
next
  case (Suc d)
  then have lt: "i < j" by simp
  then have ne: "labels ! i \<noteq> k" using Suc.prems(4) by simp
  have "find_label labels k (i + 1) = Inr j"
    using Suc.hyps(1)[of "i + 1"] Suc.hyps(2) Suc.prems lt by simp
  then show ?case using ne lt Suc.prems(1) by (subst find_label.simps) simp
qed

lemma skip_label_at:
  assumes "n < length labels" "labels ! n \<noteq> k" "i \<le> n" "\<forall>m. i \<le> m \<and> m < n \<longrightarrow> labels ! m = k"
  shows "skip_label labels k i = Inr n"
  using assms
proof (induction "n - i" arbitrary: i)
  case 0
  then have "i = n" by simp
  then show ?case using "0.prems" by (simp add: skip_label.simps)
next
  case (Suc d)
  then have lt: "i < n" by simp
  then have eq: "labels ! i = k" using Suc.prems(4) by simp
  have "skip_label labels k (i + 1) = Inr n"
    using Suc.hyps(1)[of "i + 1"] Suc.hyps(2) Suc.prems lt by simp
  then show ?case using eq lt Suc.prems(1) by (subst skip_label.simps) simp
qed

lemma sorted_split_filter:
  fixes xs :: "int list"
  assumes "sorted xs" and down: "\<And>x y. x \<le> y \<Longrightarrow> P y \<Longrightarrow> P x"
  shows "take (length (filter P xs)) xs = filter P xs
       \<and> drop (length (filter P xs)) xs = filter (\<lambda>x. \<not> P x) xs"
  using assms(1)
proof (induction xs)
  case Nil
  then show ?case by simp
next
  case (Cons x xs)
  show ?case
  proof (cases "P x")
    case True
    then show ?thesis using Cons by simp
  next
    case False
    have "\<forall>y\<in>set xs. \<not> P y"
      using Cons.prems False down by auto
    then have "filter P xs = []" "filter (\<lambda>x. \<not> P x) xs = xs"
      by (simp_all add: filter_empty_conv filter_id_conv)
    then show ?thesis using False by simp
  qed
qed

lemma sorted_nth_filter:
  fixes xs :: "int list"
  assumes "sorted xs" and down: "\<And>x y. x \<le> y \<Longrightarrow> P y \<Longrightarrow> P x" and "m < length xs"
  shows "m < length (filter P xs) \<longleftrightarrow> P (xs ! m)"
proof -
  let ?n = "length (filter P xs)"
  from sorted_split_filter[OF assms(1), of P] down
  have t: "take ?n xs = filter P xs" and d: "drop ?n xs = filter (\<lambda>x. \<not> P x) xs" by blast+
  have n: "?n \<le> length xs" by simp
  show ?thesis
  proof
    assume lt: "m < ?n"
    then have "xs ! m = take ?n xs ! m" by simp
    also have "\<dots> \<in> set (take ?n xs)" using lt n by (intro nth_mem) simp
    finally show "P (xs ! m)" unfolding t by simp
  next
    assume p: "P (xs ! m)"
    show "m < ?n"
    proof (rule ccontr)
      assume "\<not> m < ?n"
      then have ge: "?n \<le> m" by simp
      then have "xs ! m = drop ?n xs ! (m - ?n)" using assms(3) by simp
      also have "\<dots> \<in> set (drop ?n xs)" using ge assms(3) by (intro nth_mem) simp
      finally have "\<not> P (xs ! m)" unfolding d by simp
      then show False using p by simp
    qed
  qed
qed

lemma loops_on_sorted_labels:
  fixes labels :: "int list"
  assumes srt: "sorted labels" and ex: "k \<in> set labels" and later: "\<exists>l\<in>set labels. k < l"
  shows "find_label labels k 0 = Inr (length (filter (\<lambda>l. l < k) labels))"
    and "skip_label labels k (length (filter (\<lambda>l. l < k) labels))
           = Inr (length (filter (\<lambda>l. l \<le> k) labels))"
proof -
  let ?a = "length (filter (\<lambda>l. l < k) labels)"
  let ?b = "length (filter (\<lambda>l. l \<le> k) labels)"
  have A: "m < ?a \<longleftrightarrow> labels ! m < k" if "m < length labels" for m
    using sorted_nth_filter[OF srt _ that, of "\<lambda>l. l < k"] by simp
  have B: "m < ?b \<longleftrightarrow> labels ! m \<le> k" if "m < length labels" for m
    using sorted_nth_filter[OF srt _ that, of "\<lambda>l. l \<le> k"] by simp
  from ex obtain j where j: "j < length labels" "labels ! j = k"
    by (auto simp: in_set_conv_nth)
  from later obtain l where l: "l < length labels" "k < labels ! l"
    by (auto simp: in_set_conv_nth)
  have ab: "?a \<le> ?b"
  proof -
    have "?a \<le> j" using A[OF j(1)] j(2) by simp
    moreover have "j < ?b" using B[OF j(1)] j(2) by simp
    ultimately show ?thesis by simp
  qed
  have a_lt: "?a < length labels"
    using A[OF j(1)] j by simp
  have b_lt: "?b < length labels"
    using B[OF l(1)] l by simp
  have a_k: "labels ! ?a = k"
  proof -
    have "\<not> labels ! ?a < k" using A[OF a_lt] by simp
    moreover have "labels ! ?a \<le> labels ! j"
    proof -
      have "?a \<le> j" using A[OF j(1)] j(2) by simp
      then show ?thesis using srt j(1) by (simp add: sorted_nth_mono)
    qed
    ultimately show ?thesis using j(2) by simp
  qed
  show "find_label labels k 0 = Inr ?a"
  proof (rule find_label_at[OF a_lt a_k])
    show "\<forall>m. 0 \<le> m \<and> m < ?a \<longrightarrow> labels ! m \<noteq> k"
      using A a_lt by (metis less_irrefl less_trans)
  qed simp
  show "skip_label labels k ?a = Inr ?b"
  proof (rule skip_label_at[OF b_lt _ ab])
    show "labels ! ?b \<noteq> k" using B[OF b_lt] by auto
    show "\<forall>m. ?a \<le> m \<and> m < ?b \<longrightarrow> labels ! m = k"
    proof (intro allI impI)
      fix m assume m: "?a \<le> m \<and> m < ?b"
      then have ml: "m < length labels" using b_lt by simp
      have "\<not> labels ! m < k" using A[OF ml] m by simp
      moreover have "labels ! m \<le> k" using B[OF ml] m by simp
      ultimately show "labels ! m = k" by simp
    qed
  qed
qed

lemma load_files:
  assumes "policy_file disk = Some p" "experience_file disk = Some d" "state_file disk = Some st"
  shows "fst (load disk s0) = None"
    and "policy_params (snd (load disk s0)) = p"
    and "experience (snd (load disk s0)) = d"
    and "learning_iteration (snd (load disk s0)) = snap_learning_iteration st"
    and "evaluate_cost (snd (load disk s0)) = evaluate_cost s0"
    and "out (snd (load disk s0)) = out s0 @ [Loading_learner_state]"
  using assms by (simp_all add: load_def set_state_def print_with_stamp_def)

lemma init_after_load:
  assumes files: "policy_file disk = Some p" "experience_file disk = Some d"
      "state_file disk = Some st"
    and ad: "params_angle_dims args = Some ad"
  shows "(init args disk stdin :: exn + ('a, 'b) learner \<times> string list) =
           (case after_load args stdin (snd (load disk (initial_learner args ad))) of
              Inl e \<Rightarrow> Inl e
            | Inr (s2, stdin') \<Rightarrow> Inr (s2\<lparr>state_changed := False\<rparr>, stdin'))"
proof -
  obtain e s1 where l: "load disk (initial_learner args ad) = (e, s1 :: ('a, 'b) learner)"
    by (cases "load disk (initial_learner args ad) :: exn option \<times> ('a, 'b) learner")
  then have "e = None"
    using load_files(1)[OF files, of "initial_learner args ad :: ('a, 'b) learner"] by simp
  then show ?thesis
    using ad l by (simp add: init_def)
qed

text \<open>
  C3, as the code has it.  A checkpoint is loaded, a dataset object was passed to the
  constructor, iteration \<open>k \<ge> 0\<close> passes the guard \<open>k + 1 < len(policy_history)\<close>, the
  episode labels are in non-decreasing order, \<open>k\<close> is among them and a later label
  follows.  Then the constructor returns; the four time-aligned arrays are cut after the
  episodes labelled \<open>k\<close>, so every episode kept has a label \<open>\<le> k\<close> and every episode
  dropped a label \<open>> k\<close>; the learning iteration becomes \<open>k + 1\<close>; and when \<open>k > 0\<close> the
  policy parameters are \<open>policy_history[k-1]\<close> and \<open>policy_history\<close> is cut to exactly
  \<open>k\<close> entries.
\<close>

theorem resume_from_iteration:
  fixes args :: "'p init_args"
  assumes files: "policy_file disk = Some p" "experience_file disk = Some d"
      "state_file disk = Some st"
    and ad: "params_angle_dims args = Some ad"
    and passed: "experience_arg args = Some d0"
    and hist: "policy_history d = Some ph"
    and k0: "0 \<le> learn_from_iteration args"
    and guard: "learn_from_iteration args + 1 < int (length ph)"
    and srt: "sorted (episode_labels d)"
    and ex: "learn_from_iteration args \<in> set (episode_labels d)"
    and later: "\<exists>l\<in>set (episode_labels d). learn_from_iteration args < l"
  shows "\<exists>s :: ('p, 'o) learner.
           init args disk stdin = Inr (s, stdin)
         \<and> (let k = learn_from_iteration args;
                 n = length (filter (\<lambda>l. l \<le> k) (episode_labels d))
             in time_stamps (experience s) = take n (time_stamps d)
              \<and> states (experience s) = take n (states d)
              \<and> actions (experience s) = take n (actions d)
              \<and> immediate_cost (experience s) = take n (immediate_cost d)
              \<and> (\<forall>l\<in>set (take n (episode_labels d)). l \<le> k)
              \<and> (\<forall>l\<in>set (drop n (episode_labels d)). k < l)
              \<and> learning_iteration s = k + 1
              \<and> (0 < k \<longrightarrow>
                    policy_params s = ph ! nat (k - 1)
                  \<and> policy_history (experience s) = Some (take (nat k) ph)
                  \<and> length (take (nat k) ph) = nat k))"
proof -
  let ?k = "learn_from_iteration args"
  let ?labels = "episode_labels d"
  let ?a = "length (filter (\<lambda>l. l < ?k) ?labels)"
  let ?n = "length (filter (\<lambda>l. l \<le> ?k) ?labels)"
  let ?s1 = "snd (load disk (initial_learner args ad)) :: ('p, 'o) learner"
  have s1: "policy_params ?s1 = p" "experience ?s1 = d"
    by (rule load_files(2)[OF files], rule load_files(3)[OF files])
  have run: "init args disk stdin =
               (case after_load args stdin ?s1 of
                  Inl e \<Rightarrow> Inl e
                | Inr (s2, stdin') \<Rightarrow> Inr (s2\<lparr>state_changed := False\<rparr>, stdin'))"
    by (rule init_after_load[OF files ad])
  note loops = loops_on_sorted_labels[OF srt ex later]
  have "take ?n ?labels = filter (\<lambda>l. l \<le> ?k) ?labels
      \<and> drop ?n ?labels = filter (\<lambda>l. \<not> l \<le> ?k) ?labels"
    by (rule sorted_split_filter[OF srt]) linarith
  then have split: "take ?n ?labels = filter (\<lambda>l. l \<le> ?k) ?labels"
      "drop ?n ?labels = filter (\<lambda>l. \<not> l \<le> ?k) ?labels"
    by (rule conjunct1, rule conjunct2)
  have kept: "\<forall>l\<in>set (take ?n ?labels). l \<le> ?k" unfolding split by simp
  have dropped: "\<forall>l\<in>set (drop ?n ?labels). ?k < l" unfolding split by auto
  let ?s = "print_with_stamp (Loading_from_iteration ?k) ?s1"
  let ?d = "d\<lparr>time_stamps := take ?n (time_stamps d), states := take ?n (states d),
               actions := take ?n (actions d), immediate_cost := take ?n (immediate_cost d),
               curr_episode := int ?n - 1\<rparr>"
  show ?thesis
  proof (cases "?k = 0")
    case True
    have rev: "revert_to_iteration (experience_arg args) ?k ph ?s1
                = Inr (?s\<lparr>experience := ?d, learning_iteration := ?k + 1\<rparr>)"
      using passed s1 loops True
      by (simp add: revert_to_iteration_def print_with_stamp_def Let_def)
    let ?S = "?s\<lparr>experience := ?d, learning_iteration := ?k + 1, state_changed := False\<rparr>"
    have c1: "init args disk stdin = Inr (?S, stdin)"
      using run rev hist s1 guard True by (simp add: after_load_def)
    have c2: "time_stamps (experience ?S) = take ?n (time_stamps d)"
      and c3: "states (experience ?S) = take ?n (states d)"
      and c4: "actions (experience ?S) = take ?n (actions d)"
      and c5: "immediate_cost (experience ?S) = take ?n (immediate_cost d)"
      and c6: "learning_iteration ?S = ?k + 1"
      by simp_all
    have c7: "0 < ?k \<longrightarrow>
                    policy_params ?S = ph ! nat (?k - 1)
                  \<and> policy_history (experience ?S) = Some (take (nat ?k) ph)
                  \<and> length (take (nat ?k) ph) = nat ?k"
      using True by simp
    show ?thesis
      unfolding Let_def
      by (rule exI[of _ ?S]) (intro conjI c1 c2 c3 c4 c5 c6 c7 kept dropped)
  next
    case False
    then have pos: "0 < ?k" using k0 by simp
    have idx: "py_index ph (?k - 1) = Inr (ph ! nat (?k - 1))"
      using pos guard by (simp add: py_index_def)
    have sl: "py_slice_to ph ?k = take (nat ?k) ph"
      using pos by (simp add: py_slice_to_def)
    have len: "length (take (nat ?k) ph) = nat ?k"
      using guard pos by simp
    let ?s' = "?s\<lparr>experience := ?d\<rparr>\<lparr>policy_params := ph ! nat (?k - 1),
                 experience := ?d\<lparr>policy_history := Some (take (nat ?k) ph)\<rparr>,
                 learning_iteration := ?k + 1\<rparr>"
    have rev: "revert_to_iteration (experience_arg args) ?k ph ?s1 = Inr ?s'"
      using passed s1 loops False idx sl
      by (simp add: revert_to_iteration_def print_with_stamp_def Let_def)
    let ?S = "?s'\<lparr>state_changed := False\<rparr>"
    have c1: "init args disk stdin = Inr (?S, stdin)"
      using run rev hist s1 guard pos by (simp add: after_load_def)
    have c2: "time_stamps (experience ?S) = take ?n (time_stamps d)"
      and c3: "states (experience ?S) = take ?n (states d)"
      and c4: "actions (experience ?S) = take ?n (actions d)"
      and c5: "immediate_cost (experience ?S) = take ?n (immediate_cost d)"
      and c6: "learning_iteration ?S = ?k + 1"
      by simp_all
    have c7: "0 < ?k \<longrightarrow>
                    policy_params ?S = ph ! nat (?k - 1)
                  \<and> policy_history (experience ?S) = Some (take (nat ?k) ph)
                  \<and> length (take (nat ?k) ph) = nat ?k"
      using len by simp
    show ?thesis
      unfolding Let_def
      by (rule exI[of _ ?S]) (intro conjI c1 c2 c3 c4 c5 c6 c7 kept dropped)
  qed
qed

lemma files1_fields:
  "policy_file files1 = Some 30" "experience_file files1 = Some dataset1"
  "state_file files1 = Some snapshot1"
  by (simp_all add: files1_def)

lemma args_resume_fields:
  "params_angle_dims (args_resume k) = Some []"
  "experience_arg (args_resume k) = Some empty_dataset"
  "learn_from_iteration (args_resume k) = k"
  by (simp_all add: args_resume_def)

lemma dataset1_fields:
  "policy_history dataset1 = Some [10, 20, 30]"
  "episode_labels dataset1 = [0, 1, 1, 2]"
  "time_stamps dataset1 = [[0], [1], [2], [3]]"
  by (simp_all add: dataset1_def)

theorem resume_from_iteration_witness:
  "sorted (episode_labels dataset1) \<and> 1 \<in> set (episode_labels dataset1)
   \<and> (\<exists>s :: (int, unit) learner.
         init (args_resume 1) files1 [] = Inr (s, [])
       \<and> time_stamps (experience s) = [[0], [1], [2]]
       \<and> learning_iteration s = 2
       \<and> policy_params s = 10
       \<and> policy_history (experience s) = Some [10])"
proof -
  have srt: "sorted (episode_labels dataset1)"
    by (simp add: dataset1_fields)
  have ex: "learn_from_iteration (args_resume 1) \<in> set (episode_labels dataset1)"
    by (simp add: dataset1_fields args_resume_fields)
  have later: "\<exists>l\<in>set (episode_labels dataset1). learn_from_iteration (args_resume 1) < l"
    by (simp add: dataset1_fields args_resume_fields)
  have k0: "0 \<le> learn_from_iteration (args_resume 1)"
    by (simp add: args_resume_fields)
  have guard: "learn_from_iteration (args_resume 1) + 1 < int (length [10, 20, 30 :: int])"
    by (simp add: args_resume_fields)
  from resume_from_iteration[OF files1_fields args_resume_fields(1,2) dataset1_fields(1)
      k0 guard srt ex later, of "[]"]
  obtain s :: "(int, unit) learner" where
    s: "init (args_resume 1) files1 [] = Inr (s, [])"
    and rest: "let k = learn_from_iteration (args_resume 1);
           n = length (filter (\<lambda>l. l \<le> k) (episode_labels dataset1))
       in time_stamps (experience s) = take n (time_stamps dataset1)
        \<and> states (experience s) = take n (states dataset1)
        \<and> actions (experience s) = take n (actions dataset1)
        \<and> immediate_cost (experience s) = take n (immediate_cost dataset1)
        \<and> (\<forall>l\<in>set (take n (episode_labels dataset1)). l \<le> k)
        \<and> (\<forall>l\<in>set (drop n (episode_labels dataset1)). k < l)
        \<and> learning_iteration s = k + 1
        \<and> (0 < k \<longrightarrow>
              policy_params s = [10, 20, 30] ! nat (k - 1)
            \<and> policy_history (experience s) = Some (take (nat k) [10, 20, 30])
            \<and> length (take (nat k) [10, 20, 30 :: int]) = nat k)"
    by (elim exE conjE)
  from rest have "time_stamps (experience s) = [[0], [1], [2]]"
    "learning_iteration s = 2" "policy_params s = 10"
    "policy_history (experience s) = Some [10]"
    by (simp_all add: Let_def args_resume_fields dataset1_fields)
  with s srt show ?thesis
    by (simp add: dataset1_fields)
qed

text \<open>
  Where C3 as written fails: resuming from iteration 0 cuts the arrays but leaves
  \<open>policy_history\<close> with its three entries, since the cut of the history is inside the
  test \<open>learn_from_iteration is not 0\<close>.
\<close>

theorem resume_from_iteration_zero_keeps_history:
  "(case (init (args_resume 0) files1 [] :: exn + (int, unit) learner \<times> string list) of
      Inl e \<Rightarrow> None
    | Inr (s, rest) \<Rightarrow> Some (time_stamps (experience s), policy_history (experience s)))
   = Some ([[0]], Some [10, 20, 30])"
proof -
  have f: "find_label [0, 1, 1, 2] 0 0 = Inr 0" by code_simp
  have g: "skip_label [0, 1, 1, 2] 0 0 = Inr 1" by code_simp
  show ?thesis
    by (simp add: init_def initial_learner_def load_def files1_def args_resume_def
        after_load_def revert_to_iteration_def dataset1_def set_state_def snapshot1_def
        print_with_stamp_def f g Let_def)
qed

text \<open>
  C8.  A checkpoint is loaded, the dataset has a policy history, and the requested
  iteration \<open>k\<close> (not the default \<open>-1\<close>) has \<open>k + 1 \<ge> len(policy_history)\<close>, which
  holds for every \<open>k\<close> that is not an index of the history.  Then the constructor prints
  the warning and waits for a line of input: with no input it does not return a learner;
  with a line it takes exactly that line and returns the learner as loaded, with nothing
  cut and the parameters and the iteration counter of the checkpoint.
\<close>

theorem resume_missing_iteration_asks:
  fixes args :: "'p init_args"
  assumes files: "policy_file disk = Some p" "experience_file disk = Some d"
      "state_file disk = Some st"
    and ad: "params_angle_dims args = Some ad"
    and hist: "policy_history d = Some ph"
    and asked: "learn_from_iteration args \<noteq> -1"
    and missing: "int (length ph) \<le> learn_from_iteration args + 1"
  shows "(init args disk [] :: exn + ('p, 'o) learner \<times> string list) = Inl EOFError
       \<and> (\<exists>s :: ('p, 'o) learner.
             init args disk (line # rest) = Inr (s, rest)
           \<and> last (out s) = Warning_iteration_does_not_exist
           \<and> experience s = d
           \<and> policy_params s = p
           \<and> learning_iteration s = snap_learning_iteration st)"
proof -
  let ?s1 = "snd (load disk (initial_learner args ad)) :: ('p, 'o) learner"
  let ?S = "(print_with_stamp Warning_iteration_does_not_exist ?s1)\<lparr>state_changed := False\<rparr>"
  have s1: "policy_params ?s1 = p" "experience ?s1 = d"
    "learning_iteration ?s1 = snap_learning_iteration st"
    by (rule load_files(2)[OF files], rule load_files(3)[OF files], rule load_files(4)[OF files])
  have run: "init args disk stdin =
               (case after_load args stdin ?s1 of
                  Inl e \<Rightarrow> Inl e
                | Inr (s2, stdin') \<Rightarrow> Inr (s2\<lparr>state_changed := False\<rparr>, stdin'))" for stdin
    by (rule init_after_load[OF files ad])
  have a: "(init args disk [] :: exn + ('p, 'o) learner \<times> string list) = Inl EOFError"
    using run[of "[]"] s1 hist asked missing by (simp add: after_load_def)
  have b: "init args disk (line # rest) = Inr (?S, rest)"
    using run[of "line # rest"] s1 hist asked missing by (simp add: after_load_def)
  have c: "last (out ?S) = Warning_iteration_does_not_exist" "experience ?S = d"
    "policy_params ?S = p" "learning_iteration ?S = snap_learning_iteration st"
    using s1 by (simp_all add: print_with_stamp_def)
  show ?thesis
    by (intro conjI a exI[of _ ?S] b c)
qed

theorem resume_missing_iteration_asks_witness:
  "(init (args_resume 5) files1 [] :: exn + (int, unit) learner \<times> string list) = Inl EOFError
   \<and> (\<exists>s :: (int, unit) learner.
         init (args_resume 5) files1 [''y''] = Inr (s, [])
       \<and> last (out s) = Warning_iteration_does_not_exist
       \<and> experience s = dataset1 \<and> policy_params s = 30 \<and> learning_iteration s = 3)"
proof -
  have asked: "learn_from_iteration (args_resume 5) \<noteq> -1"
    by (simp add: args_resume_fields)
  have missing: "int (length [10, 20, 30 :: int]) \<le> learn_from_iteration (args_resume 5) + 1"
    by (simp add: args_resume_fields)
  have "snap_learning_iteration snapshot1 = 3"
    by (simp add: snapshot1_def)
  with resume_missing_iteration_asks[OF files1_fields args_resume_fields(1) dataset1_fields(1)
      asked missing, of "''y''" "[]"]
  show ?thesis by simp
qed

text \<open>
  Where C8 as written fails: a request that names an iteration below zero (other than the
  default \<open>-1\<close>) passes the test \<open>k + 1 \<ge> len(policy_history)\<close>, so no warning is printed
  and no input is asked for; the first \<open>while\<close> loop then runs off the end of the episode
  labels.  With the checkpoint of three entries and the request \<open>-2\<close> the constructor
  raises IndexError and leaves the line of input unread.
\<close>

theorem resume_negative_request_raises:
  "policy_history dataset1 = Some [10, 20, 30]
   \<and> episode_labels dataset1 = [0, 1, 1, 2]
   \<and> (init (args_resume (- 2)) files1 [''y''] :: exn + (int, unit) learner \<times> string list)
       = Inl IndexError"
proof -
  have f: "find_label [0, 1, 1, 2] (- 2) 0 = Inl IndexError" by code_simp
  have a: "policy_history dataset1 = Some [10, 20, 30]" "episode_labels dataset1 = [0, 1, 1, 2]"
    by (simp_all add: dataset1_def)
  have b: "(init (args_resume (- 2)) files1 [''y''] :: exn + (int, unit) learner \<times> string list)
       = Inl IndexError"
    by (simp add: init_def initial_learner_def load_def files1_def args_resume_def
        after_load_def revert_to_iteration_def dataset1_def set_state_def snapshot1_def
        print_with_stamp_def f Let_def)
  show ?thesis
    by (intro conjI a b)
qed

section \<open>Properties of \<open>apply_controller\<close>\<close>

lemma np_dot_vm_square:
  assumes "is_matrix n n L" "length z = n"
  shows "\<exists>w. np_dot_vm z L = Inr w \<and> length w = n"
proof (cases L)
  case Nil
  then have "n = 0" using assms(1) by (simp add: is_matrix_def)
  then show ?thesis using Nil assms by (simp add: np_dot_vm_def is_matrix_def)
next
  case (Cons row rows)
  then have "length row = n" using assms(1) by (simp add: is_matrix_def)
  then show ?thesis using Cons assms by (simp add: np_dot_vm_def)
qed

lemma np_add_same: "length x = length y \<Longrightarrow> \<exists>v. np_add x y = Inr v \<and> length v = length x"
  by (simp add: np_add_def)

lemma randomize_state_ok:
  assumes noise: "plant_noise env (the_plant st) = Some N"
    and L: "is_matrix n n L"
    and draw: "length (fst (randn env n (the_rng st))) = n"
    and x: "length (x_t st) = n"
  shows "\<exists>x' g'. randomize_state env L st = Inr (st\<lparr>x_t := x', the_rng := g'\<rparr>) \<and> length x' = n"
proof -
  obtain z g where zg: "randn env n (the_rng st) = (z, g)"
    by (cases "randn env n (the_rng st)")
  then have lz: "length z = n" using draw by simp
  from np_dot_vm_square[OF L lz] obtain w where w: "np_dot_vm z L = Inr w" "length w = n"
    by (elim exE conjE)
  from np_add_same[of "x_t st" w] x w(2) obtain v where v: "np_add (x_t st) w = Inr v" "length v = n"
    by auto
  have "randomize_state env L st = Inr (st\<lparr>x_t := v, the_rng := g\<rparr>)"
    using noise zg x w(1) v(1) by (simp add: randomize_state_def)
  then show ?thesis using v(2) by (intro exI[of _ v] exI[of _ g]) simp
qed

lemma add_sample_open:
  assumes "episode_open d"
  shows "\<exists>d'. add_sample t x u c d = Inr d' \<and> episode_open d'
           \<and> episode_sizes d' = (case episode_sizes d of (a, b, c, e) \<Rightarrow> (Suc a, Suc b, Suc c, Suc e))
           \<and> earlier_episodes d' = earlier_episodes d
           \<and> last (last (actions d')) = u
           \<and> last (last (immediate_cost d')) = c
           \<and> episode_labels d' = episode_labels d
           \<and> policy_history d' = policy_history d"
  using assms
  by (simp add: add_sample_def episode_open_def episode_sizes_def earlier_episodes_def
      snoc_last_def)

lemma record_sample_ok:
  assumes "recording n st"
  shows "\<exists>d'. record_sample u st = Inr (st\<lparr>the_learner := (the_learner st)\<lparr>experience := d'\<rparr>\<rparr>)
           \<and> episode_open d'
           \<and> episode_sizes d' = (case episode_sizes (experience (the_learner st)) of
                                   (a, b, c, e) \<Rightarrow> (Suc a, Suc b, Suc c, Suc e))
           \<and> earlier_episodes d' = earlier_episodes (experience (the_learner st))
           \<and> last (last (actions d')) = u
           \<and> (evaluate_cost (the_learner st) = PyNone
                \<longrightarrow> last (last (immediate_cost d')) = Scalar_cost 0)
           \<and> episode_labels d' = episode_labels (experience (the_learner st))
           \<and> policy_history d' = policy_history (experience (the_learner st))"
proof -
  let ?d = "experience (the_learner st)"
  have op: "episode_open ?d" using assms by (simp add: recording_def)
  show ?thesis
  proof (cases "evaluate_cost (the_learner st)")
    case Unset
    then show ?thesis using assms by (simp add: recording_def)
  next
    case PyNone
    from add_sample_open[OF op, of "t_now st" "x_t st" u "Scalar_cost 0"]
    obtain d' where d': "add_sample (t_now st) (x_t st) u (Scalar_cost 0) ?d = Inr d'"
      "episode_open d'"
      "episode_sizes d' = (case episode_sizes ?d of (a, b, c, e) \<Rightarrow> (Suc a, Suc b, Suc c, Suc e))"
      "earlier_episodes d' = earlier_episodes ?d" "last (last (actions d')) = u"
      "last (last (immediate_cost d')) = Scalar_cost 0"
      "episode_labels d' = episode_labels ?d" "policy_history d' = policy_history ?d"
      by (elim exE conjE)
    have "record_sample u st = Inr (st\<lparr>the_learner := (the_learner st)\<lparr>experience := d'\<rparr>\<rparr>)"
      using PyNone d'(1) by (simp add: record_sample_def append_sample_def)
    then show ?thesis using d'(2-) by (intro exI[of _ d']) simp
  next
    case (Val f)
    obtain m v where mv: "f (x_t st) (Sx_t st) = (m, v)" by (cases "f (x_t st) (Sx_t st)")
    from add_sample_open[OF op, of "t_now st" "x_t st" u "Cost_moments m v"]
    obtain d' where d': "add_sample (t_now st) (x_t st) u (Cost_moments m v) ?d = Inr d'"
      "episode_open d'"
      "episode_sizes d' = (case episode_sizes ?d of (a, b, c, e) \<Rightarrow> (Suc a, Suc b, Suc c, Suc e))"
      "earlier_episodes d' = earlier_episodes ?d" "last (last (actions d')) = u"
      "episode_labels d' = episode_labels ?d" "policy_history d' = policy_history ?d"
      by (elim exE conjE)
    have "record_sample u st = Inr (st\<lparr>the_learner := (the_learner st)\<lparr>experience := d'\<rparr>\<rparr>)"
      using Val mv d'(1) by (simp add: record_sample_def)
    then show ?thesis using d'(2-) Val by (intro exI[of _ d']) simp
  qed
qed

lemma record_sample_actions:
  assumes "record_sample u st = Inr st'"
  shows "last (actions (experience (the_learner st')))
           = last (actions (experience (the_learner st))) @ [u]"
proof (cases "evaluate_cost (the_learner st)")
  case Unset
  then show ?thesis using assms by (simp add: record_sample_def)
next
  case PyNone
  then show ?thesis using assms
    by (simp add: record_sample_def add_sample_def append_sample_def snoc_last_def Let_def
        split: if_splits)
       auto
next
  case (Val f)
  obtain m v where mv: "f (x_t st) (Sx_t st) = (m, v)" by (cases "f (x_t st) (Sx_t st)")
  show ?thesis using assms Val mv
    by (simp add: record_sample_def add_sample_def snoc_last_def Let_def split: if_splits)
       auto
qed

lemma grown_trans: "grown j d d' \<Longrightarrow> grown k d' d'' \<Longrightarrow> grown (j + k) d d''"
  by (auto simp: grown_def split: prod.splits)

lemma record_sample_grown:
  assumes "recording n st"
  shows "\<exists>d'. record_sample u st = Inr (st\<lparr>the_learner := (the_learner st)\<lparr>experience := d'\<rparr>\<rparr>)
           \<and> grown 1 (experience (the_learner st)) d'
           \<and> last (last (actions d')) = u
           \<and> (evaluate_cost (the_learner st) = PyNone
                \<longrightarrow> last (last (immediate_cost d')) = Scalar_cost 0)"
proof -
  from record_sample_ok[OF assms, of u] obtain d' where
    d': "record_sample u st = Inr (st\<lparr>the_learner := (the_learner st)\<lparr>experience := d'\<rparr>\<rparr>)"
      "episode_open d'"
      "episode_sizes d' = (case episode_sizes (experience (the_learner st)) of
                                   (a, b, c, e) \<Rightarrow> (Suc a, Suc b, Suc c, Suc e))"
      "earlier_episodes d' = earlier_episodes (experience (the_learner st))"
      "last (last (actions d')) = u"
      "evaluate_cost (the_learner st) = PyNone
                \<longrightarrow> last (last (immediate_cost d')) = Scalar_cost 0"
      "episode_labels d' = episode_labels (experience (the_learner st))"
      "policy_history d' = policy_history (experience (the_learner st))"
    by (elim exE conjE)
  have "grown 1 (experience (the_learner st)) d'"
    using d'(2,3,4,7,8) by (simp add: grown_def split: prod.splits)
  then show ?thesis using d'(1,5,6) by (intro exI[of _ d']) simp
qed

lemma rollout_step_ok:
  assumes plant: "steady_plant env n N L" and rec: "recording n st"
  shows "\<exists>st' d'. rollout_step env random_controls L st = Inr (st', False)
           \<and> the_learner st' = (the_learner st)\<lparr>experience := d'\<rparr>
           \<and> grown 1 (experience (the_learner st)) d'
           \<and> length (x_t st') = n \<and> u_t st' \<noteq> None
           \<and> u_t st' = Some (last (last (actions d')))"
proof -
  let ?s = "the_learner st"
  let ?xa = "gTrig_np env (x_t st) (angle_idims ?s)"
  obtain u g where ug:
    "(if random_controls then rand_policy_evaluate env ?xa (the_rng st)
      else (policy_evaluate env (policy_params ?s) ?xa, the_rng st)) = (u, g)"
    by (cases "if random_controls then rand_policy_evaluate env ?xa (the_rng st)
      else (policy_evaluate env (policy_params ?s) ?xa, the_rng st)")
  let ?st1 = "st\<lparr>u_t := Some u, the_rng := g, the_plant := plant_apply_control env u (the_plant st)\<rparr>"
  have rec1: "recording n ?st1" using rec by (simp add: recording_def)
  from record_sample_grown[OF rec1, of u] obtain d' where
    d': "record_sample u ?st1 = Inr (?st1\<lparr>the_learner := ?s\<lparr>experience := d'\<rparr>\<rparr>)"
      "grown 1 (experience ?s) d'" "last (last (actions d')) = u"
    by auto
  let ?st2 = "?st1\<lparr>the_learner := ?s\<lparr>experience := d'\<rparr>\<rparr>"
  let ?st3 = "(if \<not> async_plant ?s then ?st2\<lparr>the_plant := plant_step env (the_plant ?st2)\<rparr> else ?st2)"
  obtain x t pl where gs: "plant_get_state env (the_plant ?st3) = ((x, t), pl)"
    by (cases "plant_get_state env (the_plant ?st3)") auto
  have lx: "length x = n"
    using plant gs unfolding steady_plant_def by (metis fst_conv)
  let ?st4 = "?st3\<lparr>x_t := x, t_now := t, the_plant := pl\<rparr>"
  have noise: "plant_noise env (the_plant ?st4) = Some N"
    and L: "is_matrix n n L"
    and draw: "length (fst (randn env n (the_rng ?st4))) = n"
    and notdone: "\<And>p. \<not> plant_done env p"
    using plant unfolding steady_plant_def by blast+
  have x4: "length (x_t ?st4) = n" using lx by simp
  from randomize_state_ok[OF noise L draw x4] obtain x' g' where
    r: "randomize_state env L ?st4 = Inr (?st4\<lparr>x_t := x', the_rng := g'\<rparr>)" "length x' = n"
    by (elim exE conjE)
  let ?st5 = "?st4\<lparr>x_t := x', the_rng := g'\<rparr>"
  have "rollout_step env random_controls L st = Inr (?st5, False)"
    unfolding rollout_step_def Let_def
    using ug d'(1) gs r(1) notdone by (simp split: if_splits)
  moreover have "the_learner ?st5 = ?s\<lparr>experience := d'\<rparr>" by simp
  moreover have "length (x_t ?st5) = n" using r(2) by simp
  moreover have "u_t ?st5 \<noteq> None" by simp
  moreover have "u_t ?st5 = Some (last (last (actions d')))" using d'(3) by simp
  ultimately show ?thesis using d'(2) by (intro exI[of _ ?st5] exI[of _ d']) simp
qed

lemma rollout_loop_ok:
  assumes plant: "steady_plant env n N L" and rec: "recording n st"
  shows "\<exists>st' d'. rollout_loop env random_controls L k st = Inr st'
           \<and> the_learner st' = (the_learner st)\<lparr>experience := d'\<rparr>
           \<and> grown k (experience (the_learner st)) d'
           \<and> length (x_t st') = n \<and> (0 < k \<longrightarrow> u_t st' \<noteq> None)
           \<and> (0 < k \<longrightarrow> u_t st' = Some (last (last (actions d'))))"
  using rec
proof (induction k arbitrary: st)
  case 0
  have "grown 0 (experience (the_learner st)) (experience (the_learner st))"
    using "0.prems" by (simp add: grown_def recording_def split: prod.splits)
  moreover have "length (x_t st) = n" using "0.prems" by (simp add: recording_def)
  ultimately show ?case
    by (intro exI[of _ st] exI[of _ "experience (the_learner st)"]) simp
next
  case (Suc k)
  from rollout_step_ok[OF plant Suc.prems, of random_controls] obtain st1 d1 where
    one: "rollout_step env random_controls L st = Inr (st1, False)"
      "the_learner st1 = (the_learner st)\<lparr>experience := d1\<rparr>"
      "grown 1 (experience (the_learner st)) d1"
      "length (x_t st1) = n" "u_t st1 \<noteq> None" "u_t st1 = Some (last (last (actions d1)))"
    by (elim exE conjE)
  have rec1: "recording n st1"
    using one(2,3,4) Suc.prems by (simp add: recording_def grown_def)
  from Suc.IH[OF rec1] obtain st2 d2 where
    more: "rollout_loop env random_controls L k st1 = Inr st2"
      "the_learner st2 = (the_learner st1)\<lparr>experience := d2\<rparr>"
      "grown k (experience (the_learner st1)) d2"
      "length (x_t st2) = n" "0 < k \<longrightarrow> u_t st2 \<noteq> None"
      "0 < k \<longrightarrow> u_t st2 = Some (last (last (actions d2)))"
    by (elim exE conjE)
  have run: "rollout_loop env random_controls L (Suc k) st = Inr st2"
    using one(1) more(1) by simp
  have lrn: "the_learner st2 = (the_learner st)\<lparr>experience := d2\<rparr>"
    using more(2) one(2) by simp
  have "grown (1 + k) (experience (the_learner st)) d2"
    using grown_trans[OF one(3)] more(3) one(2) by simp
  then have gr: "grown (Suc k) (experience (the_learner st)) d2" by simp
  have u: "u_t st2 \<noteq> None"
  proof (cases k)
    case 0
    then show ?thesis using more(1) one(5) by simp
  next
    case (Suc j)
    then show ?thesis using more(5) by simp
  qed
  have ua: "u_t st2 = Some (last (last (actions d2)))"
  proof (cases k)
    case 0
    then have same: "st2 = st1" using more(1) by simp
    have "experience (the_learner st2) = experience ((the_learner st1)\<lparr>experience := d2\<rparr>)"
      using more(2) by (rule arg_cong)
    then have "experience (the_learner st1) = d2" using same by simp
    then have "d2 = d1" using one(2) by simp
    then show ?thesis using one(6) same by simp
  next
    case (Suc j)
    then show ?thesis using more(6) by simp
  qed
  show ?case
    using run lrn gr more(4) u ua by (intro exI[of _ st2] exI[of _ d2]) simp
qed

text \<open>
  Where the rollout runs.  The plant has \<open>dt = 0.1\<close>, never reports completion, and has
  a noise covariance with a Cholesky factor of the size of its state; the learner's cost
  evaluator attribute is assigned.  Then \<open>apply_controller(H=1.0)\<close> returns, the episodes
  recorded before are untouched, and the new episode holds eleven samples in each of the
  four arrays: the ten of the loop (\<open>ceil(H/dt)\<close> steps) and the one added after it,
  whose action is the zero vector with as many entries as the action of the tenth step.
\<close>

theorem apply_controller_ten_samples:
  assumes plant: "steady_plant env n N L"
    and dt: "\<forall>pl. plant_dt env pl = round_double (1 / 10)"
    and cost: "evaluate_cost s \<noteq> Unset"
  shows "\<exists>s' pl' g'.
           apply_controller env (Some 1) random_controls (s, pl, g) = Inr (s', pl', g')
         \<and> time_stamps (experience s')
               = time_stamps (experience s) @ [last (time_stamps (experience s'))]
         \<and> states (experience s') = states (experience s) @ [last (states (experience s'))]
         \<and> actions (experience s') = actions (experience s) @ [last (actions (experience s'))]
         \<and> immediate_cost (experience s')
               = immediate_cost (experience s) @ [last (immediate_cost (experience s'))]
         \<and> length (last (time_stamps (experience s'))) = 10 + 1
         \<and> length (last (states (experience s'))) = 10 + 1
         \<and> length (last (actions (experience s'))) = 10 + 1
         \<and> length (last (immediate_cost (experience s'))) = 10 + 1
         \<and> (\<exists>acts. last (actions (experience s')) = acts @ [replicate (length (last acts)) 0]
                  \<and> length acts = 10)
         \<and> n_episodes s' = n_episodes s + 1"
proof -
  let ?s1 = "print_with_stamp (Running_for 1) (print_with_stamp Starting_data_collection_run s)"
  let ?d0 = "new_episode random_controls (learning_iteration ?s1) (experience ?s1)"
  let ?s2 = "?s1\<lparr>experience := ?d0\<rparr>"
  let ?pl1 = "if async_plant ?s2 then plant_start env pl else pl"
  obtain x t0 pl2 where gs: "plant_get_state env ?pl1 = ((x, t0), pl2)"
    by (cases "plant_get_state env ?pl1") auto
  have lx: "length x = n"
    using plant gs unfolding steady_plant_def by (metis fst_conv)
  have noise: "\<And>p. plant_noise env p = Some N" and chol: "np_cholesky env N = Inr L"
    and L: "is_matrix n n L" and draw: "\<And>g. length (fst (randn env n g)) = n"
    using plant unfolding steady_plant_def by blast+
  let ?st0 = "\<lparr>x_t = x, Sx_t = zeros2 (length x) (length x), t_now = t0, u_t = None,
               the_learner = ?s2, the_plant = pl2, the_rng = g\<rparr>"
  have "length (x_t ?st0) = n" using lx by simp
  from randomize_state_ok[OF noise L draw this] obtain x' g' where
    r: "randomize_state env L ?st0 = Inr (?st0\<lparr>x_t := x', the_rng := g'\<rparr>)" "length x' = n"
    by (elim exE conjE)
  let ?st1 = "?st0\<lparr>x_t := x', the_rng := g'\<rparr>"
  have open0: "episode_open ?d0"
    by (simp add: new_episode_def episode_open_def)
  have sizes0: "episode_sizes ?d0 = (0, 0, 0, 0)"
    by (simp add: new_episode_def episode_sizes_def)
  have earlier0: "earlier_episodes ?d0 =
      (time_stamps (experience s), states (experience s), actions (experience s),
       immediate_cost (experience s))"
    by (simp add: new_episode_def earlier_episodes_def print_with_stamp_def)
  have rec1: "recording n ?st1"
    using r(2) cost open0 by (simp add: recording_def print_with_stamp_def)
  from rollout_loop_ok[OF plant rec1, of random_controls 10] obtain st2 d2 where
    loop: "rollout_loop env random_controls L 10 ?st1 = Inr st2"
      "the_learner st2 = (the_learner ?st1)\<lparr>experience := d2\<rparr>"
      "grown 10 (experience (the_learner ?st1)) d2"
      "length (x_t st2) = n" "u_t st2 \<noteq> None" "u_t st2 = Some (last (last (actions d2)))"
    by auto
  from loop(5) obtain u where u: "u_t st2 = Some u" by auto
  have tenth: "u = last (last (actions d2))" using loop(6) u by simp
  have lrn2: "the_learner st2 = ?s2\<lparr>experience := d2\<rparr>" using loop(2) by simp
  have gr2: "grown 10 ?d0 d2" using loop(3) by simp
  let ?st3 = "st2\<lparr>u_t := Some (zeros_like u)\<rparr>"
  have rec3: "recording n ?st3"
    using loop(4) lrn2 gr2 cost by (simp add: recording_def grown_def print_with_stamp_def)
  from record_sample_grown[OF rec3, of "zeros_like u"] obtain d3 where
    fin: "record_sample (zeros_like u) ?st3
            = Inr (?st3\<lparr>the_learner := (the_learner ?st3)\<lparr>experience := d3\<rparr>\<rparr>)"
      "grown 1 (experience (the_learner ?st3)) d3"
      "last (last (actions d3)) = zeros_like u"
    by auto
  have "grown 1 d2 d3" using fin(2) lrn2 by simp
  from grown_trans[OF gr2 this] have "grown (10 + 1) ?d0 d3" .
  then have gr3: "episode_open d3" "episode_sizes d3 = (11, 11, 11, 11)"
    "earlier_episodes d3 = earlier_episodes ?d0"
    using sizes0 by (simp_all add: grown_def)
  let ?st4 = "?st3\<lparr>the_learner := ?s2\<lparr>experience := d3\<rparr>\<rparr>"
  have fin': "record_sample (zeros_like u) ?st3 = Inr ?st4"
    using fin(1) lrn2 by simp
  have ne: "immediate_cost d3 \<noteq> []" using gr3(1) by (simp add: episode_open_def)
  let ?v = "\<Sum>c\<leftarrow>butlast (last (immediate_cost d3)). cost_total c"
  have rv: "run_value (immediate_cost (experience (the_learner ?st4))) = Inr ?v"
    using ne by (simp add: run_value_def)
  let ?s' = "(print_with_stamp (Done_stopping_robot ?v) (?s2\<lparr>experience := d3\<rparr>))
               \<lparr>n_episodes := n_episodes s + 1\<rparr>"
  have dt2: "plant_dt env pl2 = round_double (1 / 10)" using dt by (rule spec)
  have dtv: "plant_dt env pl2 \<noteq> 0" "nat \<lceil>double_div 1 (plant_dt env pl2)\<rceil> = 10"
    unfolding dt2 by (rule double_tenth_pos, rule ten_steps)
  have result: "apply_controller env (Some 1) random_controls (s, pl, g)
          = Inr (?s', plant_stop env (the_plant st2), the_rng st2)"
    unfolding apply_controller_def
    using gs noise chol r(1) dtv loop(1) u fin' rv
    by (simp add: Let_def print_with_stamp_def)
  have exp': "experience ?s' = d3" by (simp add: print_with_stamp_def)
  have sizes: "length (last (time_stamps d3)) = 10 + 1" "length (last (states d3)) = 10 + 1"
    "length (last (actions d3)) = 10 + 1" "length (last (immediate_cost d3)) = 10 + 1"
    using gr3(2) by (simp_all add: episode_sizes_def)
  have bl: "butlast (time_stamps d3) = time_stamps (experience s)"
    "butlast (states d3) = states (experience s)"
    "butlast (actions d3) = actions (experience s)"
    "butlast (immediate_cost d3) = immediate_cost (experience s)"
    using gr3(3) earlier0 by (simp_all add: earlier_episodes_def)
  have nonempty: "time_stamps d3 \<noteq> []" "states d3 \<noteq> []" "actions d3 \<noteq> []"
    "immediate_cost d3 \<noteq> []"
    using gr3(1) by (simp_all add: episode_open_def)
  have earlier: "time_stamps d3 = time_stamps (experience s) @ [last (time_stamps d3)]"
    "states d3 = states (experience s) @ [last (states d3)]"
    "actions d3 = actions (experience s) @ [last (actions d3)]"
    "immediate_cost d3 = immediate_cost (experience s) @ [last (immediate_cost d3)]"
    using nonempty bl append_butlast_last_id by metis+
  have "last (actions (experience (the_learner ?st4)))
          = last (actions (experience (the_learner ?st3))) @ [zeros_like u]"
    using fin' by (rule record_sample_actions)
  then have app: "last (actions d3) = last (actions d2) @ [replicate (length (last (last (actions d2)))) 0]"
    using lrn2 tenth by (simp add: zeros_like_def zeros_def)
  have ten: "length (last (actions d2)) = 10"
    using gr2 sizes0 by (simp add: grown_def episode_sizes_def)
  have zero: "\<exists>acts. last (actions d3) = acts @ [replicate (length (last acts)) 0]
                  \<and> length acts = 10"
    using app ten by (intro exI[of _ "last (actions d2)"]) simp
  have eps: "n_episodes ?s' = n_episodes s + 1" by simp
  show ?thesis
    by (intro exI[of _ ?s'] exI[of _ "plant_stop env (the_plant st2)"] exI[of _ "the_rng st2"])
       (intro conjI; (simp only: result exp' sizes zero eps)?; (rule earlier)?)
qed

lemma env_plant_steady: "steady_plant env_plant 1 [[1]] [[1]]"
  by (simp add: steady_plant_def env_plant_def is_matrix_def)

lemma env_plant_dt: "\<forall>pl. plant_dt env_plant pl = round_double (1 / 10)"
  by (simp add: env_plant_def)

lemma learner_with_cost_fields:
  "evaluate_cost learner_with_cost \<noteq> Unset"
  "experience learner_with_cost = empty_dataset"
  "n_episodes learner_with_cost = 0"
  by (simp_all add: learner_with_cost_def learner0_def)

theorem apply_controller_ten_samples_witness:
  "steady_plant env_plant 1 [[1]] [[1]] \<and> plant_dt env_plant 0 = round_double (1 / 10)
   \<and> evaluate_cost learner_with_cost \<noteq> Unset
   \<and> (\<exists>s' pl' g'.
          apply_controller env_plant (Some 1) False (learner_with_cost, 0, ()) = Inr (s', pl', g')
        \<and> length (actions (experience s')) = 1
        \<and> length (last (actions (experience s'))) = 11
        \<and> (\<exists>acts. last (actions (experience s')) = acts @ [replicate (length (last acts)) 0]
                 \<and> length acts = 10))"
proof -
  from apply_controller_ten_samples[OF env_plant_steady env_plant_dt
      learner_with_cost_fields(1), of False 0 "()"]
  obtain s' pl' g' acts where
    r: "apply_controller env_plant (Some 1) False (learner_with_cost, 0, ()) = Inr (s', pl', g')"
      "actions (experience s') = actions (experience learner_with_cost) @ [last (actions (experience s'))]"
      "length (last (actions (experience s'))) = 10 + 1"
      "last (actions (experience s')) = acts @ [replicate (length (last acts)) 0]"
      "length acts = 10"
    by (elim exE conjE)
  have z: "\<exists>acts. last (actions (experience s')) = acts @ [replicate (length (last acts)) 0]
                 \<and> length acts = 10"
    using r(4,5) by (intro exI[of _ acts] conjI)
  have "length (actions (experience s'))
          = length (actions (experience learner_with_cost) @ [last (actions (experience s'))])"
    using r(2) by (rule arg_cong)
  then have one: "length (actions (experience s')) = 1"
    by (simp add: learner_with_cost_fields empty_dataset_def)
  have dt0: "plant_dt env_plant 0 = round_double (1 / 10)" by (simp add: env_plant_def)
  have "\<exists>s' pl' g'.
          apply_controller env_plant (Some 1) False (learner_with_cost, 0, ()) = Inr (s', pl', g')
        \<and> length (actions (experience s')) = 1
        \<and> length (last (actions (experience s'))) = 11
        \<and> (\<exists>acts. last (actions (experience s')) = acts @ [replicate (length (last acts)) 0]
                 \<and> length acts = 10)"
    using r(1,3) z one by (intro exI[of _ s'] exI[of _ pl'] exI[of _ g']) simp
  then show ?thesis
    using env_plant_steady dt0 learner_with_cost_fields(1) by (intro conjI)
qed

text \<open>
  C4 on the code.  The scenario of the specification: the two-dimensional linear plant
  with \<open>dt = 0.1\<close> that never reports completion, a linear policy, a learner with a cost
  function, and zero noise.  \<open>apply_controller(H=1.0)\<close> records no sample: line 182
  takes the Cholesky factor of the plant's noise before anything is recorded, and that
  raises LinAlgError for the zero covariance, which is not positive definite, and for
  \<open>None\<close>.
\<close>

theorem apply_controller_zero_noise_raises:
  "plant_dt env_linear plant0 = round_double (1 / 10)
   \<and> plant_done env_linear = (\<lambda>pl. False)
   \<and> plant_noise env_linear plant0 = Some [[0, 0], [0, 0]]
   \<and> apply_controller env_linear (Some 1) False (learner_with_cost, plant0, ())
       = Inl LinAlgError
   \<and> plant_noise env_linear_None plant0 = None
   \<and> apply_controller env_linear_None (Some 1) False (learner_with_cost, plant0, ())
       = Inl LinAlgError"
proof -
  have c: "cholesky [[0, 0], [0, 0]] = Inl LinAlgError"
    by (simp add: cholesky_def cholesky_row_def upt_rec)
  have a: "plant_dt env_linear plant0 = round_double (1 / 10)"
    "plant_done env_linear = (\<lambda>pl. False)"
    "plant_noise env_linear plant0 = Some [[0, 0], [0, 0]]"
    "plant_noise env_linear_None plant0 = None"
    by (simp_all add: env_linear_def env_linear_None_def)
  have b: "apply_controller env_linear (Some 1) False (learner_with_cost, plant0, ())
       = Inl LinAlgError"
    by (simp add: apply_controller_def env_linear_def plant0_def c Let_def print_with_stamp_def
        learner_with_cost_def learner0_def)
  have d: "apply_controller env_linear_None (Some 1) False (learner_with_cost, plant0, ())
       = Inl LinAlgError"
    by (simp add: apply_controller_def env_linear_None_def env_linear_def plant0_def Let_def
        print_with_stamp_def learner_with_cost_def learner0_def)
  show ?thesis
    by (intro conjI a b d)
qed

text \<open>
  C9 on the code.  \<open>L_noise = np.linalg.cholesky(self.plant.noise)\<close> comes before the
  test \<open>self.plant.noise is not None\<close>.  For a plant whose \<open>noise\<close> is \<open>None\<close> the
  factorization is attempted on \<open>None\<close> and raises, whatever the horizon, the policy and
  the learner: no state is retrieved with or without noise, and no sample is recorded.
\<close>

theorem apply_controller_noise_None_raises:
  assumes "\<forall>pl. plant_noise env pl = None"
  shows "apply_controller env H_arg random_controls (s, pl, g) = Inl LinAlgError"
proof -
  let ?pl1 = "if async_plant s then plant_start env pl else pl"
  obtain x t0 pl2 where gs: "plant_get_state env ?pl1 = ((x, t0), pl2)"
    by (cases "plant_get_state env ?pl1") auto
  have "plant_noise env pl2 = None" using assms by simp
  then show ?thesis
    unfolding apply_controller_def using gs
    by (simp add: Let_def print_with_stamp_def)
qed

theorem apply_controller_noise_None_raises_witness:
  "plant_noise env_no_noise 0 = None
   \<and> apply_controller env_no_noise (Some 1) False (learner_with_cost, 0, ()) = Inl LinAlgError"
proof -
  have n: "\<forall>pl. plant_noise env_no_noise pl = None"
    by (simp add: env_no_noise_def)
  from apply_controller_noise_None_raises[OF n, of "Some 1" False learner_with_cost 0 "()"] n
  show ?thesis by simp
qed

lemma randomize_state_keeps:
  "randomize_state env L st = Inr st' \<Longrightarrow> the_learner st' = the_learner st \<and> u_t st' = u_t st"
  by (auto simp: randomize_state_def Let_def split: option.splits sum.splits prod.splits)

lemma record_sample_Unset:
  "evaluate_cost (the_learner st) = Unset \<Longrightarrow> record_sample u st = Inl AttributeError"
  by (simp add: record_sample_def)

lemma rollout_step_Unset:
  "evaluate_cost (the_learner st) = Unset \<Longrightarrow>
   rollout_step env random_controls L st = Inl AttributeError"
  by (simp add: rollout_step_def Let_def record_sample_Unset split: prod.splits)

lemma rollout_loop_Unset:
  assumes "evaluate_cost (the_learner st) = Unset" "u_t st = None"
  shows "rollout_loop env random_controls L k st = (if k = 0 then Inr st else Inl AttributeError)"
  using assms by (cases k) (simp_all add: rollout_step_Unset)

lemma apply_controller_Unset:
  assumes "evaluate_cost s = Unset"
  shows "\<exists>e. apply_controller env H_arg random_controls (s, pl, g) = Inl e"
proof -
  let ?H = "case H_arg of None \<Rightarrow> H s | Some h \<Rightarrow> h"
  let ?s1 = "print_with_stamp (Running_for ?H) (print_with_stamp Starting_data_collection_run s)"
  let ?s2 = "?s1\<lparr>experience := new_episode random_controls (learning_iteration s) (experience s)\<rparr>"
  let ?pl1 = "if async_plant s then plant_start env pl else pl"
  obtain x t0 pl2 where gs: "plant_get_state env ?pl1 = ((x, t0), pl2)"
    by (cases "plant_get_state env ?pl1") auto
  let ?st0 = "\<lparr>x_t = x, Sx_t = zeros2 (length x) (length x), t_now = t0, u_t = None,
               the_learner = ?s2, the_plant = pl2, the_rng = g\<rparr>"
  have unset2: "evaluate_cost (the_learner ?st0) = Unset" "u_t ?st0 = None"
    using assms by (simp_all add: print_with_stamp_def)
  show ?thesis
  proof (cases "plant_noise env pl2")
    case None
    then show ?thesis
      unfolding apply_controller_def using gs by (simp add: Let_def print_with_stamp_def cong: option.case_cong)
  next
    case (Some N)
    show ?thesis
    proof (cases "np_cholesky env N")
      case (Inl e)
      then show ?thesis
        unfolding apply_controller_def using gs Some by (simp add: Let_def print_with_stamp_def cong: option.case_cong)
    next
      case (Inr L)
      show ?thesis
      proof (cases "randomize_state env L ?st0")
        case (Inl e)
        then show ?thesis
          unfolding apply_controller_def using gs Some Inr
          by (simp add: Let_def print_with_stamp_def cong: option.case_cong)
      next
        case st: (Inr st)
        from randomize_state_keeps[OF st] unset2
        have k: "evaluate_cost (the_learner st) = Unset" "u_t st = None" by simp_all
        note loop = rollout_loop_Unset[OF k, of env random_controls L
            "nat \<lceil>double_div ?H (plant_dt env (the_plant st))\<rceil>"]
        show ?thesis
          unfolding apply_controller_def using gs Some Inr st loop k(2)
          by (simp add: Let_def print_with_stamp_def cong: option.case_cong)
      qed
    qed
  qed
qed

lemma load_keeps:
  "evaluate_cost (snd (load disk s0)) = evaluate_cost s0"
  "fst (load disk s0) \<noteq> None \<Longrightarrow> cost (snd (load disk s0)) = cost s0"
  by (simp_all add: load_def set_state_def print_with_stamp_def Let_def split: option.splits)

lemma revert_to_iteration_keeps:
  "revert_to_iteration arg k ph s = Inr s' \<Longrightarrow> evaluate_cost s' = evaluate_cost s"
  by (auto simp: revert_to_iteration_def print_with_stamp_def Let_def
      split: option.splits sum.splits if_splits)

lemma after_load_keeps:
  "after_load args stdin s = Inr (s', rest) \<Longrightarrow> evaluate_cost s' = evaluate_cost s"
  by (auto simp: after_load_def print_with_stamp_def Let_def
      dest: revert_to_iteration_keeps split: option.splits sum.splits if_splits list.splits)

lemma init_without_cost:
  assumes "cost_func args = None" and "init args disk stdin = Inr (s, rest)"
  shows "evaluate_cost s = Unset"
proof -
  from assms(2) obtain ad where ad: "params_angle_dims args = Some ad"
    by (cases "params_angle_dims args") (simp_all add: init_def)
  let ?s0 = "initial_learner args ad :: ('a, 'b) learner"
  obtain e s1 where l: "load disk ?s0 = (e, s1)" by (cases "load disk ?s0")
  have ev1: "evaluate_cost s1 = Unset"
    using load_keeps(1)[of disk ?s0] l by (simp add: initial_learner_def)
  show ?thesis
  proof (cases e)
    case None
    then obtain s2 where "after_load args stdin s1 = Inr (s2, rest)" "s = s2\<lparr>state_changed := False\<rparr>"
      using assms(2) ad l by (auto simp: init_def split: sum.splits)
    then show ?thesis using after_load_keeps ev1 by fastforce
  next
    case (Some err)
    then have c1: "cost s1 = None"
      using load_keeps(2)[of disk ?s0] l assms(1) by (simp add: initial_learner_def)
    have "s = (init_cost (print_with_stamp Initialising_new_learner s1))\<lparr>state_changed := False\<rparr>"
      using assms(2) ad l Some by (auto simp: init_def Let_def split: if_splits)
    then show ?thesis
      using c1 ev1 by (simp add: init_cost_def print_with_stamp_def)
  qed
qed

text \<open>
  C10 on the code.  \<open>init_cost\<close> assigns \<open>self.evaluate_cost\<close> only when a cost
  function is present, and nothing else assigns it.  A learner constructed without a cost
  function therefore has no such attribute, and \<open>apply_controller\<close> never returns for
  it: the test \<open>self.evaluate_cost is not None\<close> of the first step raises
  AttributeError (or an earlier statement has raised, or the loop has no step and
  \<open>u_t\<close> is unbound).  No sample with cost 0 is appended.
\<close>

theorem apply_controller_without_cost_raises:
  assumes "cost_func args = None" and "init args disk stdin = Inr (s, rest)"
  shows "\<exists>e. apply_controller env H_arg random_controls (s, pl, g) = Inl e"
  using apply_controller_Unset[OF init_without_cost[OF assms]] .

theorem apply_controller_without_cost_raises_witness:
  "cost_func args_no_cost = None
   \<and> (\<exists>s :: (int, unit) learner.
         init args_no_cost no_files [] = Inr (s, [])
       \<and> apply_controller env_plant (Some 1) False (s, 0, ()) = Inl AttributeError)"
proof -
  let ?s = "(initial_learner args_no_cost [] :: (int, unit) learner)
              \<lparr>out := [Initialising_new_learner, No_cost_function_provided]\<rparr>"
  have c: "cost_func args_no_cost = None"
    by (simp add: args_no_cost_def args_resume_def)
  have i: "init args_no_cost no_files [] = Inr (?s, [])"
    by (simp add: init_def args_no_cost_def args_resume_def no_files_def load_def
        initial_learner_def init_cost_def print_with_stamp_def)
  from apply_controller_without_cost_raises[OF c i, of env_plant "Some 1" False 0 "()"]
  obtain e where e: "apply_controller env_plant (Some 1) False (?s, 0, ()) = Inl e" ..
  have u: "evaluate_cost ?s = Unset" by (simp add: initial_learner_def)
  have r: "randomize_state env_plant [[1]]
             \<lparr>x_t = [0], Sx_t = zeros2 1 1, t_now = 0, u_t = None,
                the_learner = ?s\<lparr>out := [Initialising_new_learner, No_cost_function_provided,
                                         Starting_data_collection_run, Running_for 1],
                                 experience := new_episode False 0 empty_dataset\<rparr>,
                the_plant = 0, the_rng = ()\<rparr>
           = Inr \<lparr>x_t = [0], Sx_t = zeros2 1 1, t_now = 0, u_t = None,
                the_learner = ?s\<lparr>out := [Initialising_new_learner, No_cost_function_provided,
                                         Starting_data_collection_run, Running_for 1],
                                 experience := new_episode False 0 empty_dataset\<rparr>,
                the_plant = 0, the_rng = ()\<rparr>"
    by (simp add: randomize_state_def env_plant_def np_dot_vm_def np_add_def is_matrix_def)
  have "apply_controller env_plant (Some 1) False (?s, 0, ()) = Inl AttributeError"
    unfolding apply_controller_def
    using r
    by (simp add: Let_def print_with_stamp_def initial_learner_def args_no_cost_def
        args_resume_def env_plant_def ten_steps double_tenth_pos rollout_step_def record_sample_def
        numeral_nat)
  with c i show ?thesis by blast
qed

section \<open>The length of the policy history\<close>

lemma loss_keeps:
  "loss env sh x s = Inr s' \<Longrightarrow>
   learning_iteration s' = learning_iteration s \<and> experience s' = experience s"
  by (auto simp: loss_def Let_def print_with_stamp_def split: option.splits if_splits)

lemma run_losses_keeps:
  "run_losses env sh xs s = Inr s' \<Longrightarrow>
   learning_iteration s' = learning_iteration s \<and> experience s' = experience s"
proof (induction xs arbitrary: s)
  case Nil
  then show ?case by simp
next
  case (Cons x xs)
  then obtain s1 where s1: "loss env sh x s = Inr s1" "run_losses env sh xs s1 = Inr s'"
    by (auto split: sum.splits)
  from loss_keeps[OF s1(1)] Cons.IH[OF s1(2)] show ?case by simp
qed

lemma try_methods_keeps:
  "try_methods env sh ms p0 s = Inr s' \<Longrightarrow>
   learning_iteration s' = learning_iteration s \<and> experience s' = experience s"
proof (induction ms arbitrary: p0 s)
  case Nil
  then show ?case by simp
next
  case (Cons m ms)
  let ?s1 = "print_with_stamp (Using_optimizer m) s"
  obtain qs res where mm:
    "minimize env m (wrap_params env p0) (conv_thr s) (max_evals s) = (qs, res)"
    by (cases "minimize env m (wrap_params env p0) (conv_thr s) (max_evals s)")
  from Cons.prems mm obtain s2 where s2: "run_losses env sh qs ?s1 = Inr s2"
    by (auto simp: print_with_stamp_def split: sum.splits)
  from run_losses_keeps[OF s2]
  have k2: "learning_iteration s2 = learning_iteration s" "experience s2 = experience s"
    by (simp_all add: print_with_stamp_def)
  show ?case
  proof (cases res)
    case (Inr x)
    then have "s' = s2\<lparr>policy_params := unwrap_params env x sh\<rparr>"
      using Cons.prems mm s2 by (simp add: print_with_stamp_def)
    then show ?thesis using k2 by simp
  next
    case (Inl e)
    let ?s3 = "print_with_stamp (Optimization_failed m) s2"
    from Cons.prems mm s2 Inl obtain v0 p0' where
      b: "best_p ?s3 = Some (v0, p0')"
      and rest: "try_methods env sh ms p0' (?s3\<lparr>policy_params := p0'\<rparr>) = Inr s'"
      by (auto simp: print_with_stamp_def split: if_splits option.splits)
    from Cons.IH[OF rest] show ?thesis
      using k2 by (simp add: print_with_stamp_def)
  qed
qed

lemma train_loop_keeps:
  "train_loop env k s = Inr s' \<Longrightarrow>
   learning_iteration s' = learning_iteration s \<and> experience s' = experience s"
proof (induction k arbitrary: s)
  case 0
  then show ?case by simp
next
  case (Suc k)
  from Suc.prems obtain f where f: "train_fn s = Some f"
    by (auto split: option.splits)
  obtain v p f' where r: "run_train_fn env f (policy_params s) = (v, p, f')"
    by (cases "run_train_fn env f (policy_params s)")
  let ?s1 = "s\<lparr>policy_params := p, train_fn := Some f'\<rparr>"
  from Suc.prems f r obtain b where b: "best_p s = Some b"
    by (cases "best_p s") (auto simp: Let_def)
  let ?s2 = "if v < fst b then ?s1\<lparr>best_p := Some (v, p)\<rparr> else ?s1"
  let ?s3 = "?s2\<lparr>n_evals := n_evals ?s2 + 1\<rparr>"
  have "train_loop env k (print_with_stamp (Current_value v (n_evals ?s3)) ?s3) = Inr s'"
    using Suc.prems f r b by (simp add: Let_def)
  from Suc.IH[OF this] show ?case
    by (simp add: print_with_stamp_def split: if_splits)
qed

lemma train_policy_keeps:
  assumes "train_policy env H_arg s = Inr s'"
  shows "learning_iteration s' = learning_iteration s + 1 \<and> experience s' = experience s"
proof -
  let ?s0 = "case H_arg of None \<Rightarrow> s | Some h \<Rightarrow> s\<lparr>H := h\<rparr>"
  have k0: "learning_iteration ?s0 = learning_iteration s" "experience ?s0 = experience s"
    "min_method ?s0 = min_method s"
    by (cases H_arg; simp)+
  let ?M = "upper (min_method s)"
  consider (det) "?M \<in> set DETERMINISTIC_MIN_METHODS"
    | (sto) "?M \<notin> set DETERMINISTIC_MIN_METHODS" "?M \<in> set STOCHASTIC_MIN_METHODS"
    | (unk) "?M \<notin> set DETERMINISTIC_MIN_METHODS" "?M \<notin> set STOCHASTIC_MIN_METHODS"
    by blast
  then show ?thesis
  proof cases
    case det
    let ?s2 = "(print_with_stamp (Initial_value_estimate (value env (policy_params s)))
                 (print_with_stamp (Training_policy_parameters (learning_iteration s + 1))
                    (?s0\<lparr>learning_iteration := learning_iteration s + 1, n_evals := 0\<rparr>)))
               \<lparr>best_p := Some (value env (policy_params s), policy_params s)\<rparr>"
    have s2: "learning_iteration ?s2 = learning_iteration s + 1" "experience ?s2 = experience s"
      using k0 by (simp_all add: print_with_stamp_def)
    have eq: "train_policy env H_arg s =
       (case try_methods env (shapes env (policy_params s)) (min_methods_of ?M)
               (policy_params s) ?s2 of
          Inl e \<Rightarrow> Inl e
        | Inr s3 \<Rightarrow>
            Inr (print_with_stamp (Done_training (value env (policy_params s3)))
                   (print_with_stamp Blank_line s3)\<lparr>state_changed := True\<rparr>))"
      using train_policy_deterministic[OF det, of env H_arg] by (simp add: Let_def)
    from assms eq obtain s3 where
      t: "try_methods env (shapes env (policy_params s))
                (min_methods_of ?M) (policy_params s) ?s2 = Inr s3"
      and r: "s' = (print_with_stamp (Done_training (value env (policy_params s3)))
                    (print_with_stamp Blank_line s3))\<lparr>state_changed := True\<rparr>"
      by (cases "try_methods env (shapes env (policy_params s)) (min_methods_of ?M)
               (policy_params s) ?s2") simp_all
    from try_methods_keeps[OF t] s2 r show ?thesis
      by (simp add: print_with_stamp_def)
  next
    case sto
    let ?b = "print_with_stamp (Using_optimizer ?M)
               ((print_with_stamp (Initial_value_estimate (value env (policy_params s)))
                  (print_with_stamp (Training_policy_parameters (learning_iteration s + 1))
                     (?s0\<lparr>learning_iteration := learning_iteration s + 1, n_evals := 0\<rparr>)))
                \<lparr>best_p := Some (value env (policy_params s), policy_params s)\<rparr>)"
    let ?s2 = "case train_fn s of
                 Some f \<Rightarrow> ?b
               | None \<Rightarrow> (print_with_stamp Compiling_optimizer ?b)
                           \<lparr>train_fn := Some (compile_train_fn env ?M (policy_params s))\<rparr>"
    have s2: "learning_iteration ?s2 = learning_iteration s + 1" "experience ?s2 = experience s"
      using k0 by (cases "train_fn s"; simp add: print_with_stamp_def)+
    have eq: "train_policy env H_arg s =
       (case train_loop env (max_evals ?s2) ?s2 of
          Inl e \<Rightarrow> Inl e
        | Inr s3 \<Rightarrow> Inr (s3\<lparr>state_changed := True\<rparr>))"
      using sto
      by (cases H_arg; cases "train_fn s")
         (simp_all add: train_policy_def Let_def print_with_stamp_def)
    from assms eq obtain s3 where
      t: "train_loop env (max_evals ?s2) ?s2 = Inr s3"
      and r: "s' = s3\<lparr>state_changed := True\<rparr>"
      by (cases "train_loop env (max_evals ?s2) ?s2") simp_all
    from train_loop_keeps[OF t] s2 r show ?thesis by simp
  next
    case unk
    then have "train_policy env H_arg s = Inl ValueError"
      using k0 by (cases H_arg) (simp_all add: train_policy_def Let_def print_with_stamp_def)
    then show ?thesis using assms by simp
  qed
qed

lemma save_appends:
  assumes "policy_history (experience s) = Some ph"
  shows "policy_history (experience (snd (save disk s))) = Some (ph @ [policy_params s])"
    and "learning_iteration (snd (save disk s)) = learning_iteration s"
  using assms by (simp_all add: save_def Let_def print_with_stamp_def)

lemma record_sample_keeps:
  "record_sample u st = Inr st' \<Longrightarrow>
   learning_iteration (the_learner st') = learning_iteration (the_learner st)
   \<and> policy_history (experience (the_learner st')) = policy_history (experience (the_learner st))
   \<and> evaluate_cost (the_learner st') = evaluate_cost (the_learner st)"
  by (auto simp: record_sample_def append_sample_def add_sample_def Let_def
      split: attribute.splits sum.splits prod.splits if_splits)

lemma rollout_step_keeps:
  assumes "rollout_step env random_controls L st = Inr (st', stop)"
  shows "learning_iteration (the_learner st') = learning_iteration (the_learner st)
   \<and> policy_history (experience (the_learner st')) = policy_history (experience (the_learner st))"
proof -
  let ?s = "the_learner st"
  let ?xa = "gTrig_np env (x_t st) (angle_idims ?s)"
  obtain u g where ug:
    "(if random_controls then rand_policy_evaluate env ?xa (the_rng st)
      else (policy_evaluate env (policy_params ?s) ?xa, the_rng st)) = (u, g)"
    by (cases "if random_controls then rand_policy_evaluate env ?xa (the_rng st)
      else (policy_evaluate env (policy_params ?s) ?xa, the_rng st)")
  let ?st1 = "st\<lparr>u_t := Some u, the_rng := g, the_plant := plant_apply_control env u (the_plant st)\<rparr>"
  from assms ug obtain st2 where st2: "record_sample u ?st1 = Inr st2"
    unfolding rollout_step_def Let_def by (auto split: sum.splits if_splits)
  let ?st3 = "(if \<not> async_plant ?s then st2\<lparr>the_plant := plant_step env (the_plant st2)\<rparr> else st2)"
  obtain x t pl where gs: "plant_get_state env (the_plant ?st3) = ((x, t), pl)"
    by (cases "plant_get_state env (the_plant ?st3)") auto
  let ?st4 = "?st3\<lparr>x_t := x, t_now := t, the_plant := pl\<rparr>"
  from assms ug st2 gs have "randomize_state env L ?st4 = Inr st'"
    unfolding rollout_step_def Let_def by (auto split: sum.splits if_splits)
  from randomize_state_keeps[OF this] have "the_learner st' = the_learner st2"
    by (simp split: if_splits)
  with record_sample_keeps[OF st2] show ?thesis by simp
qed

lemma rollout_loop_keeps:
  "rollout_loop env random_controls L k st = Inr st' \<Longrightarrow>
   learning_iteration (the_learner st') = learning_iteration (the_learner st)
   \<and> policy_history (experience (the_learner st')) = policy_history (experience (the_learner st))"
proof (induction k arbitrary: st)
  case 0
  then show ?case by simp
next
  case (Suc k)
  from Suc.prems obtain st1 stop where
    one: "rollout_step env random_controls L st = Inr (st1, stop)"
    by (auto split: sum.splits)
  note k1 = rollout_step_keeps[OF one]
  show ?case
  proof (cases stop)
    case True
    then have "st' = st1" using Suc.prems one by simp
    then show ?thesis using k1 by simp
  next
    case False
    then have "rollout_loop env random_controls L k st1 = Inr st'"
      using Suc.prems one by simp
    from Suc.IH[OF this] k1 show ?thesis by simp
  qed
qed

lemma apply_controller_keeps:
  assumes "apply_controller env H_arg random_controls (s, pl, g) = Inr (s', pl', g')"
  shows "learning_iteration s' = learning_iteration s
       \<and> policy_history (experience s') = policy_history (experience s)"
proof -
  let ?H = "case H_arg of None \<Rightarrow> H s | Some h \<Rightarrow> h"
  let ?s1 = "print_with_stamp (Running_for ?H) (print_with_stamp Starting_data_collection_run s)"
  let ?s2 = "?s1\<lparr>experience := new_episode random_controls (learning_iteration s) (experience s)\<rparr>"
  let ?pl1 = "if async_plant s then plant_start env pl else pl"
  obtain x t0 pl2 where gs: "plant_get_state env ?pl1 = ((x, t0), pl2)"
    by (cases "plant_get_state env ?pl1") auto
  let ?st0 = "\<lparr>x_t = x, Sx_t = zeros2 (length x) (length x), t_now = t0, u_t = None,
               the_learner = ?s2, the_plant = pl2, the_rng = g\<rparr>"
  have k0: "learning_iteration (the_learner ?st0) = learning_iteration s"
    "policy_history (experience (the_learner ?st0)) = policy_history (experience s)"
    by (simp_all add: print_with_stamp_def new_episode_def)
  from assms gs obtain L st1 st2 u st3 v where
    a: "randomize_state env L ?st0 = Inr st1"
    and b: "rollout_loop env random_controls L (nat \<lceil>double_div ?H (plant_dt env (the_plant st1))\<rceil>) st1 = Inr st2"
    and c: "record_sample (zeros_like u) (st2\<lparr>u_t := Some (zeros_like u)\<rparr>) = Inr st3"
    and d: "s' = (print_with_stamp (Done_stopping_robot v) (the_learner st3))
                   \<lparr>n_episodes := n_episodes (the_learner st3) + 1\<rparr>"
    unfolding apply_controller_def
    by (auto simp: Let_def print_with_stamp_def cong: option.case_cong
        split: sum.splits option.splits if_splits)
  from randomize_state_keeps[OF a] have "the_learner st1 = the_learner ?st0" by simp
  with rollout_loop_keeps[OF b] record_sample_keeps[OF c] k0 d show ?thesis
    by (simp add: print_with_stamp_def)
qed

text \<open>
  C7, as the code has it.  Let the dataset have a policy history whose length equals the
  learning-iteration counter.  If \<open>train_policy\<close> returns and \<open>save\<close> follows, the
  history has one more entry, the counter is one higher, and the two are equal again.
  If \<open>apply_controller\<close> returns, the history and the counter are what they were.
\<close>

theorem policy_history_length_kept:
  assumes hist: "policy_history (experience s) = Some ph"
    and eq: "int (length ph) = learning_iteration s"
  shows "(\<forall>s1. train_policy tenv H_arg s = Inr s1 \<longrightarrow>
            (\<exists>ph'. policy_history (experience (snd (save disk s1))) = Some ph'
                 \<and> int (length ph') = learning_iteration (snd (save disk s1))
                 \<and> learning_iteration (snd (save disk s1)) = learning_iteration s + 1))
       \<and> (\<forall>s' pl' g'. apply_controller renv H_arg' random_controls (s, pl, g) = Inr (s', pl', g') \<longrightarrow>
            policy_history (experience s') = Some ph
          \<and> learning_iteration s' = learning_iteration s)"
proof (intro conjI allI impI)
  fix s1
  assume t: "train_policy tenv H_arg s = Inr s1"
  from train_policy_keeps[OF t]
  have k: "learning_iteration s1 = learning_iteration s + 1" "experience s1 = experience s"
    by simp_all
  have h1: "policy_history (experience s1) = Some ph" using hist k(2) by simp
  from save_appends[OF h1, of disk] k(1) eq
  show "\<exists>ph'. policy_history (experience (snd (save disk s1))) = Some ph'
             \<and> int (length ph') = learning_iteration (snd (save disk s1))
             \<and> learning_iteration (snd (save disk s1)) = learning_iteration s + 1"
    by (intro exI[of _ "ph @ [policy_params s1]"]) simp
next
  fix s' pl' g'
  assume a: "apply_controller renv H_arg' random_controls (s, pl, g) = Inr (s', pl', g')"
  from apply_controller_keeps[OF a] hist
  show "policy_history (experience s') = Some ph" by simp
  from apply_controller_keeps[OF a]
  show "learning_iteration s' = learning_iteration s" by simp
qed

lemma train_policy_learner_with_cost:
  "\<exists>s1. train_policy env_base None learner_with_cost = Inr s1"
  by (simp add: train_policy_def learner_with_cost_def learner0_def env_base_def upper_cg
      DETERMINISTIC_MIN_METHODS_def min_methods_of_cg loss_def print_with_stamp_def Let_def)

lemma apply_controller_learner_with_cost:
  "\<exists>s'. apply_controller env_plant (Some (1 / 10)) False (learner_with_cost, 0, ()) = Inr (s', 1, ())"
  by (simp add: apply_controller_def Let_def print_with_stamp_def learner_with_cost_def learner0_def
      env_plant_def randomize_state_def np_dot_vm_def np_add_def is_matrix_def
      rollout_step_def record_sample_def add_sample_def new_episode_def empty_dataset_def
      snoc_last_def run_value_def zeros_like_def zeros_def zeros2_def cost_total_def
      one_step double_tenth_pos)

theorem policy_history_length_kept_witness:
  "policy_history (experience learner_with_cost) = Some []
   \<and> int (length ([] :: int list)) = learning_iteration learner_with_cost
   \<and> (\<exists>s1 ph'. train_policy env_base None learner_with_cost = Inr s1
         \<and> policy_history (experience (snd (save no_files s1))) = Some ph'
         \<and> int (length ph') = learning_iteration (snd (save no_files s1))
         \<and> learning_iteration (snd (save no_files s1)) = 1)
   \<and> (\<exists>s'. apply_controller env_plant (Some (1 / 10)) False (learner_with_cost, 0, ()) = Inr (s', 1, ())
         \<and> policy_history (experience s') = Some []
         \<and> learning_iteration s' = 0)"
proof -
  have hist: "policy_history (experience learner_with_cost) = Some []"
    by (simp add: learner_with_cost_def learner0_def empty_dataset_def)
  have eq: "int (length ([] :: int list)) = learning_iteration learner_with_cost"
    by (simp add: learner_with_cost_def learner0_def)
  have li: "learning_iteration learner_with_cost = 0"
    by (simp add: learner_with_cost_def learner0_def)
  note T = policy_history_length_kept[OF hist eq, of env_base None no_files env_plant
      "Some (1 / 10)" False 0 "()"]
  from train_policy_learner_with_cost obtain s1 where
    s1: "train_policy env_base None learner_with_cost = Inr s1" ..
  from T[THEN conjunct1, rule_format, OF s1] obtain ph' where
    "policy_history (experience (snd (save no_files s1))) = Some ph'"
    "int (length ph') = learning_iteration (snd (save no_files s1))"
    "learning_iteration (snd (save no_files s1)) = learning_iteration learner_with_cost + 1"
    by (elim exE conjE)
  then have a: "\<exists>s1 ph'. train_policy env_base None learner_with_cost = Inr s1
         \<and> policy_history (experience (snd (save no_files s1))) = Some ph'
         \<and> int (length ph') = learning_iteration (snd (save no_files s1))
         \<and> learning_iteration (snd (save no_files s1)) = 1"
    using s1 li by (intro exI[of _ s1] exI[of _ ph']) simp
  from apply_controller_learner_with_cost obtain s' where
    s': "apply_controller env_plant (Some (1 / 10)) False (learner_with_cost, 0, ()) = Inr (s', 1, ())" ..
  from T[THEN conjunct2, rule_format, OF s'] li
  have b: "\<exists>s'. apply_controller env_plant (Some (1 / 10)) False (learner_with_cost, 0, ()) = Inr (s', 1, ())
         \<and> policy_history (experience s') = Some []
         \<and> learning_iteration s' = 0"
    using s' by (intro exI[of _ s']) simp
  show ?thesis
    by (intro conjI hist eq a b)
qed

text \<open>
  Where C7 as written fails: operations other than training followed by one save change
  the equality.  \<open>save\<close> on its own appends an entry while the counter stays (here from
  0 entries at iteration 0 to 1 entry at iteration 0); and resuming from iteration 1 a
  checkpoint with 3 entries at iteration 3 leaves 1 entry at iteration 2.
\<close>

theorem policy_history_length_changed:
  "policy_history (experience learner0) = Some [] \<and> learning_iteration learner0 = 0
   \<and> policy_history (experience (snd (save no_files learner0))) = Some [0]
   \<and> learning_iteration (snd (save no_files learner0)) = 0
   \<and> policy_history dataset1 = Some [10, 20, 30] \<and> snap_learning_iteration snapshot1 = 3
   \<and> (case (init (args_resume 1) files1 [] :: exn + (int, unit) learner \<times> string list) of
         Inl e \<Rightarrow> None
       | Inr (s, rest) \<Rightarrow> Some (policy_history (experience s), learning_iteration s))
       = Some (Some [10], 2)"
proof -
  have f: "find_label [0, 1, 1, 2] 1 0 = Inr 1" by code_simp
  have g: "skip_label [0, 1, 1, 2] 1 (Suc 0) = Inr 3" by code_simp
  have a: "policy_history (experience learner0) = Some []" "learning_iteration learner0 = 0"
    "policy_history (experience (snd (save no_files learner0))) = Some [0]"
    "learning_iteration (snd (save no_files learner0)) = 0"
    by (simp_all add: learner0_def empty_dataset_def save_def no_files_def Let_def)
  have b: "policy_history dataset1 = Some [10, 20, 30]" "snap_learning_iteration snapshot1 = 3"
    by (simp_all add: dataset1_def snapshot1_def)
  have c: "(case (init (args_resume 1) files1 [] :: exn + (int, unit) learner \<times> string list) of
         Inl e \<Rightarrow> None
       | Inr (s, rest) \<Rightarrow> Some (policy_history (experience s), learning_iteration s))
       = Some (Some [10], 2)"
    by (simp add: init_def initial_learner_def load_def files1_def args_resume_def
        after_load_def revert_to_iteration_def dataset1_def set_state_def snapshot1_def
        print_with_stamp_def f g Let_def py_index_def py_slice_to_def)
  show ?thesis
    by (intro conjI a b c)
qed

section \<open>Properties of the propagation and of the backward pass\<close>

lemma mat_of_shape: "is_matrix n m (mat_of n m f)"
  by (simp add: is_matrix_def mat_of_def list_all_iff)

lemma mat_of_nth: "i < n \<Longrightarrow> j < m \<Longrightarrow> mat_of n m f ! i ! j = f i j"
  by (simp add: mat_of_def)

lemma is_matrix_nth: "is_matrix n m A \<Longrightarrow> i < n \<Longrightarrow> length (A ! i) = m"
  by (simp add: is_matrix_def list_all_length)

lemma is_matrix_nrows: "is_matrix n m A \<Longrightarrow> nrows A = n"
  by (simp add: is_matrix_def nrows_def)

lemma is_matrix_ncols: "is_matrix n m A \<Longrightarrow> 0 < n \<Longrightarrow> ncols A = m"
  by (cases A) (simp_all add: is_matrix_def ncols_def)

lemma is_matrix_ncols_square: "is_matrix n n A \<Longrightarrow> ncols A = n"
  by (cases A) (simp_all add: is_matrix_def ncols_def)

lemma matrix_eqI:
  assumes "is_matrix n m A" "is_matrix n m B"
    and "\<And>i j. i < n \<Longrightarrow> j < m \<Longrightarrow> A ! i ! j = B ! i ! j"
  shows "A = B"
proof (rule nth_equalityI)
  show "length A = length B" using assms(1,2) by (simp add: is_matrix_def)
next
  fix i assume "i < length A"
  then have i: "i < n" using assms(1) by (simp add: is_matrix_def)
  show "A ! i = B ! i"
  proof (rule nth_equalityI)
    show "length (A ! i) = length (B ! i)"
      using is_matrix_nth[OF assms(1) i] is_matrix_nth[OF assms(2) i] by simp
  next
    fix j assume "j < length (A ! i)"
    then have "j < m" using is_matrix_nth[OF assms(1) i] by simp
    then show "A ! i ! j = B ! i ! j" using assms(3) i by simp
  qed
qed

lemma madd_square:
  assumes "is_matrix n n A"
  shows "is_matrix n n (madd A B)"
    and "i < n \<Longrightarrow> j < n \<Longrightarrow> madd A B ! i ! j = A ! i ! j + B ! i ! j"
  using is_matrix_nrows[OF assms] is_matrix_ncols_square[OF assms]
  by (simp_all add: madd_def mat_of_shape mat_of_nth)

lemma transp_square:
  assumes "is_matrix n n A"
  shows "is_matrix n n (transp A)"
    and "i < n \<Longrightarrow> j < n \<Longrightarrow> transp A ! i ! j = A ! j ! i"
  using is_matrix_nrows[OF assms] is_matrix_ncols_square[OF assms]
  by (simp_all add: transp_def mat_of_shape mat_of_nth)

lemma symmetric_nth:
  assumes "is_matrix n n A" "symmetric A" "i < n" "j < n"
  shows "A ! i ! j = A ! j ! i"
proof -
  have "A ! i ! j = transp A ! i ! j" using assms(2) by (simp add: symmetric_def)
  then show ?thesis using transp_square(2)[OF assms(1,3,4)] by simp
qed

lemma symmetricI:
  assumes "is_matrix n n A" "\<And>i j. i < n \<Longrightarrow> j < n \<Longrightarrow> A ! i ! j = A ! j ! i"
  shows "symmetric A"
  unfolding symmetric_def
proof (rule matrix_eqI[OF transp_square(1)[OF assms(1)] assms(1)])
  fix i j assume "i < n" "j < n"
  then show "transp A ! i ! j = A ! i ! j"
    using transp_square(2)[OF assms(1)] assms(2) by simp
qed

lemma elemwise_add_mat_square:
  assumes A: "is_matrix n n A" and B: "is_matrix n n B"
  shows "elemwise_add_mat f A B = Inr (map2 (map2 f) A B)"
    and "is_matrix n n (map2 (map2 f) A B)"
    and "i < n \<Longrightarrow> j < n \<Longrightarrow> map2 (map2 f) A B ! i ! j = f (A ! i ! j) (B ! i ! j)"
proof -
  have lA: "length A = n" and lB: "length B = n"
    using A B by (simp_all add: is_matrix_def)
  have rA: "length (A ! k) = n" and rB: "length (B ! k) = n" if "k < n" for k
    using that is_matrix_nth[OF A] is_matrix_nth[OF B] by simp_all
  have "map length A = map length B"
    by (rule nth_equalityI) (simp_all add: lA lB rA rB)
  then show "elemwise_add_mat f A B = Inr (map2 (map2 f) A B)"
    by (simp add: elemwise_add_mat_def)
  show "is_matrix n n (map2 (map2 f) A B)"
    by (simp add: is_matrix_def list_all_length lA lB rA rB)
  show "map2 (map2 f) A B ! i ! j = f (A ! i ! j) (B ! i ! j)" if "i < n" "j < n"
    using that by (simp add: lA lB rA rB)
qed

lemma next_covariance_entries:
  assumes Sx: "is_matrix n n Sx" and Sd: "is_matrix n n Sd" and C: "is_matrix n n C"
  shows "\<exists>S1 S2 N. elemwise_add_mat f Sx Sd = Inr S1
            \<and> elemwise_add_mat f S1 C = Inr S2
            \<and> elemwise_add_mat f S2 (transp C) = Inr N
            \<and> is_matrix n n N
            \<and> (\<forall>i<n. \<forall>j<n. N ! i ! j = f (f (f (Sx ! i ! j) (Sd ! i ! j)) (C ! i ! j)) (C ! j ! i))"
proof -
  let ?S1 = "map2 (map2 f) Sx Sd"
  let ?S2 = "map2 (map2 f) ?S1 C"
  let ?N = "map2 (map2 f) ?S2 (transp C)"
  note a = elemwise_add_mat_square[OF Sx Sd, where f = f]
  note b = elemwise_add_mat_square[OF a(2) C, where f = f]
  note T = transp_square[OF C]
  note c = elemwise_add_mat_square[OF b(2) T(1), where f = f]
  have entries: "\<forall>i<n. \<forall>j<n.
      ?N ! i ! j = f (f (f (Sx ! i ! j) (Sd ! i ! j)) (C ! i ! j)) (C ! j ! i)"
    using a(3) b(3) c(3) T(2) by simp
  show ?thesis
    by (intro exI[of _ ?S1] exI[of _ ?S2] exI[of _ ?N] conjI a(1) b(1) c(1) c(2) entries)
qed

text \<open>
  C5, as the code has it.  Let the state covariance \<open>Sx\<close> be a symmetric \<open>D\<close> by \<open>D\<close>
  matrix, let the covariance \<open>S_deltax\<close> of the change that the dynamics model reports be
  symmetric of the same size, with a \<open>D\<close> by \<open>D\<close> cross-covariance \<open>Sx_deltax\<close> and a
  mean \<open>m_deltax\<close> as long as \<open>mx\<close>; the cost has no \<open>R\<close>.  Then \<open>propagate_state\<close>
  returns, the next mean is \<open>mx + m_deltax\<close> entry by entry, and the next covariance
  is \<open>((Sx + S_deltax) + Sx_deltax) + Sx_deltax\<^sup>T\<close>, each sum rounded as the numbers'
  addition rounds.  Its entries \<open>(i, j)\<close> and \<open>(j, i)\<close> add the same four numbers, the
  last two in the opposite order; so it equals its transpose whenever the order of two
  additions in a row makes no difference, as with exact numbers, and is not symmetric
  bit for bit in general.
\<close>

theorem propagate_state_next_distribution:
  assumes delta: "state_delta env mx Sx t open_loop = (mu, Su, m_deltax, S_deltax, Sx_deltax)"
    and mean: "length m_deltax = length mx"
    and Sx: "is_matrix (state_dim env) (state_dim env) Sx" "symmetric Sx"
    and Sd: "is_matrix (state_dim env) (state_dim env) S_deltax" "symmetric S_deltax"
    and C: "is_matrix (state_dim env) (state_dim env) Sx_deltax"
    and noR: "cost_R env = None"
  shows "\<exists>mcost Scost mx_next Sx_next.
           propagate_state env mx Sx t open_loop = Inr (mcost, Scost, mx_next, Sx_next, mu, Su)
         \<and> length mx_next = length mx
         \<and> (\<forall>i<length mx. mx_next ! i = float_add env (mx ! i) (m_deltax ! i))
         \<and> is_matrix (state_dim env) (state_dim env) Sx_next
         \<and> (\<forall>i<state_dim env. \<forall>j<state_dim env.
               Sx_next ! i ! j =
                 float_add env
                   (float_add env (float_add env (Sx ! i ! j) (S_deltax ! i ! j))
                      (Sx_deltax ! i ! j))
                   (Sx_deltax ! j ! i))
         \<and> (\<forall>i<state_dim env. \<forall>j<state_dim env.
               Sx_next ! j ! i =
                 float_add env
                   (float_add env (float_add env (Sx ! i ! j) (S_deltax ! i ! j))
                      (Sx_deltax ! j ! i))
                   (Sx_deltax ! i ! j))
         \<and> ((\<forall>a b c. float_add env (float_add env a b) c = float_add env (float_add env a c) b)
               \<longrightarrow> transp Sx_next = Sx_next)"
proof -
  let ?n = "state_dim env"
  let ?f = "float_add env"
  let ?m = "map2 ?f mx m_deltax"
  obtain mc Sc where c: "cost_fn env mx Sx = (mc, Sc)" by (cases "cost_fn env mx Sx")
  let ?mcost = "?f mc (dot_vv (dot_vm mu (zeros2 (length mu) (length mu))) mu)"
  from next_covariance_entries[OF Sx(1) Sd(1) C, where f = ?f] obtain S1 S2 N where
    N: "elemwise_add_mat ?f Sx S_deltax = Inr S1" "elemwise_add_mat ?f S1 Sx_deltax = Inr S2"
       "elemwise_add_mat ?f S2 (transp Sx_deltax) = Inr N"
    and shape: "is_matrix ?n ?n N"
    and entries: "\<forall>i<?n. \<forall>j<?n.
        N ! i ! j = ?f (?f (?f (Sx ! i ! j) (S_deltax ! i ! j)) (Sx_deltax ! i ! j)) (Sx_deltax ! j ! i)"
    by (elim exE conjE)
  have run: "propagate_state env mx Sx t open_loop = Inr (?mcost, Sc, ?m, N, mu, Su)"
    using delta c noR mean N
    by (simp add: propagate_state_def elemwise_add_vec_def Let_def)
  have len: "length ?m = length mx" using mean by simp
  have means: "\<forall>i<length mx. ?m ! i = ?f (mx ! i) (m_deltax ! i)"
    using mean by simp
  have mirrored: "\<forall>i<?n. \<forall>j<?n.
      N ! j ! i = ?f (?f (?f (Sx ! i ! j) (S_deltax ! i ! j)) (Sx_deltax ! j ! i)) (Sx_deltax ! i ! j)"
  proof (intro allI impI)
    fix i j assume ij: "i < ?n" "j < ?n"
    have "Sx ! j ! i = Sx ! i ! j" by (rule symmetric_nth[OF Sx ij(2) ij(1)])
    moreover have "S_deltax ! j ! i = S_deltax ! i ! j" by (rule symmetric_nth[OF Sd ij(2) ij(1)])
    ultimately show "N ! j ! i =
        ?f (?f (?f (Sx ! i ! j) (S_deltax ! i ! j)) (Sx_deltax ! j ! i)) (Sx_deltax ! i ! j)"
      using entries ij by simp
  qed
  have sym: "(\<forall>a b c. ?f (?f a b) c = ?f (?f a c) b) \<longrightarrow> transp N = N"
  proof
    assume swap: "\<forall>a b c. ?f (?f a b) c = ?f (?f a c) b"
    have "symmetric N"
    proof (rule symmetricI[OF shape])
      fix i j assume ij: "i < ?n" "j < ?n"
      from entries ij have "N ! i ! j =
          ?f (?f (?f (Sx ! i ! j) (S_deltax ! i ! j)) (Sx_deltax ! i ! j)) (Sx_deltax ! j ! i)"
        by simp
      also have "\<dots> = ?f (?f (?f (Sx ! i ! j) (S_deltax ! i ! j)) (Sx_deltax ! j ! i)) (Sx_deltax ! i ! j)"
        using swap by blast
      also have "\<dots> = N ! j ! i" using mirrored ij by simp
      finally show "N ! i ! j = N ! j ! i" .
    qed
    then show "transp N = N" by (simp add: symmetric_def)
  qed
  show ?thesis
    by (intro exI[of _ ?mcost] exI[of _ Sc] exI[of _ ?m] exI[of _ N] conjI
        run len means shape entries mirrored sym)
qed

lemma mat_of_cong:
  "(\<And>i j. i < n \<Longrightarrow> j < m \<Longrightarrow> f i j = g i j) \<Longrightarrow> mat_of n m f = mat_of n m g"
  by (simp add: mat_of_def)

lemma vec_of_cong: "(\<And>i. i < n \<Longrightarrow> f i = g i) \<Longrightarrow> vec_of n f = vec_of n g"
  by (simp add: vec_of_def)

lemma vec_of_nth: "i < n \<Longrightarrow> vec_of n f ! i = f i"
  by (simp add: vec_of_def)

lemma sum_list_upt_cong:
  "(\<And>k. k < n \<Longrightarrow> f k = g k) \<Longrightarrow> (\<Sum>k\<leftarrow>[0..<n]. f k) = (\<Sum>k\<leftarrow>[0..<n]. (g k :: real))"
  by (rule arg_cong[where f = sum_list]) simp

lemma sum_list_sandwich:
  fixes a b :: "nat \<Rightarrow> real" and M :: "nat \<Rightarrow> nat \<Rightarrow> real"
  shows "(\<Sum>l\<leftarrow>[0..<n]. (\<Sum>k\<leftarrow>[0..<n]. a k * M k l) * b l)
       = (\<Sum>k\<leftarrow>[0..<n]. \<Sum>l\<leftarrow>[0..<n]. a k * M k l * b l)"
proof -
  have "(\<Sum>l\<leftarrow>[0..<n]. (\<Sum>k\<leftarrow>[0..<n]. a k * M k l) * b l)
      = (\<Sum>l = 0..<n. \<Sum>k = 0..<n. a k * M k l * b l)"
    by (simp add: interv_sum_list_conv_sum_set_nat sum_distrib_right)
  also have "\<dots> = (\<Sum>k = 0..<n. \<Sum>l = 0..<n. a k * M k l * b l)"
    by (rule sum.swap)
  also have "\<dots> = (\<Sum>k\<leftarrow>[0..<n]. \<Sum>l\<leftarrow>[0..<n]. a k * M k l * b l)"
    by (simp add: interv_sum_list_conv_sum_set_nat)
  finally show ?thesis .
qed

lemma mat_of_dims: "nrows (mat_of n m f) = n" "0 < n \<Longrightarrow> ncols (mat_of n m f) = m"
  using mat_of_shape[of n m f] by (simp_all add: is_matrix_nrows is_matrix_ncols)

lemma dot_mm_entries:
  assumes "is_matrix n k A" "is_matrix k m B" "0 < n" "0 < k"
  shows "dot_mm A B = mat_of n m (\<lambda>i j. \<Sum>l\<leftarrow>[0..<k]. A ! i ! l * B ! l ! j)"
  using assms by (simp add: dot_mm_def is_matrix_nrows is_matrix_ncols)

lemma transp_entries:
  assumes "is_matrix n m A" "0 < n"
  shows "transp A = mat_of m n (\<lambda>i j. A ! j ! i)"
  using assms by (simp add: transp_def is_matrix_nrows is_matrix_ncols)

lemma madd_entries:
  assumes "is_matrix n m A" "0 < n"
  shows "madd A B = mat_of n m (\<lambda>i j. A ! i ! j + B ! i ! j)"
  using assms by (simp add: madd_def is_matrix_nrows is_matrix_ncols)

lemma sandwich_direct:
  assumes A: "is_matrix Z n A" and M: "is_matrix Z Z M" and B: "is_matrix Z m B"
    and Z: "0 < Z" and n: "0 < n"
  shows "dot_mm (dot_mm (transp A) M) B = spec_sandwich Z n m A M B"
proof -
  let ?TA = "mat_of n Z (\<lambda>i j. A ! j ! i)"
  let ?P = "mat_of n Z (\<lambda>i l. \<Sum>k\<leftarrow>[0..<Z]. A ! k ! i * M ! k ! l)"
  have tA: "transp A = ?TA" by (rule transp_entries[OF A Z])
  have "dot_mm ?TA M = mat_of n Z (\<lambda>i l. \<Sum>k\<leftarrow>[0..<Z]. ?TA ! i ! k * M ! k ! l)"
    by (rule dot_mm_entries[OF mat_of_shape M n Z])
  also have "\<dots> = ?P"
    by (rule mat_of_cong, rule sum_list_upt_cong) (simp add: mat_of_nth)
  finally have P: "dot_mm (transp A) M = ?P" using tA by simp
  have "dot_mm ?P B = mat_of n m (\<lambda>i j. \<Sum>l\<leftarrow>[0..<Z]. ?P ! i ! l * B ! l ! j)"
    by (rule dot_mm_entries[OF mat_of_shape B n Z])
  also have "\<dots> = mat_of n m (\<lambda>i j. \<Sum>l\<leftarrow>[0..<Z]. (\<Sum>k\<leftarrow>[0..<Z]. A ! k ! i * M ! k ! l) * B ! l ! j)"
    by (rule mat_of_cong, rule sum_list_upt_cong) (simp add: mat_of_nth)
  also have "\<dots> = spec_sandwich Z n m A M B"
    unfolding spec_sandwich_def by (rule mat_of_cong) (rule sum_list_sandwich)
  finally show ?thesis using P by simp
qed

lemma left_direct:
  assumes "is_matrix Z m J" "0 < Z" "length v = Z"
  shows "dot_vm v J = spec_left Z m v J"
  using assms by (simp add: dot_vm_def spec_left_def is_matrix_ncols)

lemma jacobian_products_direct:
  assumes shp: "well_shaped Z U d" and Vx: "length Vx = Z" and Vxx: "is_matrix Z Z Vxx"
  shows "jacobian_products False d Vx Vxx =
           Inr (spec_left Z Z Vx (Fx d), spec_left Z U Vx (Fu d),
                spec_sandwich Z Z Z (Fx d) Vxx (Fx d), spec_sandwich Z U Z (Fu d) Vxx (Fx d),
                spec_sandwich Z U U (Fu d) Vxx (Fu d))"
proof -
  from shp have Z: "0 < Z" and U: "0 < U" and Fu: "is_matrix Z U (Fu d)"
    and Fx: "is_matrix Z Z (Fx d)"
    by (simp_all add: well_shaped_def)
  show ?thesis
    unfolding jacobian_products_def Let_def
    by (simp add: left_direct[OF Fx Z Vx] left_direct[OF Fu Z Vx]
        sandwich_direct[OF Fx Vxx Fx Z Z] sandwich_direct[OF Fu Vxx Fx Z U]
        sandwich_direct[OF Fu Vxx Fu Z U])
qed

lemma action_value_direct:
  assumes shp: "well_shaped Z U d"
  shows "action_value d (spec_left Z Z Vx (Fx d), spec_left Z U Vx (Fu d),
                spec_sandwich Z Z Z (Fx d) Vxx (Fx d), spec_sandwich Z U Z (Fu d) Vxx (Fx d),
                spec_sandwich Z U U (Fu d) Vxx (Fu d))
         = (spec_Qx Z d Vx, spec_Qu Z U d Vx, spec_Qxx Z d Vxx, spec_Qux Z U d Vxx,
            spec_Quu Z U d Vxx)"
proof -
  from shp have Z: "0 < Z" and U: "0 < U"
    and lu: "length (lu d) = U" and lx: "length (lx d) = Z"
    and luu: "is_matrix U U (luu d)" and lux: "is_matrix U Z (lux d)"
    and lxx: "is_matrix Z Z (lxx d)"
    by (simp_all add: well_shaped_def)
  have qx: "vadd (lx d) (spec_left Z Z Vx (Fx d)) = spec_Qx Z d Vx"
    by (simp add: vadd_def spec_Qx_def lx)
  have qu: "vadd (lu d) (spec_left Z U Vx (Fu d)) = spec_Qu Z U d Vx"
    by (simp add: vadd_def spec_Qu_def lu)
  have qxx: "madd (lxx d) (spec_sandwich Z Z Z (Fx d) Vxx (Fx d)) = spec_Qxx Z d Vxx"
    by (simp add: madd_entries[OF lxx Z] spec_Qxx_def)
  have qux: "madd (lux d) (spec_sandwich Z U Z (Fu d) Vxx (Fx d)) = spec_Qux Z U d Vxx"
    by (simp add: madd_entries[OF lux U] spec_Qux_def)
  let ?S = "spec_sandwich Z U U (Fu d) Vxx (Fu d)"
  let ?A = "mat_of U U (\<lambda>i j. luu d ! i ! j + ?S ! i ! j)"
  have a: "madd (luu d) ?S = ?A" by (rule madd_entries[OF luu U])
  have "madd ?A (mscale 0.01 (eye (nrows (luu d))))
          = mat_of U U (\<lambda>i j. ?A ! i ! j + mscale 0.01 (eye (nrows (luu d))) ! i ! j)"
    by (rule madd_entries[OF mat_of_shape U])
  also have "\<dots> = spec_Quu Z U d Vxx"
    unfolding spec_Quu_def
    by (rule mat_of_cong)
       (simp add: mat_of_nth is_matrix_nrows[OF luu] mscale_def eye_def mat_of_def)
  finally have q1: "madd ?A (mscale 0.01 (eye (nrows (luu d)))) = spec_Quu Z U d Vxx" .
  have quu: "madd (madd (luu d) ?S) (mscale 0.01 (eye (nrows (luu d)))) = spec_Quu Z U d Vxx"
    by (subst a) (rule q1)
  show ?thesis
    by (simp only: action_value_def Let_def prod.case qx qu qxx qux quu)
qed

lemma spec_shapes:
  "length (spec_Qx Z d Vx) = Z" "length (spec_Qu Z U d Vx) = U"
  "is_matrix Z Z (spec_Qxx Z d Vxx)" "is_matrix U Z (spec_Qux Z U d Vxx)"
  "is_matrix U U (spec_Quu Z U d Vxx)"
  by (simp_all add: spec_Qx_def spec_Qu_def spec_Qxx_def spec_Qux_def spec_Quu_def
      vec_of_def mat_of_shape)

lemma value_update_direct:
  assumes Z: "0 < Z" and U: "0 < U" and Qx: "length Qx = Z" and Qu: "length Qu = U"
    and Qxx: "is_matrix Z Z Qxx" and Qux: "is_matrix U Z Qux" and L: "length L = U"
  shows "vadd_scalar V (dot_vv Qu L) = spec_V U V Qu L"
    and "vadd_scalar Qx (dot_vv Qu L) = spec_Vx Z U Qx Qu L"
    and "madd_row Qxx (dot_mv (transp Qux) L) = spec_Vxx Z U Qxx Qux L"
proof -
  show "vadd_scalar V (dot_vv Qu L) = spec_V U V Qu L"
    by (simp add: vadd_scalar_def dot_vv_def spec_V_def Qu)
  have "map (\<lambda>a. a + dot_vv Qu L) Qx = map (\<lambda>i. Qx ! i + dot_vv Qu L) [0..<length Qx]"
    by (rule nth_equalityI) simp_all
  then show "vadd_scalar Qx (dot_vv Qu L) = spec_Vx Z U Qx Qu L"
    by (simp add: vadd_scalar_def dot_vv_def spec_Vx_def vec_of_def Qx Qu)
  have t: "transp Qux = mat_of Z U (\<lambda>i j. Qux ! j ! i)" by (rule transp_entries[OF Qux U])
  have w: "dot_mv (transp Qux) L = vec_of Z (\<lambda>j. \<Sum>k\<leftarrow>[0..<U]. Qux ! k ! j * L ! k)"
    unfolding dot_mv_def t mat_of_dims(1) L
    by (rule vec_of_cong, rule sum_list_upt_cong) (simp add: mat_of_nth)
  show "madd_row Qxx (dot_mv (transp Qux) L) = spec_Vxx Z U Qxx Qux L"
    unfolding madd_row_def spec_Vxx_def w is_matrix_nrows[OF Qxx] is_matrix_ncols[OF Qxx Z]
    by (rule mat_of_cong) (simp add: vec_of_nth)
qed

text \<open>
  C2.  In the direct mode (\<open>self.lop\<close> false, which the constructor sets; with
  \<open>self.lop\<close> set the method raises before it forms any action-value derivative), with
  derivatives of the shapes of \<open>Z\<close> state entries and \<open>U\<close> controls and a solver that
  returns a vector as long as its right-hand side, \<open>backward_pass\<close> forms \<open>Qx\<close>, \<open>Qu\<close>,
  \<open>Qxx\<close>, \<open>Qux\<close>, \<open>Quu\<close> by the formulas of the specification, takes both \<open>I\<close> and
  \<open>L\<close> as minus the solution of \<open>Quu x = Qu\<close>, and returns \<open>V + Qu\<cdot>I\<close>, \<open>Qx + Qu\<cdot>L\<close>,
  \<open>Qxx + Qux\<^sup>T\<cdot>L\<close>, \<open>Vx\<cdot>Fx\<close> and \<open>Vx\<cdot>Fu\<close>; it raises when the solver does.
\<close>

theorem backward_pass_direct:
  assumes shp: "well_shaped Z U (linearize env (t - 1) z_prev)"
    and Vx: "length Vx = Z" and Vxx: "is_matrix Z Z Vxx"
    and sol: "\<forall>A b x. solve_vec env A b = Inr x \<longrightarrow> length x = length b"
  shows "backward_pass env False t z_prev V Vx Vxx =
     (let d = linearize env (t - 1) z_prev;
          Qx = spec_Qx Z d Vx;
          Qu = spec_Qu Z U d Vx;
          Qxx = spec_Qxx Z d Vxx;
          Qux = spec_Qux Z U d Vxx;
          Quu = spec_Quu Z U d Vxx
      in case solve_vec env Quu Qu of
           Inl e \<Rightarrow> Inl e
         | Inr x \<Rightarrow>
             Inr (spec_V U V Qu (vneg x), spec_Vx Z U Qx Qu (vneg x),
                  spec_Vxx Z U Qxx Qux (vneg x),
                  spec_left Z Z Vx (Fx d), spec_left Z U Vx (Fu d)))"
proof -
  let ?d = "linearize env (t - 1) z_prev"
  let ?Qx = "spec_Qx Z ?d Vx" and ?Qu = "spec_Qu Z U ?d Vx"
  let ?Qxx = "spec_Qxx Z ?d Vxx" and ?Qux = "spec_Qux Z U ?d Vxx"
  let ?Quu = "spec_Quu Z U ?d Vxx"
  from shp have Z: "0 < Z" and U: "0 < U" by (simp_all add: well_shaped_def)
  note jp = jacobian_products_direct[OF shp Vx Vxx]
  note av = action_value_direct[OF shp, of Vx Vxx]
  show ?thesis
  proof (cases "solve_vec env ?Quu ?Qu")
    case (Inl e)
    then show ?thesis
      by (simp add: backward_pass_def Let_def jp av)
  next
    case (Inr x)
    then have "length x = length ?Qu" using sol by blast
    then have L: "length (vneg x) = U" by (simp add: vneg_def spec_shapes)
    note upd = value_update_direct[OF Z U spec_shapes(1) spec_shapes(2) spec_shapes(3)
        spec_shapes(4) L]
    show ?thesis
      by (simp add: backward_pass_def Let_def jp av Inr upd(2,3) upd(1)[where V = V])
  qed
qed

lemma upt_small: "[0..<1] = [0]" "[0..<2] = [0, 1]" "[0..<3] = [0, 1, 2]"
  by (simp_all add: upt_rec)

lemmas tensor_defs =
  nrows_def ncols_def vec_of_def mat_of_def transp_def madd_def vadd_def dot_vv_def dot_vm_def
  dot_mv_def dot_mm_def vadd_scalar_def madd_row_def vneg_def eye_def mscale_def diag_of_def
  hstack_def select_rows_def set_rows_def zeros_def zeros2_def upt_small

lemma state_delta_example:
  "state_delta env_propagate [0, 0] [[2, 1], [1, 2]] 0 True
     = ([0], [[0]], [1, 1], [[1, 0], [0, 1]], [[1, 2], [3, 4]])"
  by (simp add: state_delta_def control_distribution_def env_propagate_def Let_def tensor_defs)

lemma state_delta_double:
  "state_delta env_propagate_double [0, 0]
       [[1, round_double (1 / 10)], [round_double (1 / 10), 1]] 0 True
     = ([0], [[0]], [1, 1], [[1, 0], [0, 1]],
        [[0, round_double (1 / 10)], [round_double (4 / 10), 0]])"
  by (simp add: state_delta_def control_distribution_def env_propagate_double_def
      env_propagate_def Let_def tensor_defs)

theorem propagate_state_next_distribution_witness:
  "symmetric [[2, 1], [1, 2]] \<and> symmetric [[1, 0], [0, 1]]
   \<and> (\<exists>mcost Scost.
         propagate_state env_propagate [0, 0] [[2, 1], [1, 2]] 0 True
           = Inr (mcost, Scost, [1, 1], [[5, 6], [6, 11]], [0], [[0]]))
   \<and> transp [[5, 6], [6, 11]] = [[5, 6], [6, 11]]"
proof -
  have d: "state_dim env_propagate = 2" and r: "cost_R env_propagate = None"
    and fa: "float_add env_propagate = (+)"
    by (simp_all add: env_propagate_def)
  have s1: "symmetric [[2, 1], [1, 2]]" and s2: "symmetric [[1, 0], [0, 1]]"
    by (simp_all add: symmetric_def tensor_defs)
  have m1: "is_matrix (state_dim env_propagate) (state_dim env_propagate) [[2, 1], [1, 2]]"
    and m2: "is_matrix (state_dim env_propagate) (state_dim env_propagate) [[1, 0], [0, 1]]"
    and m3: "is_matrix (state_dim env_propagate) (state_dim env_propagate) [[1, 2], [3, 4]]"
    by (simp_all add: d is_matrix_def)
  have ml: "length [1, 1 :: real] = length [0, 0 :: real]" by simp
  have swap: "\<forall>a b c. float_add env_propagate (float_add env_propagate a b) c
                = float_add env_propagate (float_add env_propagate a c) b"
    by (simp add: fa)
  from propagate_state_next_distribution[OF state_delta_example ml m1 s1 m2 s2 m3 r]
  obtain mcost Scost mx_next Sx_next where
    p: "propagate_state env_propagate [0, 0] [[2, 1], [1, 2]] 0 True
          = Inr (mcost, Scost, mx_next, Sx_next, [0], [[0]])"
    and l: "length mx_next = length [0, 0 :: real]"
    and m: "\<forall>i<length [0, 0 :: real].
              mx_next ! i = float_add env_propagate ([0, 0] ! i) ([1, 1] ! i)"
    and shape: "is_matrix (state_dim env_propagate) (state_dim env_propagate) Sx_next"
    and entries: "\<forall>i<state_dim env_propagate. \<forall>j<state_dim env_propagate.
               Sx_next ! i ! j =
                 float_add env_propagate
                   (float_add env_propagate
                      (float_add env_propagate ([[2, 1], [1, 2]] ! i ! j) ([[1, 0], [0, 1]] ! i ! j))
                      ([[1, 2], [3, 4]] ! i ! j))
                   ([[1, 2], [3, 4]] ! j ! i)"
    and t: "(\<forall>a b c. float_add env_propagate (float_add env_propagate a b) c
                = float_add env_propagate (float_add env_propagate a c) b)
            \<longrightarrow> transp Sx_next = Sx_next"
    by (elim exE conjE)
  have target: "is_matrix (state_dim env_propagate) (state_dim env_propagate) [[5, 6], [6, 11]]"
    by (simp add: d is_matrix_def)
  have S': "Sx_next = [[5, 6], [6, 11]]"
  proof (rule matrix_eqI[OF shape target])
    fix i j assume ij: "i < state_dim env_propagate" "j < state_dim env_propagate"
    then have "i = 0 \<or> i = 1" "j = 0 \<or> j = 1" by (auto simp: d)
    then show "Sx_next ! i ! j = [[5, 6], [6, 11]] ! i ! j"
      using entries[rule_format, OF ij] by (elim disjE) (simp_all add: fa)
  qed
  have "mx_next ! 0 = 1" "mx_next ! 1 = 1" using m by (simp_all add: fa)
  then have m': "mx_next = [1, 1]"
    using l by (intro nth_equalityI) (auto simp: less_Suc_eq)
  have t': "transp Sx_next = Sx_next" using t swap by (rule mp)
  show ?thesis
    using s1 s2 p t' unfolding S' m' by (intro conjI exI[of _ mcost] exI[of _ Scost])
qed

text \<open>
  Where C5 as written fails: in double precision the covariance that \<open>propagate_state\<close>
  returns is not exactly symmetric.  For \<open>Sx = [[1, 0.1], [0.1, 1]]\<close>, the identity as
  \<open>S_deltax\<close> and \<open>Sx_deltax = [[0, 0.1], [0.4, 0]]\<close>, entry \<open>(0, 1)\<close> is
  \<open>(0.1 + 0.1) + 0.4\<close>, the double \<open>0.6000000000000001\<close>, and entry \<open>(1, 0)\<close> is
  \<open>(0.1 + 0.4) + 0.1\<close>, the double \<open>0.6\<close>.
\<close>

theorem propagate_state_covariance_not_symmetric:
  "symmetric [[1, round_double (1 / 10)], [round_double (1 / 10), 1]]
   \<and> state_delta env_propagate_double [0, 0]
         [[1, round_double (1 / 10)], [round_double (1 / 10), 1]] 0 True
       = ([0], [[0]], [1, 1], [[1, 0], [0, 1]],
          [[0, round_double (1 / 10)], [round_double (4 / 10), 0]])
   \<and> symmetric [[1, 0], [0, 1]]
   \<and> propagate_state env_propagate_double [0, 0]
         [[1, round_double (1 / 10)], [round_double (1 / 10), 1]] 0 True
       = Inr (0, 0, [1, 1],
              [[2, 5404319552844596 / 9007199254740992],
               [5404319552844595 / 9007199254740992, 2]], [0], [[0]])
   \<and> transp [[2, 5404319552844596 / 9007199254740992],
              [5404319552844595 / 9007199254740992, 2]]
       \<noteq> [[2, 5404319552844596 / 9007199254740992],
            [5404319552844595 / 9007199254740992, 2 :: real]]"
proof -
  have s1: "symmetric [[1, round_double (1 / 10)], [round_double (1 / 10), 1]]"
    and s2: "symmetric [[1, 0], [0, 1]]"
    by (simp_all add: symmetric_def tensor_defs)
  have d4: "round_double (2 / 5) = 3602879701896397 / 9007199254740992"
    by (simp add: double_eval)
  have sums: "double_add 0 1 = 1" "double_add 1 0 = 1" "double_add 1 1 = 2" "double_add 2 0 = 2"
    "double_add 0 0 = 0"
    "double_add (3602879701896397 / 36028797018963968) 0 = 3602879701896397 / 36028797018963968"
    "double_add (3602879701896397 / 36028797018963968) (3602879701896397 / 36028797018963968)
       = 3602879701896397 / 18014398509481984"
    "double_add (3602879701896397 / 18014398509481984) (3602879701896397 / 9007199254740992)
       = 5404319552844596 / 9007199254740992"
    "double_add (3602879701896397 / 36028797018963968) (3602879701896397 / 9007199254740992)
       = 1 / 2"
    "double_add (1 / 2) (3602879701896397 / 36028797018963968)
       = 5404319552844595 / 9007199254740992"
    by (simp_all add: double_eval)
  have p: "propagate_state env_propagate_double [0, 0]
         [[1, round_double (1 / 10)], [round_double (1 / 10), 1]] 0 True
       = Inr (0, 0, [1, 1],
              [[2, 5404319552844596 / 9007199254740992],
               [5404319552844595 / 9007199254740992, 2]], [0], [[0]])"
    unfolding propagate_state_def state_delta_double
    by (simp add: env_propagate_double_def env_propagate_def elemwise_add_vec_def
        elemwise_add_mat_def Let_def tensor_defs double_tenth d4 sums)
  have n: "transp [[2, 5404319552844596 / 9007199254740992],
              [5404319552844595 / 9007199254740992, 2]]
       \<noteq> [[2, 5404319552844596 / 9007199254740992],
            [5404319552844595 / 9007199254740992, 2 :: real]]"
    by (simp add: tensor_defs)
  show ?thesis
    by (intro conjI s1 state_delta_double s2 p n)
qed

lemma lin1_shaped: "well_shaped 2 1 lin1"
  by (simp add: well_shaped_def lin1_def is_matrix_def)

lemma solve1_length: "\<forall>A b x. solve_vec env_backward A b = Inr x \<longrightarrow> length x = length b"
  by (auto simp: env_backward_def solve1_def split: list.splits if_splits)

theorem backward_pass_direct_witness:
  "well_shaped 2 1 lin1
   \<and> backward_pass env_backward False 1 [0, 0] [5] [0, 0] [[1, 1], [1, 2]]
       = Inr ([905 / 201], [- (100 / 201), - (100 / 201)],
              [[101 / 201, 101 / 201], [101 / 201, 302 / 201]], [0, 0], [0])"
proof -
  have shp: "well_shaped 2 1 (linearize env_backward (1 - 1) [0, 0])"
    using lin1_shaped by (simp add: env_backward_def)
  have Vx: "length [0, 0 :: real] = 2" by simp
  have Vxx: "is_matrix 2 2 [[1, 1], [1, 2]]" by (simp add: is_matrix_def)
  have l: "linearize env_backward (1 - 1) [0, 0] = lin1" by (simp add: env_backward_def)
  have Q: "spec_Qx 2 lin1 [0, 0] = [0, 0]" "spec_Qu 2 1 lin1 [0, 0] = [1]"
    "spec_Qxx 2 lin1 [[1, 1], [1, 2]] = [[1, 1], [1, 2]]"
    "spec_Qux 2 1 lin1 [[1, 1], [1, 2]] = [[1, 1]]"
    "spec_Quu 2 1 lin1 [[1, 1], [1, 2]] = [[201 / 100]]"
    "spec_left 2 2 [0, 0] (Fx lin1) = [0, 0]" "spec_left 2 1 [0, 0] (Fu lin1) = [0]"
    by (simp_all add: spec_Qx_def spec_Qu_def spec_Qxx_def spec_Qux_def spec_Quu_def
        spec_left_def spec_sandwich_def lin1_def tensor_defs)
  have s: "solve_vec env_backward [[201 / 100]] [1] = Inr [100 / 201]"
    by (simp add: env_backward_def solve1_def)
  have u: "spec_V 1 [5] [1] (vneg [100 / 201]) = [905 / 201]"
    "spec_Vx 2 1 [0, 0] [1] (vneg [100 / 201]) = [- (100 / 201), - (100 / 201)]"
    "spec_Vxx 2 1 [[1, 1], [1, 2]] [[1, 1]] (vneg [100 / 201])
       = [[101 / 201, 101 / 201], [101 / 201, 302 / 201]]"
    by (simp_all add: spec_V_def spec_Vx_def spec_Vxx_def tensor_defs)
  from backward_pass_direct[OF shp Vx Vxx solve1_length, of "[5]"]
  have "backward_pass env_backward False 1 [0, 0] [5] [0, 0] [[1, 1], [1, 2]]
       = Inr ([905 / 201], [- (100 / 201), - (100 / 201)],
              [[101 / 201, 101 / 201], [101 / 201, 302 / 201]], [0, 0], [0])"
    unfolding l Let_def Q s sum.case u by simp
  with lin1_shaped show ?thesis by simp
qed

lemma backward_pass_lop_raises: "\<exists>e. backward_pass env True t z_prev V Vx Vxx = Inl e"
  by (simp add: backward_pass_def jacobian_products_def Let_def split: sum.splits)

lemma cholesky_zeros:
  assumes "0 < n"
  shows "cholesky (zeros2 n n) = Inl LinAlgError"
proof -
  have "[0..<n] = 0 # [1..<n]" using assms by (simp add: upt_rec)
  moreover have "zeros2 n n ! 0 ! 0 = 0" using assms by (simp add: zeros2_def zeros_def)
  ultimately show ?thesis
    by (simp add: cholesky_def cholesky_row_def zeros2_def)
qed

text \<open>
  C6 on the code.  The backward scan starts from \<open>Vxx = 0\<close>.  With \<open>self.lop\<close> set, the
  first step takes the Cholesky factor of that zero matrix, which is not positive
  definite, and raises: for every trajectory with at least one step and a non-empty
  state encoding the scan in the Lop mode returns nothing, whatever the direct mode
  computes.
\<close>

theorem backward_scan_lop_raises:
  assumes "z_nom \<noteq> []" and "hd z_nom \<noteq> []"
  shows "fst (backward_scans env z_nom last_cost) = Inl LinAlgError"
proof -
  from assms obtain z rest where zn: "z_nom = z # rest" and z: "z \<noteq> []"
    by (cases z_nom) auto
  let ?Z = "length z"
  let ?steps = "rev (zip (map int [0..<length z_nom]) z_nom)"
  have "?steps \<noteq> []" using zn by (simp add: upt_rec)
  then obtain t z' more where st: "?steps = (t, z') # more"
    by (cases ?steps) auto
  have Z: "0 < ?Z" using z by simp
  have "backward_pass env True t z' [last_cost] (zeros ?Z) (zeros2 ?Z ?Z) = Inl LinAlgError"
    by (simp add: backward_pass_def jacobian_products_def cholesky_zeros[OF Z] Let_def)
  then have "backward_scan env True ?steps ([last_cost], zeros ?Z, zeros2 ?Z ?Z) = Inl LinAlgError"
    unfolding st by simp
  then show ?thesis
    using zn by (simp add: backward_scans_def Let_def)
qed

theorem backward_scan_lop_raises_witness:
  "backward_scans env_backward [[0, 0]] 5
     = (Inl LinAlgError,
        Inr [([405 / 101], [- (100 / 101), - (100 / 101)], [[0, 0], [0, 0]], [0, 0], [0])])"
proof -
  have a: "[[0, 0 :: real]] \<noteq> []" and b: "hd [[0, 0 :: real]] \<noteq> []" by simp_all
  note lop = backward_scan_lop_raises[OF a b, of env_backward 5]
  have jp: "jacobian_products False lin1 [0, 0] [[0, 0], [0, 0]]
              = Inr ([0, 0], [0], [[0, 0], [0, 0]], [[0, 0]], [[0]])"
    by (simp add: jacobian_products_def lin1_def Let_def tensor_defs)
  have av: "action_value lin1 ([0, 0], [0], [[0, 0], [0, 0]], [[0, 0]], [[0]])
              = ([0, 0], [1], [[0, 0], [0, 0]], [[0, 0]], [[101 / 100]])"
    by (simp add: action_value_def lin1_def Let_def tensor_defs)
  have s: "solve_vec env_backward [[101 / 100]] [1] = Inr [100 / 101]"
    by (simp add: env_backward_def solve1_def)
  have bp: "backward_pass env_backward False 0 [0, 0] [5] [0, 0] [[0, 0], [0, 0]]
      = Inr ([405 / 101], [- (100 / 101), - (100 / 101)], [[0, 0], [0, 0]], [0, 0], [0])"
    unfolding backward_pass_def Let_def
    by (simp add: env_backward_def[THEN arg_cong, of linearize] jp av s tensor_defs)
  have direct: "snd (backward_scans env_backward [[0, 0]] 5)
      = Inr [([405 / 101], [- (100 / 101), - (100 / 101)], [[0, 0], [0, 0]], [0, 0], [0])]"
    by (simp add: backward_scans_def Let_def upt_small bp zeros_def zeros2_def)
  show ?thesis
    using lop direct by (simp add: prod_eq_iff)
qed

end
